theory Spec2Isabelle
  imports Main
begin

section \<open>Data model\<close>

text \<open>
  The plugin works on the browser DOM. A DOM node is an address; the tree is kept the way
  the DOM keeps it, as a child list and a parent pointer per node. Nodes are allocated
  from a counter by \<open>createElement\<close>.
\<close>

type_synonym node = nat

datatype player_size = small | medium | large | xlarge | xxlarge | xxxlarge

record FloatingPlayerSettings =
  enabled :: bool
  size_setting :: player_size

record Position =
  pos_x :: int
  pos_y :: int

record Dim =
  width :: int
  height :: int

record VideoState =
  video :: node
  originalParent :: node
  originalNextSibling :: "node option"
  placeholder :: node

record MouseEvent =
  clientX :: int
  clientY :: int

text \<open>
  A video's \<open>currentTime\<close> is a non-negative number of seconds. It is kept as the decimal
  digits that JavaScript prints for it: the integer part and the digits after the point
  (125.7 is \<open>Decimal 125 [7]\<close>).
\<close>

datatype jsnum = Decimal nat "nat list"

text \<open>
  The whole state: the DOM, what layout and media report, the module variables of
  floatingPlayer.ts (under their own names), and the effects on the host (console,
  messages, inserted text, rendered UI).
\<close>

record world =
  kids :: "node \<Rightarrow> node list"
  parent :: "node \<Rightarrow> node option"
  tagName :: "node \<Rightarrow> string"
  classList :: "node \<Rightarrow> string list"
  elemId :: "node \<Rightarrow> string"
  blockid :: "node \<Rightarrow> string option"
  style :: "node \<Rightarrow> string \<Rightarrow> string"
  originalStyles :: "node \<Rightarrow> (string \<times> string) option"
  nextNode :: node
  document :: node
  body :: node
  offsetWidth :: "node \<Rightarrow> int"
  offsetHeight :: "node \<Rightarrow> int"
  boundingRect :: "node \<Rightarrow> Position"
  innerWidth :: int
  innerHeight :: int
  paused :: "node \<Rightarrow> bool"
  currentTime :: "node \<Rightarrow> jsnum"
  recentlyPlayedVideo :: "node option"
  floatingContainer :: "node option"
  observer :: "node list option"
  isManuallyHidden :: bool
  isDragging :: bool
  dragOffset :: Position
  currentSettings :: FloatingPlayerSettings
  videoState :: "VideoState option"
  isFloating :: bool
  dragDoc :: bool
  playListener :: bool
  console :: "string list"
  uiMsgs :: "(string \<times> string) list"
  editorText :: "string list"

definition SIZE_MAP :: "player_size \<Rightarrow> Dim" where
  "SIZE_MAP s = (case s of
       small \<Rightarrow> \<lparr>width = 240, height = 135\<rparr>
     | medium \<Rightarrow> \<lparr>width = 320, height = 180\<rparr>
     | large \<Rightarrow> \<lparr>width = 400, height = 225\<rparr>
     | xlarge \<Rightarrow> \<lparr>width = 480, height = 270\<rparr>
     | xxlarge \<Rightarrow> \<lparr>width = 640, height = 360\<rparr>
     | xxxlarge \<Rightarrow> \<lparr>width = 800, height = 450\<rparr>)"

section \<open>Numbers as text\<close>

definition digit_char :: "nat \<Rightarrow> char" where
  "digit_char d =
     (if d = 0 then CHR ''0'' else if d = 1 then CHR ''1'' else if d = 2 then CHR ''2''
      else if d = 3 then CHR ''3'' else if d = 4 then CHR ''4'' else if d = 5 then CHR ''5''
      else if d = 6 then CHR ''6'' else if d = 7 then CHR ''7'' else if d = 8 then CHR ''8''
      else CHR ''9'')"

fun show_digits :: "nat \<Rightarrow> nat \<Rightarrow> string" where
  "show_digits 0 n = []"
| "show_digits (Suc f) n =
     (if n < 10 then [digit_char n] else show_digits f (n div 10) @ [digit_char (n mod 10)])"

text \<open>A number below \<open>10 ^ (n + 1)\<close> has at most \<open>n + 1\<close> digits, so \<open>Suc n\<close> rounds print \<open>n\<close> whole.\<close>

definition show_nat :: "nat \<Rightarrow> string" where
  "show_nat n = show_digits (Suc n) n"

definition show_int :: "int \<Rightarrow> string" where
  "show_int i = (if i < 0 then CHR ''-'' # show_nat (nat (- i)) else show_nat (nat i))"

definition px :: "int \<Rightarrow> string" where
  "px i = show_int i @ ''px''"

section \<open>DOM operations\<close>

fun after :: "'a \<Rightarrow> 'a list \<Rightarrow> 'a option" where
  "after a [] = None"
| "after a (b # bs) = (if b = a then (case bs of [] \<Rightarrow> None | c # _ \<Rightarrow> Some c) else after a bs)"

fun ins :: "'a \<Rightarrow> 'a \<Rightarrow> 'a list \<Rightarrow> 'a list" where
  "ins new r [] = [new]"
| "ins new r (b # bs) = (if b = r then new # b # bs else b # ins new r bs)"

definition parentElement :: "world \<Rightarrow> node \<Rightarrow> node option" where
  "parentElement w n =
     (case parent w n of None \<Rightarrow> None
      | Some p \<Rightarrow> if p = document w then None else Some p)"

definition nextSibling :: "world \<Rightarrow> node \<Rightarrow> node option" where
  "nextSibling w n = (case parent w n of None \<Rightarrow> None | Some p \<Rightarrow> after n (kids w p))"

definition removeFromParent :: "node \<Rightarrow> world \<Rightarrow> world" where
  "removeFromParent n w =
     (case parent w n of None \<Rightarrow> w
      | Some p \<Rightarrow> w\<lparr>kids := (kids w)(p := remove1 n (kids w p)),
                     parent := (parent w)(n := None)\<rparr>)"

text \<open>
  \<open>p.insertBefore(new, ref)\<close>: \<open>new\<close> leaves its old parent and becomes the child
  of \<open>p\<close> in front of \<open>ref\<close>, or the last child when \<open>ref\<close> is null. The DOM raises
  NotFoundError when \<open>ref\<close> is not a child of \<open>p\<close>; both callers test the parent of
  \<open>ref\<close> first, and the model leaves the tree as it is there.
\<close>

definition insertBefore :: "node \<Rightarrow> node \<Rightarrow> node option \<Rightarrow> world \<Rightarrow> world" where
  "insertBefore p new ref w =
     (case ref of
        None \<Rightarrow>
          (let w1 = removeFromParent new w
           in w1\<lparr>kids := (kids w1)(p := kids w1 p @ [new]),
                 parent := (parent w1)(new := Some p)\<rparr>)
      | Some r \<Rightarrow>
          if r \<in> set (kids w p) then
            (let w1 = removeFromParent new w
             in w1\<lparr>kids := (kids w1)(p := ins new r (kids w1 p)),
                   parent := (parent w1)(new := Some p)\<rparr>)
          else w)"

definition appendChild :: "node \<Rightarrow> node \<Rightarrow> world \<Rightarrow> world" where
  "appendChild p c w = insertBefore p c None w"

definition createElement :: "string \<Rightarrow> world \<Rightarrow> node \<times> world" where
  "createElement t w =
     (let n = nextNode w
      in (n, w\<lparr>nextNode := Suc n,
               kids := (kids w)(n := []),
               parent := (parent w)(n := None),
               tagName := (tagName w)(n := t),
               classList := (classList w)(n := []),
               elemId := (elemId w)(n := []),
               blockid := (blockid w)(n := None),
               style := (style w)(n := (\<lambda>_. [])),
               originalStyles := (originalStyles w)(n := None)\<rparr>))"

definition setStyle :: "node \<Rightarrow> string \<Rightarrow> string \<Rightarrow> world \<Rightarrow> world" where
  "setStyle n k v w = w\<lparr>style := (style w)(n := (style w n)(k := v))\<rparr>"

definition setClassName :: "node \<Rightarrow> string \<Rightarrow> world \<Rightarrow> world" where
  "setClassName n c w = w\<lparr>classList := (classList w)(n := [c])\<rparr>"

text \<open>
  The proper descendants of a node in document order, to a depth. A tree on the allocated
  nodes is no deeper than their number, which is the depth every query uses.
\<close>

fun descendants :: "nat \<Rightarrow> (node \<Rightarrow> node list) \<Rightarrow> node \<Rightarrow> node list" where
  "descendants 0 k n = []"
| "descendants (Suc d) k n = concat (map (\<lambda>c. c # descendants d k c) (k n))"

definition subtree :: "world \<Rightarrow> node \<Rightarrow> node list" where
  "subtree w n = descendants (nextNode w) (kids w) n"

definition querySelector :: "world \<Rightarrow> node \<Rightarrow> (node \<Rightarrow> bool) \<Rightarrow> node option" where
  "querySelector w n sel = find sel (subtree w n)"

definition querySelectorAll :: "world \<Rightarrow> node \<Rightarrow> (node \<Rightarrow> bool) \<Rightarrow> node list" where
  "querySelectorAll w n sel = filter sel (subtree w n)"

definition isVideo :: "world \<Rightarrow> node \<Rightarrow> bool" where
  "isVideo w n = (tagName w n = ''VIDEO'')"

definition hasClass :: "world \<Rightarrow> string \<Rightarrow> node \<Rightarrow> bool" where
  "hasClass w c n = (c \<in> set (classList w n))"

section \<open>The floating player engine (src/floatingPlayer.ts)\<close>

text \<open>
  Every function below is the source function of the same name, with the module variables
  read from and written to the \<open>world\<close>. Purely cosmetic assignments (the placeholder's
  background and caption, the close button's glyph and title) are left out; they are read
  by nothing. \<open>top?.document || document\<close> is the one \<open>document\<close> of the world.
\<close>

definition createFloatingContainer :: "world \<Rightarrow> node \<times> world" where
  "createFloatingContainer w =
     (let (container, w1) = createElement ''DIV'' w;
          w2 = setClassName container ''mediatimestamp-floating-player'' w1;
          w3 = setStyle container ''display'' ''none'' w2;
          (dragHandle, w4) = createElement ''DIV'' w3;
          w5 = setClassName dragHandle ''drag-handle'' w4;
          w6 = appendChild container dragHandle w5;
          (closeBtn, w7) = createElement ''BUTTON'' w6;
          w8 = setClassName closeBtn ''close-btn'' w7;
          w9 = appendChild container closeBtn w8
      in (container, w9))"

definition startDrag :: "MouseEvent \<Rightarrow> world \<Rightarrow> world" where
  "startDrag e w =
     (case floatingContainer w of
        None \<Rightarrow> w
      | Some c \<Rightarrow>
          w\<lparr>isDragging := True,
            dragDoc := True,
            dragOffset := \<lparr>pos_x = clientX e - pos_x (boundingRect w c),
                            pos_y = clientY e - pos_y (boundingRect w c)\<rparr>\<rparr>)"

text \<open>Lines 111 to 124 of \<open>onDrag\<close>: the new position, clamped.\<close>

definition dragPosition :: "MouseEvent \<Rightarrow> world \<Rightarrow> Position" where
  "dragPosition e w =
     (let sz = SIZE_MAP (size_setting (currentSettings w));
          viewportWidth = innerWidth w;
          viewportHeight = innerHeight w;
          newX = clientX e - pos_x (dragOffset w);
          newY = clientY e - pos_y (dragOffset w)
      in \<lparr>pos_x = max 10 (min newX (viewportWidth - width sz - 10)),
           pos_y = max 10 (min newY (viewportHeight - height sz - 10))\<rparr>)"

definition onDrag :: "MouseEvent \<Rightarrow> world \<Rightarrow> world" where
  "onDrag e w =
     (case floatingContainer w of
        None \<Rightarrow> w
      | Some c \<Rightarrow>
          if \<not> isDragging w then w
          else
            (let p = dragPosition e w;
                 w1 = setStyle c ''right'' ''auto'' w;
                 w2 = setStyle c ''bottom'' ''auto'' w1;
                 w3 = setStyle c ''left'' (px (pos_x p)) w2
             in setStyle c ''top'' (px (pos_y p)) w3))"

definition stopDrag :: "world \<Rightarrow> world" where
  "stopDrag w = w\<lparr>isDragging := False, dragDoc := False\<rparr>"

definition makePlaceholder :: "node \<Rightarrow> node \<Rightarrow> world \<Rightarrow> world" where
  "makePlaceholder ph v w =
     (let w1 = setClassName ph ''mediatimestamp-video-placeholder'' w;
          w2 = setStyle ph ''width'' (px (offsetWidth w1 v)) w1;
          w3 = setStyle ph ''height'' (px (offsetHeight w2 v)) w2
      in setStyle ph ''display'' ''flex'' w3)"

definition showFloatingPlayer :: "world \<Rightarrow> world" where
  "showFloatingPlayer w =
     (case recentlyPlayedVideo w of
        None \<Rightarrow> w
      | Some v \<Rightarrow>
         (case floatingContainer w of
            None \<Rightarrow> w
          | Some c \<Rightarrow>
             if \<not> enabled (currentSettings w) \<or> isManuallyHidden w \<or> isFloating w then w
             else
              (case parentElement w v of
                 None \<Rightarrow> w
               | Some p \<Rightarrow>
                  (let ns = nextSibling w v;
                       (ph, w1) = createElement ''DIV'' w;
                       w2 = w1\<lparr>videoState := Some \<lparr>video = v, originalParent = p,
                                      originalNextSibling = ns, placeholder = ph\<rparr>\<rparr>;
                       w3 = makePlaceholder ph v w2;
                       w4 = insertBefore p ph (Some v) w3;
                       w5 = w4\<lparr>originalStyles := (originalStyles w4)
                                  (v := Some (style w4 v ''width'', style w4 v ''height''))\<rparr>;
                       sz = SIZE_MAP (size_setting (currentSettings w5));
                       w6 = setStyle c ''width'' (px (width sz)) w5;
                       w7 = setStyle c ''height'' (px (height sz)) w6;
                       w8 = setStyle v ''width'' ''100%'' w7;
                       w9 = setStyle v ''height'' ''100%'' w8;
                       w10 = appendChild c v w9;
                       w11 = setStyle c ''display'' ''block'' w10
                   in w11\<lparr>isFloating := True\<rparr>))))"

definition restoreStyles :: "node \<Rightarrow> world \<Rightarrow> world" where
  "restoreStyles v w =
     (case originalStyles w v of
        None \<Rightarrow> w
      | Some (ow, oh) \<Rightarrow>
          (let w1 = setStyle v ''width'' ow w;
               w2 = setStyle v ''height'' oh w1
           in w2\<lparr>originalStyles := (originalStyles w2)(v := None)\<rparr>))"

definition resetContainer :: "node \<Rightarrow> world \<Rightarrow> world" where
  "resetContainer c w =
     (let w1 = setStyle c ''display'' ''none'' w;
          w2 = setStyle c ''left'' [] w1;
          w3 = setStyle c ''top'' [] w2;
          w4 = setStyle c ''right'' ''20px'' w3
      in setStyle c ''bottom'' ''20px'' w4)"

definition hideFloatingPlayer :: "world \<Rightarrow> world" where
  "hideFloatingPlayer w =
     (case floatingContainer w of
        None \<Rightarrow> w
      | Some c \<Rightarrow>
         if \<not> isFloating w then w
         else
          (case videoState w of
             None \<Rightarrow> w
           | Some vs \<Rightarrow>
              (let w1 = restoreStyles (video vs) w;
                   w2 = (case originalNextSibling vs of
                           None \<Rightarrow> appendChild (originalParent vs) (video vs) w1
                         | Some s \<Rightarrow>
                             if parent w1 s = Some (originalParent vs)
                             then insertBefore (originalParent vs) (video vs) (Some s) w1
                             else appendChild (originalParent vs) (video vs) w1);
                   w3 = (case parentElement w2 (placeholder vs) of
                           None \<Rightarrow> w2
                         | Some _ \<Rightarrow> removeFromParent (placeholder vs) w2);
                   w4 = resetContainer c w3
               in w4\<lparr>videoState := None, isFloating := False\<rparr>)))"

definition closeClick :: "world \<Rightarrow> world" where
  "closeClick w = (hideFloatingPlayer w)\<lparr>isManuallyHidden := True\<rparr>"

definition handleVideoPlay :: "node \<Rightarrow> world \<Rightarrow> world" where
  "handleVideoPlay v w =
     (if tagName w v = ''VIDEO'' then
        (let w1 = (if recentlyPlayedVideo w \<noteq> Some v then
                     (let w' = w\<lparr>isManuallyHidden := False\<rparr>
                      in if isFloating w' \<and>
                            (case videoState w' of None \<Rightarrow> False | Some vs \<Rightarrow> video vs \<noteq> v)
                         then hideFloatingPlayer w' else w')
                   else w);
             w2 = w1\<lparr>recentlyPlayedVideo := Some v\<rparr>
         in (case observer w2 of
               None \<Rightarrow> w2
             | Some _ \<Rightarrow>
                 (let targetToObserve =
                        (if isFloating w2
                         then (case videoState w2 of None \<Rightarrow> v | Some vs \<Rightarrow> placeholder vs)
                         else v)
                  in w2\<lparr>observer := Some [targetToObserve]\<rparr>)))
      else w)"

definition handleEntry :: "node \<times> bool \<Rightarrow> world \<Rightarrow> world" where
  "handleEntry entry w =
     (let isTargetValid =
            (if isFloating w
             then (case videoState w of None \<Rightarrow> False | Some vs \<Rightarrow> fst entry = placeholder vs)
             else recentlyPlayedVideo w = Some (fst entry))
      in if isTargetValid then
           (if \<not> snd entry \<and> \<not> isFloating w then
              (let w1 = showFloatingPlayer w
               in (case observer w1 of
                     None \<Rightarrow> w1
                   | Some _ \<Rightarrow>
                      (case videoState w1 of
                         None \<Rightarrow> w1
                       | Some vs \<Rightarrow> w1\<lparr>observer := Some [placeholder vs]\<rparr>)))
            else if snd entry \<and> isFloating w then
              (let w1 = (hideFloatingPlayer w)\<lparr>isManuallyHidden := False\<rparr>
               in (case observer w1 of
                     None \<Rightarrow> w1
                   | Some _ \<Rightarrow>
                      (case recentlyPlayedVideo w1 of
                         None \<Rightarrow> w1
                       | Some v \<Rightarrow> w1\<lparr>observer := Some [v]\<rparr>)))
            else w)
         else w)"

definition handleIntersection :: "(node \<times> bool) list \<Rightarrow> world \<Rightarrow> world" where
  "handleIntersection entries w = fold handleEntry entries w"

definition observe :: "node \<Rightarrow> world \<Rightarrow> world" where
  "observe t w =
     (case observer w of
        None \<Rightarrow> w
      | Some ts \<Rightarrow> w\<lparr>observer := Some (if t \<in> set ts then ts else ts @ [t])\<rparr>)"

definition trackPlaying :: "node \<Rightarrow> world \<Rightarrow> world" where
  "trackPlaying v w =
     (if \<not> paused w v then observe v (w\<lparr>recentlyPlayedVideo := Some v\<rparr>) else w)"

definition initFloatingPlayer :: "FloatingPlayerSettings \<Rightarrow> world \<Rightarrow> world" where
  "initFloatingPlayer settings w =
     (let w0 = w\<lparr>currentSettings := settings\<rparr>
      in if \<not> enabled settings then w0
         else
          (let w1 = (case floatingContainer w0 of
                       None \<Rightarrow>
                         (let (c, w') = createFloatingContainer w0
                          in appendChild (body w') c (w'\<lparr>floatingContainer := Some c\<rparr>))
                     | Some _ \<Rightarrow> w0);
               w2 = w1\<lparr>observer := Some []\<rparr>;
               w3 = w2\<lparr>playListener := True\<rparr>
           in fold trackPlaying (querySelectorAll w3 (document w3) (isVideo w3)) w3))"

definition updateFloatingPlayerSettings :: "FloatingPlayerSettings \<Rightarrow> world \<Rightarrow> world" where
  "updateFloatingPlayerSettings settings w =
     (let w0 = w\<lparr>currentSettings := settings\<rparr>;
          w1 = (if \<not> enabled settings \<and> floatingContainer w0 \<noteq> None
                then hideFloatingPlayer w0 else w0)
      in (case floatingContainer w1 of
            None \<Rightarrow> w1
          | Some c \<Rightarrow>
              if style w1 c ''display'' \<noteq> ''none'' then
                (let sz = SIZE_MAP (size_setting settings);
                     w2 = setStyle c ''width'' (px (width sz)) w1
                 in setStyle c ''height'' (px (height sz)) w2)
              else w1))"

definition destroyFloatingPlayer :: "world \<Rightarrow> world" where
  "destroyFloatingPlayer w =
     (let w1 = hideFloatingPlayer w;
          w2 = w1\<lparr>playListener := False\<rparr>;
          w3 = (case observer w2 of None \<Rightarrow> w2 | Some _ \<Rightarrow> w2\<lparr>observer := None\<rparr>);
          w4 = (case floatingContainer w3 of
                  None \<Rightarrow> w3
                | Some c \<Rightarrow> (removeFromParent c w3)\<lparr>floatingContainer := None\<rparr>)
      in w4\<lparr>recentlyPlayedVideo := None, isManuallyHidden := False,
             isFloating := False, videoState := None\<rparr>)"

definition getFloatingVideo :: "world \<Rightarrow> node option" where
  "getFloatingVideo w =
     (if isFloating w then (case videoState w of None \<Rightarrow> None | Some vs \<Rightarrow> Some (video vs))
      else None)"

definition returnFloatingVideo :: "bool \<Rightarrow> world \<Rightarrow> world" where
  "returnFloatingVideo pauseVideo w =
     (if isFloating w then
        (case videoState w of
           None \<Rightarrow> w
         | Some vs \<Rightarrow>
             hideFloatingPlayer
               (if pauseVideo then w\<lparr>paused := (paused w)(video vs := True)\<rparr> else w))
      else w)"

section \<open>Events\<close>

text \<open>
  The browser calls a handler only while its listener is attached: the capture listener
  for \<open>play\<close> on the document, the observer's callback, the close button and the drag
  handle of the container, the \<open>mousemove\<close> and \<open>mouseup\<close> listeners of an active drag.
  An event's target is an allocated node. The exported functions are called by the
  plugin's entry point at any time; layout and the viewport change under the engine.
\<close>

datatype event =
    Play node
  | Intersect "(node \<times> bool) list"
  | CloseClick
  | MouseDown MouseEvent
  | MouseMove MouseEvent
  | MouseUp
  | Init FloatingPlayerSettings
  | Update FloatingPlayerSettings
  | Destroy
  | ReturnFloating bool
  | Layout "node \<Rightarrow> int" "node \<Rightarrow> int" "node \<Rightarrow> Position" int int
  | Pause node

fun step :: "event \<Rightarrow> world \<Rightarrow> world" where
  "step (Play v) w = (if playListener w \<and> v < nextNode w then handleVideoPlay v w else w)"
| "step (Intersect entries) w = (if observer w \<noteq> None then handleIntersection entries w else w)"
| "step CloseClick w = (if floatingContainer w \<noteq> None then closeClick w else w)"
| "step (MouseDown e) w = (if floatingContainer w \<noteq> None then startDrag e w else w)"
| "step (MouseMove e) w = (if dragDoc w then onDrag e w else w)"
| "step MouseUp w = (if dragDoc w then stopDrag w else w)"
| "step (Init s) w = initFloatingPlayer s w"
| "step (Update s) w = updateFloatingPlayerSettings s w"
| "step Destroy w = destroyFloatingPlayer w"
| "step (ReturnFloating b) w = returnFloatingVideo b w"
| "step (Layout ow oh br iw ih) w =
     w\<lparr>offsetWidth := ow, offsetHeight := oh, boundingRect := br,
       innerWidth := iw, innerHeight := ih\<rparr>"
| "step (Pause v) w = w\<lparr>paused := (paused w)(v := True)\<rparr>"

definition run :: "event list \<Rightarrow> world \<Rightarrow> world" where
  "run es w = fold step es w"

section \<open>The video locator (the plugin's entry file)\<close>

text \<open>
  What lies outside the plugin. The host's block API: a block carries its \<open>uuid\<close> and,
  when present, \<open>left\<close> and \<open>parent\<close>, each either a direct identifier or an object with an
  \<open>id\<close>. \<open>getBlock\<close> answers with a block, with \<open>null\<close>, or throws; the host may answer a
  repeated question differently, so it is a function of the number of the call as well.
  The browser's selector engine: \<open>selectorQuery w s\<close> is what \<open>document.querySelector(s)\<close>
  does on the tree of \<open>w\<close>, a node, \<open>null\<close>, or a \<open>SyntaxError\<close>. The model asks it
  only for a selector text it does not read itself.
\<close>

datatype jsref = Num nat | Str string | Obj "nat option"

datatype error = HostError string | SyntaxError string

record BlockEntity =
  uuid :: string
  left :: "jsref option"
  parent_ref :: "jsref option"

record host =
  getBlock :: "nat \<Rightarrow> jsref \<Rightarrow> error + BlockEntity option"
  selectorQuery :: "world \<Rightarrow> string \<Rightarrow> error + node option"

text \<open>JavaScript truthiness of such a value, and \<open>(r as any).id || r\<close>.\<close>

definition truthy :: "jsref \<Rightarrow> bool" where
  "truthy r = (case r of Num n \<Rightarrow> n \<noteq> 0 | Str s \<Rightarrow> s \<noteq> [] | Obj _ \<Rightarrow> True)"

definition refId :: "jsref \<Rightarrow> jsref" where
  "refId r = (case r of Obj (Some n) \<Rightarrow> if n \<noteq> 0 then Num n else r | _ \<Rightarrow> r)"

text \<open>
  The container of a block (lines 148 and 149, again 159 and 160): the element with the
  id \<open>ls-block-<uuid>\<close> or else the first match of the selector \<open>div[blockid="<uuid>"]\<close>.
  The uuid is pasted into the selector text between double quotes. Without a double
  quote, a backslash, a line break or a NUL in it, the text is a \<open>div\<close> whose attribute
  \<open>blockid\<close> is the uuid. With one of them the text reads differently or is no selector,
  and the answer is the selector engine's.
\<close>

definition cssSpecial :: "char list" where
  "cssSpecial = [CHR 0x22, CHR 0x5C, CHR 0x0A, CHR 0x0C, CHR 0x0D, CHR 0x00]"

definition plainValue :: "string \<Rightarrow> bool" where
  "plainValue s = (filter (\<lambda>c. c \<in> set cssSpecial) s = [])"

definition getElementById :: "world \<Rightarrow> string \<Rightarrow> node option" where
  "getElementById w i = find (\<lambda>n. elemId w n = i) (subtree w (document w))"

definition blockContainer :: "host \<Rightarrow> world \<Rightarrow> string \<Rightarrow> error + node option" where
  "blockContainer h w blockUuid =
     (case getElementById w (''ls-block-'' @ blockUuid) of
        Some c \<Rightarrow> Inr (Some c)
      | None \<Rightarrow>
          if plainValue blockUuid
          then Inr (querySelector w (document w)
                      (\<lambda>n. tagName w n = ''DIV'' \<and> blockid w n = Some blockUuid))
          else selectorQuery h w (''div[blockid='' @ [CHR 0x22] @ blockUuid @ [CHR 0x22] @ '']''))"

definition findVideoInBlock :: "host \<Rightarrow> world \<Rightarrow> string \<Rightarrow> error + node option" where
  "findVideoInBlock h w blockUuid =
     (case blockContainer h w blockUuid of
        Inl e \<Rightarrow> Inl e
      | Inr None \<Rightarrow> Inr None
      | Inr (Some container) \<Rightarrow> Inr (querySelector w container (isVideo w)))"

definition hasPlaceholder :: "host \<Rightarrow> world \<Rightarrow> string \<Rightarrow> error + bool" where
  "hasPlaceholder h w blockUuid =
     (case blockContainer h w blockUuid of
        Inl e \<Rightarrow> Inl e
      | Inr None \<Rightarrow> Inr False
      | Inr (Some container) \<Rightarrow>
          Inr (querySelector w container (hasClass w ''mediatimestamp-video-placeholder'')
                 \<noteq> None))"

text \<open>
  Lines 169 to 173 and 174 to 178: the related block is looked up outside any \<open>try\<close>; the
  result is the uuid to add to \<open>blocksToCheck\<close> (if any) and the number of the next call.
\<close>

definition resolveRelated :: "host \<Rightarrow> nat \<Rightarrow> jsref option \<Rightarrow> error + (string list \<times> nat)" where
  "resolveRelated h n r =
     (case r of
        None \<Rightarrow> Inr ([], n)
      | Some l \<Rightarrow>
          if \<not> truthy l then Inr ([], n)
          else (case getBlock h n (refId l) of
                  Inl e \<Rightarrow> Inl e
                | Inr None \<Rightarrow> Inr ([], Suc n)
                | Inr (Some b) \<Rightarrow> Inr ([uuid b], Suc n)))"

text \<open>
  The loop of lines 183 to 188: the blocks are asked in order, the first one with a
  placeholder ends the loop, and so does an exception.
\<close>

fun anyHasPlaceholder :: "host \<Rightarrow> world \<Rightarrow> string list \<Rightarrow> error + bool" where
  "anyHasPlaceholder h w [] = Inr False"
| "anyHasPlaceholder h w (blockUuid # rest) =
     (case hasPlaceholder h w blockUuid of
        Inl e \<Rightarrow> Inl e
      | Inr found \<Rightarrow> if found then Inr True else anyHasPlaceholder h w rest)"

text \<open>
  Lines 200 to 211 and 214 to 225: the related block is looked up and searched inside
  \<open>try\<close>; an exception is logged and the candidate is skipped.
\<close>

definition searchRelated ::
  "host \<Rightarrow> nat \<Rightarrow> string \<Rightarrow> jsref option \<Rightarrow> world \<Rightarrow> node option \<times> nat \<times> world" where
  "searchRelated h n msg r w =
     (case r of
        None \<Rightarrow> (None, n, w)
      | Some l \<Rightarrow>
          if \<not> truthy l then (None, n, w)
          else (case getBlock h n (refId l) of
                  Inl e \<Rightarrow> (None, Suc n, w\<lparr>console := console w @ [msg]\<rparr>)
                | Inr None \<Rightarrow> (None, Suc n, w)
                | Inr (Some b) \<Rightarrow>
                    (case findVideoInBlock h w (uuid b) of
                       Inl e \<Rightarrow> (None, Suc n, w\<lparr>console := console w @ [msg]\<rparr>)
                     | Inr found \<Rightarrow> (found, Suc n, w))))"

text \<open>
  Lines 194 to 227: the search in the order current block, left sibling, parent. The
  search of the current block (line 196) is outside any \<open>try\<close>.
\<close>

definition domSearch :: "host \<Rightarrow> nat \<Rightarrow> BlockEntity \<Rightarrow> world \<Rightarrow> (error + node option) \<times> world" where
  "domSearch h n blk w =
     (case findVideoInBlock h w (uuid blk) of
        Inl e \<Rightarrow> (Inl e, w)
      | Inr (Some v) \<Rightarrow> (Inr (Some v), w)
      | Inr None \<Rightarrow>
          (let (lv, n3, w3) =
                 searchRelated h n ''[mediatimestamp] Error checking left sibling'' (left blk) w
           in (case lv of
                 Some v \<Rightarrow> (Inr (Some v), w3)
               | None \<Rightarrow>
                   (let (pv, n4, w4) =
                          searchRelated h n3 ''[mediatimestamp] Error checking parent block''
                            (parent_ref blk) w3
                    in (Inr pv, w4)))))"

text \<open>
  \<open>getVideoEl\<close> (lines 138 to 228). What the function awaits is taken in one step. A
  rejected promise is the result \<open>Inl\<close>.
\<close>

definition getVideoEl :: "host \<Rightarrow> string \<Rightarrow> world \<Rightarrow> (error + node option) \<times> world" where
  "getVideoEl h u w =
     (case getBlock h 0 (Str u) of
        Inl e \<Rightarrow> (Inl e, w)
      | Inr None \<Rightarrow>
          (Inr None, w\<lparr>console := console w @ [''[mediatimestamp] Current block not found'']\<rparr>)
      | Inr (Some blk) \<Rightarrow>
          (case resolveRelated h 1 (left blk) of
             Inl e \<Rightarrow> (Inl e, w)
           | Inr (ls, n1) \<Rightarrow>
               (case resolveRelated h n1 (parent_ref blk) of
                  Inl e \<Rightarrow> (Inl e, w)
                | Inr (ps, n2) \<Rightarrow>
                    (let blocksToCheck = uuid blk # ls @ ps
                     in (case getFloatingVideo w of
                           None \<Rightarrow> domSearch h n2 blk w
                         | Some floatingVideo \<Rightarrow>
                             (case anyHasPlaceholder h w blocksToCheck of
                                Inl e \<Rightarrow> (Inl e, w)
                              | Inr found \<Rightarrow>
                                  if found then (Inr (Some floatingVideo), w)
                                  else domSearch h n2 blk (returnFloatingVideo True w)))))))"

section \<open>Timestamps (the slash command and the macro renderer)\<close>

text \<open>
  \<open>parseInt\<close> with no radix: leading white space is skipped, a sign is read, \<open>0x\<close> selects
  radix 16, the longest run of digits is the value, and no digit at all is \<open>NaN\<close> (here
  \<open>None\<close>). Characters are bytes, so only the ASCII white space is known.
\<close>

definition isWhite :: "char \<Rightarrow> bool" where
  "isWhite c = (c \<in> set [CHR '' '', CHR 0x09, CHR 0x0A, CHR 0x0B, CHR 0x0C, CHR 0x0D])"

definition digitValue :: "char \<Rightarrow> nat option" where
  "digitValue c =
     map_of [(CHR ''0'', 0), (CHR ''1'', 1), (CHR ''2'', 2), (CHR ''3'', 3), (CHR ''4'', 4),
             (CHR ''5'', 5), (CHR ''6'', 6), (CHR ''7'', 7), (CHR ''8'', 8), (CHR ''9'', 9),
             (CHR ''a'', 10), (CHR ''b'', 11), (CHR ''c'', 12), (CHR ''d'', 13),
             (CHR ''e'', 14), (CHR ''f'', 15), (CHR ''A'', 10), (CHR ''B'', 11),
             (CHR ''C'', 12), (CHR ''D'', 13), (CHR ''E'', 14), (CHR ''F'', 15)] c"

definition isDigitOf :: "nat \<Rightarrow> char \<Rightarrow> bool" where
  "isDigitOf R c = (case digitValue c of None \<Rightarrow> False | Some d \<Rightarrow> d < R)"

definition digitsValue :: "nat \<Rightarrow> string \<Rightarrow> nat" where
  "digitsValue R z =
     foldl (\<lambda>a c. a * R + (case digitValue c of None \<Rightarrow> 0 | Some d \<Rightarrow> d)) 0 z"

definition parseInt :: "string \<Rightarrow> int option" where
  "parseInt s =
     (let s1 = dropWhile isWhite s;
          neg = (case s1 of [] \<Rightarrow> False | c # _ \<Rightarrow> c = CHR ''-'');
          s2 = (case s1 of [] \<Rightarrow> [] | c # cs \<Rightarrow> if c = CHR ''-'' \<or> c = CHR ''+'' then cs else s1);
          hex = (take 2 s2 = ''0x'' \<or> take 2 s2 = ''0X'');
          R = (if hex then 16 else 10);
          s3 = (if hex then drop 2 s2 else s2);
          z = takeWhile (isDigitOf R) s3
      in if z = [] then None
         else Some ((if neg then - 1 else 1) * int (digitsValue R z)))"

text \<open>\<open>${parseInt(time)}\<close> and \<open>parseInt(time) || 0\<close>.\<close>

definition showParsed :: "int option \<Rightarrow> string" where
  "showParsed r = (case r of None \<Rightarrow> ''NaN'' | Some i \<Rightarrow> show_int i)"

definition parsedOrZero :: "int option \<Rightarrow> int" where
  "parsedOrZero r = (case r of None \<Rightarrow> 0 | Some i \<Rightarrow> i)"

text \<open>\<open>${videoEl.currentTime}\<close>: the digits of the number.\<close>

definition numToString :: "jsnum \<Rightarrow> string" where
  "numToString t =
     (case t of Decimal ip fd \<Rightarrow>
        show_nat ip @ (if fd = [] then [] else CHR ''.'' # map digit_char fd))"

text \<open>
  The handler of the slash command (lines 231 to 248). The host's \<open>showMsg\<close> and
  \<open>insertAtEditingCursor\<close> are taken to return.
\<close>

definition insertTimestamp :: "host \<Rightarrow> string \<Rightarrow> world \<Rightarrow> world" where
  "insertTimestamp h u w =
     (case getVideoEl h u w of
        (Inl e, w1) \<Rightarrow>
          w1\<lparr>console := console w1 @ [''[mediatimestamp] Error in slash command''],
             uiMsgs := uiMsgs w1 @ [(''Error inserting timestamp. Check console.'', ''error'')]\<rparr>
      | (Inr None, w1) \<Rightarrow>
          w1\<lparr>uiMsgs := uiMsgs w1 @
                 [(''No video found in current, sibling or parent block'', ''warning'')]\<rparr>
      | (Inr (Some videoEl), w1) \<Rightarrow>
          w1\<lparr>editorText := editorText w1 @
                 [''{{renderer :mediatimestamp_'' @ u @ '', '' @
                    numToString (currentTime w1 videoEl) @ ''}}'']\<rparr>)"

fun splitOn :: "char \<Rightarrow> string \<Rightarrow> string list" where
  "splitOn c [] = [[]]"
| "splitOn c (a # as) =
     (if a = c then [] # splitOn c as
      else (case splitOn c as of [] \<Rightarrow> [[a]] | y # ys \<Rightarrow> (a # y) # ys))"

definition trim :: "string \<Rightarrow> string" where
  "trim s = rev (dropWhile isWhite (rev (dropWhile isWhite s)))"

text \<open>
  Modelled from the spec: the host's macro parser, which is no part of the plugin. A
  macro token \<open>{{renderer a, b}}\<close> in the note text reaches the render hook with the
  arguments \<open>a\<close> and \<open>b\<close> (section 6: the token has the form
  \<open>mediatimestamp_<blockId>, <seconds>\<close>, and the hook receives \<open>arguments\<close>): the text
  between \<open>{{renderer\<close> and \<open>}}\<close> is split at commas and each part is trimmed.
\<close>

definition macroArguments :: "string \<Rightarrow> string list option" where
  "macroArguments t =
     (if take 11 t = ''{{renderer '' \<and> 13 \<le> length t \<and> drop (length t - 2) t = ''}}''
      then Some (map trim (splitOn (CHR '','') (drop 11 (take (length t - 2) t))))
      else None)"

record Button =
  buttonId :: string
  buttonClass :: string
  dataOnClick :: string
  label :: string

text \<open>
  The render hook (lines 320 to 353): nothing for another macro; otherwise the click
  handler is registered under its name, and the button is provided when \<open>time\<close> is
  truthy. \<open>args\<close> are the macro's arguments; a missing one is \<open>undefined\<close>.
\<close>

definition startsWith :: "string \<Rightarrow> string \<Rightarrow> bool" where
  "startsWith s p = (take (length p) s = p)"

definition onMacroRendererSlotted ::
  "string \<Rightarrow> string \<Rightarrow> string list \<Rightarrow> (string \<times> Button option) option" where
  "onMacroRendererSlotted slot u args =
     (case args of
        [] \<Rightarrow> None
      | type # rest \<Rightarrow>
          if type = [] \<or> \<not> startsWith type '':mediatimestamp_'' then None
          else
            (let ident = ''mediatimestamp_'' @ u @ ''_'' @ slot;
                 clickHandlerId = ''mediaclick_'' @ u @ ''_'' @ slot
             in Some (clickHandlerId,
                  (case rest of
                     [] \<Rightarrow> None
                   | time # _ \<Rightarrow>
                       if time = [] then None
                       else Some \<lparr>buttonId = ident,
                                   buttonClass = ''logseq-mediatimestamp-plugin'',
                                   dataOnClick = clickHandlerId,
                                   label = ''Timestamp: '' @ showParsed (parseInt time) @ ''s''\<rparr>))))"

text \<open>
  The click handler (lines 330 to 341), for the \<open>time\<close> argument of the macro. Assigning
  \<open>currentTime\<close> seeks; a negative position is the start. \<open>play()\<close> ends the pause; the
  \<open>play\<close> event comes to the engine as an event of its own. An exception of \<open>getVideoEl\<close>
  is not caught here.
\<close>

definition clickTimestamp :: "host \<Rightarrow> string \<Rightarrow> string option \<Rightarrow> world \<Rightarrow> world" where
  "clickTimestamp h u time w =
     (case getVideoEl h u w of
        (Inl e, w1) \<Rightarrow> w1
      | (Inr None, w1) \<Rightarrow>
          w1\<lparr>uiMsgs := uiMsgs w1 @ [(''Unable to get obtain video element'', ''error'')]\<rparr>
      | (Inr (Some videoEl), w1) \<Rightarrow>
          (case time of
             None \<Rightarrow>
               w1\<lparr>uiMsgs := uiMsgs w1 @ [(''Unable to get obtain video element'', ''error'')]\<rparr>
           | Some t \<Rightarrow>
               if t = [] then
                 w1\<lparr>uiMsgs := uiMsgs w1 @ [(''Unable to get obtain video element'', ''error'')]\<rparr>
               else
                 w1\<lparr>currentTime := (currentTime w1)
                        (videoEl := Decimal (nat (parsedOrZero (parseInt t))) []),
                    paused := (paused w1)(videoEl := False)\<rparr>))"

section \<open>Predicates on engine states\<close>

definition moduleLoaded :: "world \<Rightarrow> bool" where
  "moduleLoaded w \<longleftrightarrow>
     recentlyPlayedVideo w = None \<and> floatingContainer w = None \<and> observer w = None \<and>
     \<not> isManuallyHidden w \<and> \<not> isDragging w \<and> dragOffset w = \<lparr>pos_x = 0, pos_y = 0\<rparr> \<and>
     currentSettings w = \<lparr>enabled = True, size_setting = medium\<rparr> \<and>
     videoState w = None \<and> \<not> isFloating w \<and> \<not> dragDoc w \<and> \<not> playListener w"

definition noContainer :: "world \<Rightarrow> bool" where
  "noContainer w \<longleftrightarrow> floatingContainer w = None \<and> \<not> isFloating w"

definition enablingInit :: "event \<Rightarrow> bool" where
  "enablingInit e = (case e of Init s \<Rightarrow> enabled s | _ \<Rightarrow> False)"

text \<open>A child list with one node standing in for another.\<close>

definition swapNode :: "node \<Rightarrow> node \<Rightarrow> node list \<Rightarrow> node list" where
  "swapNode a b xs = map (\<lambda>n. if n = a then b else n) xs"

text \<open>
  The DOM keeps the child lists and the parent pointers consistent, lists no node twice,
  and has nothing at the addresses that are not allocated yet.
\<close>

definition wfdom :: "world \<Rightarrow> bool" where
  "wfdom w \<longleftrightarrow>
     (\<forall>c p. (parent w c = Some p) = (c \<in> set (kids w p))) \<and>
     (\<forall>p. distinct (kids w p)) \<and>
     (\<forall>n. nextNode w \<le> n \<longrightarrow> parent w n = None \<and> kids w n = [])"

text \<open>
  The guard of \<open>showFloatingPlayer\<close> (lines 152 to 159): video \<open>v\<close> is tracked, the container
  \<open>c\<close> exists, the feature is on, the player is neither hidden by hand nor floating, and
  the video has the parent element \<open>p\<close>.
\<close>

definition canFloat :: "world \<Rightarrow> node \<Rightarrow> node \<Rightarrow> node \<Rightarrow> bool" where
  "canFloat w v c p \<longleftrightarrow>
     recentlyPlayedVideo w = Some v \<and> floatingContainer w = Some c \<and>
     enabled (currentSettings w) \<and> \<not> isManuallyHidden w \<and> \<not> isFloating w \<and>
     parentElement w v = Some p"

definition placeholderClass :: string where
  "placeholderClass = ''mediatimestamp-video-placeholder''"

text \<open>
  The FLOATING state as \<open>showFloatingPlayer\<close> leaves it: video \<open>video vs\<close> is a child of the
  container \<open>c\<close>, and its placeholder stands in the original parent, in front of the
  recorded next sibling.
\<close>

definition floatingAt :: "world \<Rightarrow> VideoState \<Rightarrow> node \<Rightarrow> bool" where
  "floatingAt w vs c \<longleftrightarrow>
     isFloating w \<and> videoState w = Some vs \<and> floatingContainer w = Some c \<and>
     parent w (video vs) = Some c \<and> originalParent vs \<noteq> c \<and>
     parentElement w (placeholder vs) = Some (originalParent vs) \<and>
     after (placeholder vs) (kids w (originalParent vs)) = originalNextSibling vs"

text \<open>Two worlds that differ in the tree only (something else has edited the DOM).\<close>

definition domEdit :: "world \<Rightarrow> world \<Rightarrow> bool" where
  "domEdit w w' \<longleftrightarrow> w' = w\<lparr>kids := kids w', parent := parent w'\<rparr>"



text \<open>Node \<open>n\<close> lies in the subtree of the container of block \<open>b\<close>.\<close>

definition inBlock :: "host \<Rightarrow> world \<Rightarrow> string \<Rightarrow> node \<Rightarrow> bool" where
  "inBlock h w b n =
     (case blockContainer h w b of
        Inr (Some c) \<Rightarrow> n \<in> set (subtree w c)
      | _ \<Rightarrow> False)"

text \<open>
  The engine's invariant. The tracked video is an allocated \<open>video\<close> element. The container
  is allocated, is no placeholder, and its \<open>video\<close> children are the floating video, if any.
  While FLOATING the state is as \<open>showFloatingPlayer\<close> leaves it and the placeholder of the
  floating video is the only attached element of the placeholder class; while DOCKED
  there is no \<open>FloatingState\<close> and no attached element of that class.
\<close>

definition floatingVideos :: "world \<Rightarrow> node list" where
  "floatingVideos w =
     (case floatingContainer w of None \<Rightarrow> [] | Some c \<Rightarrow> filter (isVideo w) (kids w c))"

definition trackedOk :: "world \<Rightarrow> bool" where
  "trackedOk w \<longleftrightarrow>
     (\<forall>v. recentlyPlayedVideo w = Some v \<longrightarrow> v < nextNode w \<and> tagName w v = ''VIDEO'')"

definition containerOk :: "world \<Rightarrow> bool" where
  "containerOk w \<longleftrightarrow>
     body w < nextNode w \<and>
     (\<forall>c. floatingContainer w = Some c \<longrightarrow>
        c < nextNode w \<and> \<not> hasClass w placeholderClass c \<and>
        filter (isVideo w) (kids w c) =
          (if isFloating w then (case videoState w of None \<Rightarrow> [] | Some vs \<Rightarrow> [video vs])
           else []))"

definition placeholderOk :: "world \<Rightarrow> bool" where
  "placeholderOk w \<longleftrightarrow>
     (if isFloating w
      then (\<exists>vs c. floatingAt w vs c \<and> hasClass w placeholderClass (placeholder vs) \<and>
              (\<forall>n. hasClass w placeholderClass n \<and> parent w n \<noteq> None \<longrightarrow> n = placeholder vs))
      else videoState w = None \<and> (\<forall>n. hasClass w placeholderClass n \<longrightarrow> parent w n = None))"

definition engineInv :: "world \<Rightarrow> bool" where
  "engineInv w \<longleftrightarrow> wfdom w \<and> trackedOk w \<and> containerOk w \<and> placeholderOk w"

text \<open>
  In \<open>w'\<close> the placeholder of \<open>vs\<close> has the width and height that the video had in \<open>w\<close>;
  and: in \<open>w'\<close> it has the size it has in \<open>w\<close>.
\<close>

definition sizedAt :: "world \<Rightarrow> world \<Rightarrow> VideoState \<Rightarrow> bool" where
  "sizedAt w w' vs \<longleftrightarrow>
     style w' (placeholder vs) ''width'' = px (offsetWidth w (video vs)) \<and>
     style w' (placeholder vs) ''height'' = px (offsetHeight w (video vs))"

definition sameSize :: "world \<Rightarrow> world \<Rightarrow> VideoState \<Rightarrow> bool" where
  "sameSize w w' vs \<longleftrightarrow>
     style w' (placeholder vs) ''width'' = style w (placeholder vs) ''width'' \<and>
     style w' (placeholder vs) ''height'' = style w (placeholder vs) ''height''"

text \<open>
  From \<open>w\<close> to \<open>w'\<close>: a video that floats in \<open>w'\<close> either floated in \<open>w\<close> already, with the
  same placeholder of the same size, or its placeholder was made on the way, with the
  size the video had in \<open>w\<close>.
\<close>

definition heldOrMade :: "world \<Rightarrow> world \<Rightarrow> bool" where
  "heldOrMade w w' \<longleftrightarrow>
     (\<forall>vs. isFloating w' \<and> videoState w' = Some vs \<longrightarrow>
        (isFloating w \<and> videoState w = Some vs \<and> sameSize w w' vs) \<or>
        (nextNode w \<le> placeholder vs \<and> sizedAt w w' vs))"

definition keeps :: "world \<Rightarrow> world \<Rightarrow> bool" where
  "keeps w w' \<longleftrightarrow>
     nextNode w \<le> nextNode w' \<and> offsetWidth w' = offsetWidth w \<and>
     offsetHeight w' = offsetHeight w \<and> heldOrMade w w'"

text \<open>The engine is FLOATING with the \<open>FloatingState\<close> \<open>vs\<close>.\<close>

definition floatsWith :: "world \<Rightarrow> VideoState \<Rightarrow> bool" where
  "floatsWith w vs \<longleftrightarrow> isFloating w \<and> videoState w = Some vs"

section \<open>Example pages\<close>

text \<open>
  A page with three blocks, each holding a video: the document (0), html (1), body (2),
  the block \<open>cur\<close> (3) with a video (4) and a paragraph (5), its left sibling block \<open>left\<close>
  (6) with a video (7), and the parent block \<open>par\<close> (8) with a video (9). The module's
  variables have the values of lines 38 to 46 and 80.
\<close>

definition demoPage :: world where
  "demoPage =
     \<lparr>kids = (\<lambda>_. [])(0 := [1], 1 := [2], 2 := [3, 6, 8], 3 := [4, 5], 6 := [7], 8 := [9]),
      parent = (\<lambda>_. None)(1 := Some 0, 2 := Some 1, 3 := Some 2, 6 := Some 2, 8 := Some 2,
                 4 := Some 3, 5 := Some 3, 7 := Some 6, 9 := Some 8),
      tagName = (\<lambda>_. ''DIV'')(0 := ''#document'', 1 := ''HTML'', 2 := ''BODY'',
                 4 := ''VIDEO'', 5 := ''P'', 7 := ''VIDEO'', 9 := ''VIDEO''),
      classList = (\<lambda>_. []),
      elemId = (\<lambda>_. [])(3 := ''ls-block-cur'', 6 := ''ls-block-left'', 8 := ''ls-block-par''),
      blockid = (\<lambda>_. None),
      style = (\<lambda>_ _. []),
      originalStyles = (\<lambda>_. None),
      nextNode = 10,
      document = 0,
      body = 2,
      offsetWidth = (\<lambda>_. 640),
      offsetHeight = (\<lambda>_. 360),
      boundingRect = (\<lambda>_. \<lparr>pos_x = 0, pos_y = 0\<rparr>),
      innerWidth = 1280,
      innerHeight = 800,
      paused = (\<lambda>_. True),
      currentTime = (\<lambda>_. Decimal 0 []),
      recentlyPlayedVideo = None,
      floatingContainer = None,
      observer = None,
      isManuallyHidden = False,
      isDragging = False,
      dragOffset = \<lparr>pos_x = 0, pos_y = 0\<rparr>,
      currentSettings = \<lparr>enabled = True, size_setting = medium\<rparr>,
      videoState = None,
      isFloating = False,
      dragDoc = False,
      playListener = False,
      console = [],
      uiMsgs = [],
      editorText = []\<rparr>"

text \<open>
  The same page once the engine is initialised and video 4 is playing: the container (10)
  with its drag handle (11) and close button (12) is the last child of the body.
\<close>

definition demoDocked :: world where
  "demoDocked =
     demoPage
       \<lparr>kids := (kids demoPage)(2 := [3, 6, 8, 10], 10 := [11, 12]),
        parent := (parent demoPage)(10 := Some 2, 11 := Some 10, 12 := Some 10),
        tagName := (tagName demoPage)(12 := ''BUTTON''),
        classList := (classList demoPage)
           (10 := [''mediatimestamp-floating-player''], 11 := [''drag-handle''],
            12 := [''close-btn'']),
        style := (style demoPage)(10 := (\<lambda>_. [])(''display'' := ''none'')),
        nextNode := 13,
        paused := (paused demoPage)(4 := False),
        recentlyPlayedVideo := Some 4,
        floatingContainer := Some 10,
        observer := Some [4],
        playListener := True\<rparr>"

text \<open>Video 4 floats: its placeholder (13) stands in block \<open>cur\<close>.\<close>

definition demoFloating :: world where
  "demoFloating =
     demoDocked
       \<lparr>kids := (kids demoDocked)(3 := [13, 5], 10 := [11, 12, 4]),
        parent := (parent demoDocked)(4 := Some 10, 13 := Some 3),
        classList := (classList demoDocked)(13 := [''mediatimestamp-video-placeholder'']),
        style := (style demoDocked)
           (13 := (\<lambda>_. [])(''width'' := ''640px'', ''height'' := ''360px'', ''display'' := ''flex''),
            10 := (\<lambda>_. [])(''display'' := ''block'', ''width'' := ''320px'', ''height'' := ''180px''),
            4 := (\<lambda>_. [])(''width'' := ''100%'', ''height'' := ''100%'')),
        originalStyles := (originalStyles demoDocked)(4 := Some ([], [])),
        nextNode := 14,
        observer := Some [13],
        videoState := Some \<lparr>video = 4, originalParent = 3,
                              originalNextSibling = Some 5, placeholder = 13\<rparr>,
        isFloating := True\<rparr>"

text \<open>A drag of the floating container is under way, in a wide and in a narrow window.\<close>

definition demoDragging :: world where
  "demoDragging =
     demoFloating\<lparr>isDragging := True, dragDoc := True, dragOffset := \<lparr>pos_x = 5, pos_y = 5\<rparr>\<rparr>"

definition demoNarrow :: world where
  "demoNarrow = demoDragging\<lparr>innerWidth := 300, innerHeight := 200\<rparr>"

definition settingsOff :: FloatingPlayerSettings where
  "settingsOff = \<lparr>enabled = False, size_setting = medium\<rparr>"

definition settingsOn :: FloatingPlayerSettings where
  "settingsOn = \<lparr>enabled = True, size_setting = medium\<rparr>"

definition demoVideoState :: VideoState where
  "demoVideoState =
     \<lparr>video = 4, originalParent = 3, originalNextSibling = Some 5, placeholder = 13\<rparr>"

text \<open>
  A host for the example page: block \<open>cur\<close> has the left sibling 6 and the parent 8; the
  selector engine refuses every text it is asked. The second host throws on the first
  lookup of the left sibling (line 171), the third on the first lookup of the parent
  (line 176).
\<close>

definition demoHost :: host where
  "demoHost =
     \<lparr>getBlock = (\<lambda>n r.
        if r = Str ''cur''
        then Inr (Some \<lparr>uuid = ''cur'', left = Some (Obj (Some 6)), parent_ref = Some (Obj (Some 8))\<rparr>)
        else if r = Num 6 \<or> r = Str ''left'' then Inr (Some \<lparr>uuid = ''left'', left = None, parent_ref = Some (Obj (Some 8))\<rparr>)
        else if r = Num 8 \<or> r = Str ''par'' then Inr (Some \<lparr>uuid = ''par'', left = None, parent_ref = None\<rparr>)
        else Inr None),
      selectorQuery = (\<lambda>w s. Inl (SyntaxError s))\<rparr>"

definition demoHostThrows :: host where
  "demoHostThrows =
     demoHost\<lparr>getBlock := (\<lambda>n r. if n = 1 then Inl (HostError ''getBlock failed'')
                                  else getBlock demoHost n r)\<rparr>"

definition demoHostParentThrows :: host where
  "demoHostParentThrows =
     demoHost\<lparr>getBlock := (\<lambda>n r. if n = 2 then Inl (HostError ''getBlock failed'')
                                  else getBlock demoHost n r)\<rparr>"

text \<open>
  A host whose blocks have the uuid \<open>a"\<close>, with a double quote, and no related blocks.
\<close>

definition demoHostQuoted :: host where
  "demoHostQuoted =
     demoHost\<lparr>getBlock := (\<lambda>n r. Inr (Some \<lparr>uuid = [CHR ''a'', CHR 0x22], left = None,
                                                parent_ref = None\<rparr>))\<rparr>"

text \<open>Video 4 plays at 125.7 seconds.\<close>

definition demoPlaying :: world where
  "demoPlaying = demoDocked\<lparr>currentTime := (currentTime demoDocked)(4 := Decimal 125 [7])\<rparr>"

section \<open>Field lemmas\<close>

lemma setStyle_fields [simp]:
  "kids (setStyle n k v w) = kids w"
  "parent (setStyle n k v w) = parent w"
  "tagName (setStyle n k v w) = tagName w"
  "classList (setStyle n k v w) = classList w"
  "elemId (setStyle n k v w) = elemId w"
  "blockid (setStyle n k v w) = blockid w"
  "originalStyles (setStyle n k v w) = originalStyles w"
  "nextNode (setStyle n k v w) = nextNode w"
  "document (setStyle n k v w) = document w"
  "body (setStyle n k v w) = body w"
  "offsetWidth (setStyle n k v w) = offsetWidth w"
  "offsetHeight (setStyle n k v w) = offsetHeight w"
  "boundingRect (setStyle n k v w) = boundingRect w"
  "innerWidth (setStyle n k v w) = innerWidth w"
  "innerHeight (setStyle n k v w) = innerHeight w"
  "paused (setStyle n k v w) = paused w"
  "currentTime (setStyle n k v w) = currentTime w"
  "recentlyPlayedVideo (setStyle n k v w) = recentlyPlayedVideo w"
  "floatingContainer (setStyle n k v w) = floatingContainer w"
  "observer (setStyle n k v w) = observer w"
  "isManuallyHidden (setStyle n k v w) = isManuallyHidden w"
  "isDragging (setStyle n k v w) = isDragging w"
  "dragOffset (setStyle n k v w) = dragOffset w"
  "currentSettings (setStyle n k v w) = currentSettings w"
  "videoState (setStyle n k v w) = videoState w"
  "isFloating (setStyle n k v w) = isFloating w"
  "dragDoc (setStyle n k v w) = dragDoc w"
  "playListener (setStyle n k v w) = playListener w"
  "console (setStyle n k v w) = console w"
  "uiMsgs (setStyle n k v w) = uiMsgs w"
  "editorText (setStyle n k v w) = editorText w"
  by (simp_all add: setStyle_def)

lemma setClassName_fields [simp]:
  "kids (setClassName n c w) = kids w"
  "parent (setClassName n c w) = parent w"
  "tagName (setClassName n c w) = tagName w"
  "elemId (setClassName n c w) = elemId w"
  "blockid (setClassName n c w) = blockid w"
  "style (setClassName n c w) = style w"
  "originalStyles (setClassName n c w) = originalStyles w"
  "nextNode (setClassName n c w) = nextNode w"
  "document (setClassName n c w) = document w"
  "body (setClassName n c w) = body w"
  "offsetWidth (setClassName n c w) = offsetWidth w"
  "offsetHeight (setClassName n c w) = offsetHeight w"
  "boundingRect (setClassName n c w) = boundingRect w"
  "innerWidth (setClassName n c w) = innerWidth w"
  "innerHeight (setClassName n c w) = innerHeight w"
  "paused (setClassName n c w) = paused w"
  "currentTime (setClassName n c w) = currentTime w"
  "recentlyPlayedVideo (setClassName n c w) = recentlyPlayedVideo w"
  "floatingContainer (setClassName n c w) = floatingContainer w"
  "observer (setClassName n c w) = observer w"
  "isManuallyHidden (setClassName n c w) = isManuallyHidden w"
  "isDragging (setClassName n c w) = isDragging w"
  "dragOffset (setClassName n c w) = dragOffset w"
  "currentSettings (setClassName n c w) = currentSettings w"
  "videoState (setClassName n c w) = videoState w"
  "isFloating (setClassName n c w) = isFloating w"
  "dragDoc (setClassName n c w) = dragDoc w"
  "playListener (setClassName n c w) = playListener w"
  "console (setClassName n c w) = console w"
  "uiMsgs (setClassName n c w) = uiMsgs w"
  "editorText (setClassName n c w) = editorText w"
  by (simp_all add: setClassName_def)

lemma removeFromParent_fields [simp]:
  "tagName (removeFromParent n w) = tagName w"
  "classList (removeFromParent n w) = classList w"
  "elemId (removeFromParent n w) = elemId w"
  "blockid (removeFromParent n w) = blockid w"
  "style (removeFromParent n w) = style w"
  "originalStyles (removeFromParent n w) = originalStyles w"
  "nextNode (removeFromParent n w) = nextNode w"
  "document (removeFromParent n w) = document w"
  "body (removeFromParent n w) = body w"
  "offsetWidth (removeFromParent n w) = offsetWidth w"
  "offsetHeight (removeFromParent n w) = offsetHeight w"
  "boundingRect (removeFromParent n w) = boundingRect w"
  "innerWidth (removeFromParent n w) = innerWidth w"
  "innerHeight (removeFromParent n w) = innerHeight w"
  "paused (removeFromParent n w) = paused w"
  "currentTime (removeFromParent n w) = currentTime w"
  "recentlyPlayedVideo (removeFromParent n w) = recentlyPlayedVideo w"
  "floatingContainer (removeFromParent n w) = floatingContainer w"
  "observer (removeFromParent n w) = observer w"
  "isManuallyHidden (removeFromParent n w) = isManuallyHidden w"
  "isDragging (removeFromParent n w) = isDragging w"
  "dragOffset (removeFromParent n w) = dragOffset w"
  "currentSettings (removeFromParent n w) = currentSettings w"
  "videoState (removeFromParent n w) = videoState w"
  "isFloating (removeFromParent n w) = isFloating w"
  "dragDoc (removeFromParent n w) = dragDoc w"
  "playListener (removeFromParent n w) = playListener w"
  "console (removeFromParent n w) = console w"
  "uiMsgs (removeFromParent n w) = uiMsgs w"
  "editorText (removeFromParent n w) = editorText w"
  by (simp_all add: removeFromParent_def split: option.splits)

lemma insertBefore_fields [simp]:
  "tagName (insertBefore p n r w) = tagName w"
  "classList (insertBefore p n r w) = classList w"
  "elemId (insertBefore p n r w) = elemId w"
  "blockid (insertBefore p n r w) = blockid w"
  "style (insertBefore p n r w) = style w"
  "originalStyles (insertBefore p n r w) = originalStyles w"
  "nextNode (insertBefore p n r w) = nextNode w"
  "document (insertBefore p n r w) = document w"
  "body (insertBefore p n r w) = body w"
  "offsetWidth (insertBefore p n r w) = offsetWidth w"
  "offsetHeight (insertBefore p n r w) = offsetHeight w"
  "boundingRect (insertBefore p n r w) = boundingRect w"
  "innerWidth (insertBefore p n r w) = innerWidth w"
  "innerHeight (insertBefore p n r w) = innerHeight w"
  "paused (insertBefore p n r w) = paused w"
  "currentTime (insertBefore p n r w) = currentTime w"
  "recentlyPlayedVideo (insertBefore p n r w) = recentlyPlayedVideo w"
  "floatingContainer (insertBefore p n r w) = floatingContainer w"
  "observer (insertBefore p n r w) = observer w"
  "isManuallyHidden (insertBefore p n r w) = isManuallyHidden w"
  "isDragging (insertBefore p n r w) = isDragging w"
  "dragOffset (insertBefore p n r w) = dragOffset w"
  "currentSettings (insertBefore p n r w) = currentSettings w"
  "videoState (insertBefore p n r w) = videoState w"
  "isFloating (insertBefore p n r w) = isFloating w"
  "dragDoc (insertBefore p n r w) = dragDoc w"
  "playListener (insertBefore p n r w) = playListener w"
  "console (insertBefore p n r w) = console w"
  "uiMsgs (insertBefore p n r w) = uiMsgs w"
  "editorText (insertBefore p n r w) = editorText w"
  by (simp_all add: insertBefore_def removeFromParent_def Let_def split: option.splits)

lemma appendChild_fields [simp]:
  "tagName (appendChild p n w) = tagName w"
  "classList (appendChild p n w) = classList w"
  "elemId (appendChild p n w) = elemId w"
  "blockid (appendChild p n w) = blockid w"
  "style (appendChild p n w) = style w"
  "originalStyles (appendChild p n w) = originalStyles w"
  "nextNode (appendChild p n w) = nextNode w"
  "document (appendChild p n w) = document w"
  "body (appendChild p n w) = body w"
  "offsetWidth (appendChild p n w) = offsetWidth w"
  "offsetHeight (appendChild p n w) = offsetHeight w"
  "boundingRect (appendChild p n w) = boundingRect w"
  "innerWidth (appendChild p n w) = innerWidth w"
  "innerHeight (appendChild p n w) = innerHeight w"
  "paused (appendChild p n w) = paused w"
  "currentTime (appendChild p n w) = currentTime w"
  "recentlyPlayedVideo (appendChild p n w) = recentlyPlayedVideo w"
  "floatingContainer (appendChild p n w) = floatingContainer w"
  "observer (appendChild p n w) = observer w"
  "isManuallyHidden (appendChild p n w) = isManuallyHidden w"
  "isDragging (appendChild p n w) = isDragging w"
  "dragOffset (appendChild p n w) = dragOffset w"
  "currentSettings (appendChild p n w) = currentSettings w"
  "videoState (appendChild p n w) = videoState w"
  "isFloating (appendChild p n w) = isFloating w"
  "dragDoc (appendChild p n w) = dragDoc w"
  "playListener (appendChild p n w) = playListener w"
  "console (appendChild p n w) = console w"
  "uiMsgs (appendChild p n w) = uiMsgs w"
  "editorText (appendChild p n w) = editorText w"
  by (simp_all add: appendChild_def insertBefore_def removeFromParent_def Let_def split: option.splits)

lemma createElement_fields [simp]:
  "document (snd (createElement t w)) = document w"
  "body (snd (createElement t w)) = body w"
  "offsetWidth (snd (createElement t w)) = offsetWidth w"
  "offsetHeight (snd (createElement t w)) = offsetHeight w"
  "boundingRect (snd (createElement t w)) = boundingRect w"
  "innerWidth (snd (createElement t w)) = innerWidth w"
  "innerHeight (snd (createElement t w)) = innerHeight w"
  "paused (snd (createElement t w)) = paused w"
  "currentTime (snd (createElement t w)) = currentTime w"
  "recentlyPlayedVideo (snd (createElement t w)) = recentlyPlayedVideo w"
  "floatingContainer (snd (createElement t w)) = floatingContainer w"
  "observer (snd (createElement t w)) = observer w"
  "isManuallyHidden (snd (createElement t w)) = isManuallyHidden w"
  "isDragging (snd (createElement t w)) = isDragging w"
  "dragOffset (snd (createElement t w)) = dragOffset w"
  "currentSettings (snd (createElement t w)) = currentSettings w"
  "videoState (snd (createElement t w)) = videoState w"
  "isFloating (snd (createElement t w)) = isFloating w"
  "dragDoc (snd (createElement t w)) = dragDoc w"
  "playListener (snd (createElement t w)) = playListener w"
  "console (snd (createElement t w)) = console w"
  "uiMsgs (snd (createElement t w)) = uiMsgs w"
  "editorText (snd (createElement t w)) = editorText w"
  by (simp_all add: createElement_def Let_def)

lemma makePlaceholder_fields [simp]:
  "kids (makePlaceholder ph v w) = kids w"
  "parent (makePlaceholder ph v w) = parent w"
  "tagName (makePlaceholder ph v w) = tagName w"
  "elemId (makePlaceholder ph v w) = elemId w"
  "blockid (makePlaceholder ph v w) = blockid w"
  "originalStyles (makePlaceholder ph v w) = originalStyles w"
  "nextNode (makePlaceholder ph v w) = nextNode w"
  "document (makePlaceholder ph v w) = document w"
  "body (makePlaceholder ph v w) = body w"
  "offsetWidth (makePlaceholder ph v w) = offsetWidth w"
  "offsetHeight (makePlaceholder ph v w) = offsetHeight w"
  "boundingRect (makePlaceholder ph v w) = boundingRect w"
  "innerWidth (makePlaceholder ph v w) = innerWidth w"
  "innerHeight (makePlaceholder ph v w) = innerHeight w"
  "paused (makePlaceholder ph v w) = paused w"
  "currentTime (makePlaceholder ph v w) = currentTime w"
  "recentlyPlayedVideo (makePlaceholder ph v w) = recentlyPlayedVideo w"
  "floatingContainer (makePlaceholder ph v w) = floatingContainer w"
  "observer (makePlaceholder ph v w) = observer w"
  "isManuallyHidden (makePlaceholder ph v w) = isManuallyHidden w"
  "isDragging (makePlaceholder ph v w) = isDragging w"
  "dragOffset (makePlaceholder ph v w) = dragOffset w"
  "currentSettings (makePlaceholder ph v w) = currentSettings w"
  "videoState (makePlaceholder ph v w) = videoState w"
  "isFloating (makePlaceholder ph v w) = isFloating w"
  "dragDoc (makePlaceholder ph v w) = dragDoc w"
  "playListener (makePlaceholder ph v w) = playListener w"
  "console (makePlaceholder ph v w) = console w"
  "uiMsgs (makePlaceholder ph v w) = uiMsgs w"
  "editorText (makePlaceholder ph v w) = editorText w"
  by (simp_all add: makePlaceholder_def Let_def)

lemma restoreStyles_fields [simp]:
  "kids (restoreStyles v w) = kids w"
  "parent (restoreStyles v w) = parent w"
  "tagName (restoreStyles v w) = tagName w"
  "classList (restoreStyles v w) = classList w"
  "elemId (restoreStyles v w) = elemId w"
  "blockid (restoreStyles v w) = blockid w"
  "nextNode (restoreStyles v w) = nextNode w"
  "document (restoreStyles v w) = document w"
  "body (restoreStyles v w) = body w"
  "offsetWidth (restoreStyles v w) = offsetWidth w"
  "offsetHeight (restoreStyles v w) = offsetHeight w"
  "boundingRect (restoreStyles v w) = boundingRect w"
  "innerWidth (restoreStyles v w) = innerWidth w"
  "innerHeight (restoreStyles v w) = innerHeight w"
  "paused (restoreStyles v w) = paused w"
  "currentTime (restoreStyles v w) = currentTime w"
  "recentlyPlayedVideo (restoreStyles v w) = recentlyPlayedVideo w"
  "floatingContainer (restoreStyles v w) = floatingContainer w"
  "observer (restoreStyles v w) = observer w"
  "isManuallyHidden (restoreStyles v w) = isManuallyHidden w"
  "isDragging (restoreStyles v w) = isDragging w"
  "dragOffset (restoreStyles v w) = dragOffset w"
  "currentSettings (restoreStyles v w) = currentSettings w"
  "videoState (restoreStyles v w) = videoState w"
  "isFloating (restoreStyles v w) = isFloating w"
  "dragDoc (restoreStyles v w) = dragDoc w"
  "playListener (restoreStyles v w) = playListener w"
  "console (restoreStyles v w) = console w"
  "uiMsgs (restoreStyles v w) = uiMsgs w"
  "editorText (restoreStyles v w) = editorText w"
  by (simp_all add: restoreStyles_def Let_def split: option.splits prod.splits)

lemma resetContainer_fields [simp]:
  "kids (resetContainer c w) = kids w"
  "parent (resetContainer c w) = parent w"
  "tagName (resetContainer c w) = tagName w"
  "classList (resetContainer c w) = classList w"
  "elemId (resetContainer c w) = elemId w"
  "blockid (resetContainer c w) = blockid w"
  "originalStyles (resetContainer c w) = originalStyles w"
  "nextNode (resetContainer c w) = nextNode w"
  "document (resetContainer c w) = document w"
  "body (resetContainer c w) = body w"
  "offsetWidth (resetContainer c w) = offsetWidth w"
  "offsetHeight (resetContainer c w) = offsetHeight w"
  "boundingRect (resetContainer c w) = boundingRect w"
  "innerWidth (resetContainer c w) = innerWidth w"
  "innerHeight (resetContainer c w) = innerHeight w"
  "paused (resetContainer c w) = paused w"
  "currentTime (resetContainer c w) = currentTime w"
  "recentlyPlayedVideo (resetContainer c w) = recentlyPlayedVideo w"
  "floatingContainer (resetContainer c w) = floatingContainer w"
  "observer (resetContainer c w) = observer w"
  "isManuallyHidden (resetContainer c w) = isManuallyHidden w"
  "isDragging (resetContainer c w) = isDragging w"
  "dragOffset (resetContainer c w) = dragOffset w"
  "currentSettings (resetContainer c w) = currentSettings w"
  "videoState (resetContainer c w) = videoState w"
  "isFloating (resetContainer c w) = isFloating w"
  "dragDoc (resetContainer c w) = dragDoc w"
  "playListener (resetContainer c w) = playListener w"
  "console (resetContainer c w) = console w"
  "uiMsgs (resetContainer c w) = uiMsgs w"
  "editorText (resetContainer c w) = editorText w"
  by (simp_all add: resetContainer_def Let_def)

subsection \<open>Dragging\<close>

lemma show_digits_unfold:
  "0 < f \<Longrightarrow> show_digits f n =
     (if n < 10 then [digit_char n] else show_digits (f - 1) (n div 10) @ [digit_char (n mod 10)])"
  by (cases f) simp_all

lemma px_10: "px 10 = ''10px''"
  by (simp add: px_def show_int_def show_nat_def show_digits_unfold digit_char_def)

lemma px_125: "px 125 = ''125px''"
  by (simp add: px_def show_int_def show_nat_def show_digits_unfold digit_char_def)

lemma SIZE_MAP_pos: "0 < width (SIZE_MAP s) \<and> 0 < height (SIZE_MAP s)"
  by (cases s) (simp_all add: SIZE_MAP_def)

lemma dragPosition_lower: "10 \<le> pos_x (dragPosition e w) \<and> 10 \<le> pos_y (dragPosition e w)"
  by (simp add: dragPosition_def Let_def)

lemma dragPosition_upper_x:
  "width (SIZE_MAP (size_setting (currentSettings w))) + 20 \<le> innerWidth w \<Longrightarrow>
   pos_x (dragPosition e w) + width (SIZE_MAP (size_setting (currentSettings w))) \<le> innerWidth w - 10"
  by (simp add: dragPosition_def Let_def)

lemma dragPosition_upper_y:
  "height (SIZE_MAP (size_setting (currentSettings w))) + 20 \<le> innerHeight w \<Longrightarrow>
   pos_y (dragPosition e w) + height (SIZE_MAP (size_setting (currentSettings w))) \<le> innerHeight w - 10"
  by (simp add: dragPosition_def Let_def)

lemma onDrag_style:
  "floatingContainer w = Some c \<Longrightarrow> isDragging w \<Longrightarrow>
   style (onDrag e w) c =
     (style w c)(''right'' := ''auto'', ''bottom'' := ''auto'',
        ''left'' := px (pos_x (dragPosition e w)), ''top'' := px (pos_y (dragPosition e w)))"
  by (simp add: onDrag_def Let_def setStyle_def)

lemma startDrag_fields [simp]:
  "kids (startDrag e w) = kids w"
  "parent (startDrag e w) = parent w"
  "tagName (startDrag e w) = tagName w"
  "classList (startDrag e w) = classList w"
  "elemId (startDrag e w) = elemId w"
  "blockid (startDrag e w) = blockid w"
  "style (startDrag e w) = style w"
  "originalStyles (startDrag e w) = originalStyles w"
  "nextNode (startDrag e w) = nextNode w"
  "document (startDrag e w) = document w"
  "body (startDrag e w) = body w"
  "offsetWidth (startDrag e w) = offsetWidth w"
  "offsetHeight (startDrag e w) = offsetHeight w"
  "boundingRect (startDrag e w) = boundingRect w"
  "innerWidth (startDrag e w) = innerWidth w"
  "innerHeight (startDrag e w) = innerHeight w"
  "paused (startDrag e w) = paused w"
  "currentTime (startDrag e w) = currentTime w"
  "recentlyPlayedVideo (startDrag e w) = recentlyPlayedVideo w"
  "floatingContainer (startDrag e w) = floatingContainer w"
  "observer (startDrag e w) = observer w"
  "isManuallyHidden (startDrag e w) = isManuallyHidden w"
  "currentSettings (startDrag e w) = currentSettings w"
  "videoState (startDrag e w) = videoState w"
  "isFloating (startDrag e w) = isFloating w"
  "playListener (startDrag e w) = playListener w"
  "console (startDrag e w) = console w"
  "uiMsgs (startDrag e w) = uiMsgs w"
  "editorText (startDrag e w) = editorText w"
  by (simp_all add: startDrag_def split: option.splits)

lemma onDrag_fields [simp]:
  "kids (onDrag e w) = kids w"
  "parent (onDrag e w) = parent w"
  "tagName (onDrag e w) = tagName w"
  "classList (onDrag e w) = classList w"
  "elemId (onDrag e w) = elemId w"
  "blockid (onDrag e w) = blockid w"
  "originalStyles (onDrag e w) = originalStyles w"
  "nextNode (onDrag e w) = nextNode w"
  "document (onDrag e w) = document w"
  "body (onDrag e w) = body w"
  "offsetWidth (onDrag e w) = offsetWidth w"
  "offsetHeight (onDrag e w) = offsetHeight w"
  "boundingRect (onDrag e w) = boundingRect w"
  "innerWidth (onDrag e w) = innerWidth w"
  "innerHeight (onDrag e w) = innerHeight w"
  "paused (onDrag e w) = paused w"
  "currentTime (onDrag e w) = currentTime w"
  "recentlyPlayedVideo (onDrag e w) = recentlyPlayedVideo w"
  "floatingContainer (onDrag e w) = floatingContainer w"
  "observer (onDrag e w) = observer w"
  "isManuallyHidden (onDrag e w) = isManuallyHidden w"
  "isDragging (onDrag e w) = isDragging w"
  "dragOffset (onDrag e w) = dragOffset w"
  "currentSettings (onDrag e w) = currentSettings w"
  "videoState (onDrag e w) = videoState w"
  "isFloating (onDrag e w) = isFloating w"
  "dragDoc (onDrag e w) = dragDoc w"
  "playListener (onDrag e w) = playListener w"
  "console (onDrag e w) = console w"
  "uiMsgs (onDrag e w) = uiMsgs w"
  "editorText (onDrag e w) = editorText w"
  by (simp_all add: onDrag_def Let_def split: option.splits)

lemma stopDrag_fields [simp]:
  "kids (stopDrag w) = kids w"
  "parent (stopDrag w) = parent w"
  "tagName (stopDrag w) = tagName w"
  "classList (stopDrag w) = classList w"
  "elemId (stopDrag w) = elemId w"
  "blockid (stopDrag w) = blockid w"
  "style (stopDrag w) = style w"
  "originalStyles (stopDrag w) = originalStyles w"
  "nextNode (stopDrag w) = nextNode w"
  "document (stopDrag w) = document w"
  "body (stopDrag w) = body w"
  "offsetWidth (stopDrag w) = offsetWidth w"
  "offsetHeight (stopDrag w) = offsetHeight w"
  "boundingRect (stopDrag w) = boundingRect w"
  "innerWidth (stopDrag w) = innerWidth w"
  "innerHeight (stopDrag w) = innerHeight w"
  "paused (stopDrag w) = paused w"
  "currentTime (stopDrag w) = currentTime w"
  "recentlyPlayedVideo (stopDrag w) = recentlyPlayedVideo w"
  "floatingContainer (stopDrag w) = floatingContainer w"
  "observer (stopDrag w) = observer w"
  "isManuallyHidden (stopDrag w) = isManuallyHidden w"
  "dragOffset (stopDrag w) = dragOffset w"
  "currentSettings (stopDrag w) = currentSettings w"
  "videoState (stopDrag w) = videoState w"
  "isFloating (stopDrag w) = isFloating w"
  "playListener (stopDrag w) = playListener w"
  "console (stopDrag w) = console w"
  "uiMsgs (stopDrag w) = uiMsgs w"
  "editorText (stopDrag w) = editorText w"
  by (simp_all add: stopDrag_def)


lemma fst_createElement [simp]: "fst (createElement t w) = nextNode w"
  by (simp add: createElement_def Let_def)

lemma showFloatingPlayer_fields [simp]:
  "document (showFloatingPlayer w) = document w"
  "body (showFloatingPlayer w) = body w"
  "offsetWidth (showFloatingPlayer w) = offsetWidth w"
  "offsetHeight (showFloatingPlayer w) = offsetHeight w"
  "boundingRect (showFloatingPlayer w) = boundingRect w"
  "innerWidth (showFloatingPlayer w) = innerWidth w"
  "innerHeight (showFloatingPlayer w) = innerHeight w"
  "paused (showFloatingPlayer w) = paused w"
  "currentTime (showFloatingPlayer w) = currentTime w"
  "recentlyPlayedVideo (showFloatingPlayer w) = recentlyPlayedVideo w"
  "floatingContainer (showFloatingPlayer w) = floatingContainer w"
  "observer (showFloatingPlayer w) = observer w"
  "isManuallyHidden (showFloatingPlayer w) = isManuallyHidden w"
  "isDragging (showFloatingPlayer w) = isDragging w"
  "dragOffset (showFloatingPlayer w) = dragOffset w"
  "currentSettings (showFloatingPlayer w) = currentSettings w"
  "dragDoc (showFloatingPlayer w) = dragDoc w"
  "playListener (showFloatingPlayer w) = playListener w"
  "console (showFloatingPlayer w) = console w"
  "uiMsgs (showFloatingPlayer w) = uiMsgs w"
  "editorText (showFloatingPlayer w) = editorText w"
  by (simp_all add: showFloatingPlayer_def Let_def case_prod_beta split: option.splits)

lemma hideFloatingPlayer_fields [simp]:
  "tagName (hideFloatingPlayer w) = tagName w"
  "classList (hideFloatingPlayer w) = classList w"
  "elemId (hideFloatingPlayer w) = elemId w"
  "blockid (hideFloatingPlayer w) = blockid w"
  "nextNode (hideFloatingPlayer w) = nextNode w"
  "document (hideFloatingPlayer w) = document w"
  "body (hideFloatingPlayer w) = body w"
  "offsetWidth (hideFloatingPlayer w) = offsetWidth w"
  "offsetHeight (hideFloatingPlayer w) = offsetHeight w"
  "boundingRect (hideFloatingPlayer w) = boundingRect w"
  "innerWidth (hideFloatingPlayer w) = innerWidth w"
  "innerHeight (hideFloatingPlayer w) = innerHeight w"
  "paused (hideFloatingPlayer w) = paused w"
  "currentTime (hideFloatingPlayer w) = currentTime w"
  "recentlyPlayedVideo (hideFloatingPlayer w) = recentlyPlayedVideo w"
  "floatingContainer (hideFloatingPlayer w) = floatingContainer w"
  "observer (hideFloatingPlayer w) = observer w"
  "isManuallyHidden (hideFloatingPlayer w) = isManuallyHidden w"
  "isDragging (hideFloatingPlayer w) = isDragging w"
  "dragOffset (hideFloatingPlayer w) = dragOffset w"
  "currentSettings (hideFloatingPlayer w) = currentSettings w"
  "dragDoc (hideFloatingPlayer w) = dragDoc w"
  "playListener (hideFloatingPlayer w) = playListener w"
  "console (hideFloatingPlayer w) = console w"
  "uiMsgs (hideFloatingPlayer w) = uiMsgs w"
  "editorText (hideFloatingPlayer w) = editorText w"
  by (simp_all add: hideFloatingPlayer_def Let_def split: option.splits)


lemma showFloatingPlayer_no_container: "floatingContainer w = None \<Longrightarrow> showFloatingPlayer w = w"
  by (simp add: showFloatingPlayer_def split: option.splits)


lemma showFloatingPlayer_disabled: "\<not> enabled (currentSettings w) \<Longrightarrow> showFloatingPlayer w = w"
  by (simp add: showFloatingPlayer_def split: option.splits)

lemma showFloatingPlayer_floating: "isFloating w \<Longrightarrow> showFloatingPlayer w = w"
  by (simp add: showFloatingPlayer_def split: option.splits)

lemma hideFloatingPlayer_no_container: "floatingContainer w = None \<Longrightarrow> hideFloatingPlayer w = w"
  by (simp add: hideFloatingPlayer_def)

lemma hideFloatingPlayer_docked: "\<not> isFloating w \<Longrightarrow> hideFloatingPlayer w = w"
  by (simp add: hideFloatingPlayer_def split: option.splits)

lemma hideFloatingPlayer_isFloating: "isFloating (hideFloatingPlayer w) \<Longrightarrow> isFloating w"
  by (simp add: hideFloatingPlayer_def Let_def split: option.splits if_splits)



lemma handleVideoPlay_noContainer: "noContainer w \<Longrightarrow> noContainer (handleVideoPlay v w)"
  by (simp add: noContainer_def handleVideoPlay_def Let_def split: option.splits)

lemma handleEntry_noContainer: "noContainer w \<Longrightarrow> noContainer (handleEntry en w)"
  by (simp add: noContainer_def handleEntry_def Let_def showFloatingPlayer_no_container
      split: option.splits)

lemma handleIntersection_noContainer:
  "noContainer w \<Longrightarrow> noContainer (handleIntersection ens w)"
  unfolding handleIntersection_def
  by (induction ens arbitrary: w) (simp_all add: handleEntry_noContainer)

lemma updateFloatingPlayerSettings_noContainer:
  "noContainer w \<Longrightarrow> noContainer (updateFloatingPlayerSettings s w)"
  by (simp add: noContainer_def updateFloatingPlayerSettings_def Let_def)

lemma destroyFloatingPlayer_noContainer: "noContainer (destroyFloatingPlayer w)"
  by (simp add: noContainer_def destroyFloatingPlayer_def Let_def split: option.splits)

lemma returnFloatingVideo_noContainer:
  "noContainer w \<Longrightarrow> noContainer (returnFloatingVideo b w)"
  by (simp add: noContainer_def returnFloatingVideo_def)

lemma initFloatingPlayer_disabled:
  "\<not> enabled s \<Longrightarrow> initFloatingPlayer s w = w\<lparr>currentSettings := s\<rparr>"
  by (simp add: initFloatingPlayer_def)

lemma step_noContainer:
  "noContainer w \<Longrightarrow> \<not> enablingInit e \<Longrightarrow> noContainer (step e w)"
proof (cases e)
  case (Play v)
  assume "noContainer w"
  then show ?thesis using Play by (simp add: handleVideoPlay_noContainer)
next
  case (Intersect ens)
  assume "noContainer w"
  then show ?thesis using Intersect by (simp add: handleIntersection_noContainer)
next
  case (Init s)
  assume "noContainer w" "\<not> enablingInit e"
  then show ?thesis using Init
    by (simp add: enablingInit_def initFloatingPlayer_disabled noContainer_def)
next
  case (Update s)
  assume "noContainer w"
  then show ?thesis using Update by (simp add: updateFloatingPlayerSettings_noContainer)
next
  case Destroy
  then show ?thesis by (simp add: destroyFloatingPlayer_noContainer)
next
  case (ReturnFloating b)
  assume "noContainer w"
  then show ?thesis using ReturnFloating by (simp add: returnFloatingVideo_noContainer)
qed (simp_all add: noContainer_def)

lemma run_noContainer:
  "noContainer w \<Longrightarrow> \<forall>e\<in>set es. \<not> enablingInit e \<Longrightarrow> noContainer (run es w)"
  unfolding run_def
  by (induction es arbitrary: w) (simp_all add: step_noContainer)

lemma updateFloatingPlayerSettings_no_container:
  "floatingContainer w = None \<Longrightarrow> updateFloatingPlayerSettings s w = w\<lparr>currentSettings := s\<rparr>"
  by (simp add: updateFloatingPlayerSettings_def Let_def)

subsection \<open>Child lists\<close>

lemma set_ins [simp]: "set (ins new r xs) = insert new (set xs)"
  by (induction xs) auto

lemma distinct_ins: "distinct xs \<Longrightarrow> new \<notin> set xs \<Longrightarrow> distinct (ins new r xs)"
  by (induction xs) auto

lemma after_mem: "after a xs = Some s \<Longrightarrow> s \<in> set xs"
  by (induction xs) (auto split: if_splits list.splits)

lemma after_notin: "a \<notin> set xs \<Longrightarrow> after a xs = None"
  by (induction xs) auto

lemma after_neq: "distinct xs \<Longrightarrow> after a xs = Some s \<Longrightarrow> s \<noteq> a"
  by (induction xs) (auto split: if_splits list.splits)

lemma map_swap_id: "a \<notin> set xs \<Longrightarrow> map (\<lambda>n. if n = a then b else n) xs = xs"
  by (induction xs) auto

lemma swapNode_id: "a \<notin> set xs \<Longrightarrow> swapNode a b xs = xs"
  by (simp add: swapNode_def map_swap_id)

lemma swapNode_back: "b \<notin> set xs \<Longrightarrow> swapNode b a (swapNode a b xs) = xs"
  by (induction xs) (auto simp: swapNode_def)

lemma set_swapNode: "a \<in> set xs \<Longrightarrow> set (swapNode a b xs) = insert b (set xs - {a})"
  by (auto simp: swapNode_def)

lemma distinct_swapNode: "distinct xs \<Longrightarrow> b \<notin> set xs \<Longrightarrow> distinct (swapNode a b xs)"
  by (induction xs) (auto simp: swapNode_def)

lemma remove1_ins_swap:
  "distinct xs \<Longrightarrow> v \<in> set xs \<Longrightarrow> ph \<notin> set xs \<Longrightarrow> remove1 v (ins ph v xs) = swapNode v ph xs"
  by (induction xs) (auto simp: swapNode_def map_swap_id)

lemma after_swapNode:
  "distinct xs \<Longrightarrow> ph \<notin> set xs \<Longrightarrow> after ph (swapNode v ph xs) = after v xs"
  by (induction xs) (auto simp: swapNode_def split: list.splits)

lemma remove1_ins_before:
  "distinct xs \<Longrightarrow> v \<notin> set xs \<Longrightarrow> after ph xs = Some s \<Longrightarrow>
   remove1 ph (ins v s xs) = swapNode ph v xs"
proof (induction xs)
  case Nil
  then show ?case by simp
next
  case (Cons a xs)
  show ?case
  proof (cases "a = ph")
    case True
    with Cons.prems obtain ys where ys: "xs = s # ys"
      by (auto split: list.splits)
    from Cons.prems True ys have "ph \<notin> set xs" "s \<noteq> ph" "v \<noteq> ph" by auto
    then show ?thesis
      using True ys by (simp add: swapNode_def map_swap_id)
  next
    case False
    with Cons.prems have "after ph xs = Some s" by simp
    moreover from this have "s \<in> set xs" by (rule after_mem)
    moreover from Cons.prems have "distinct xs" "v \<notin> set xs" "a \<notin> set xs" "v \<noteq> a" by auto
    ultimately show ?thesis
      using False Cons.IH by (auto simp: swapNode_def)
  qed
qed

lemma after_last: "distinct xs \<Longrightarrow> ph \<in> set xs \<Longrightarrow> after ph xs = None \<Longrightarrow> \<exists>ys. xs = ys @ [ph]"
proof (induction xs)
  case Nil
  then show ?case by simp
next
  case (Cons a xs)
  show ?case
  proof (cases "a = ph")
    case True
    with Cons.prems have "xs = []" by (auto split: list.splits)
    then show ?thesis using True by simp
  next
    case False
    with Cons.prems Cons.IH obtain ys where "xs = ys @ [ph]" by auto
    then show ?thesis by (metis append_Cons)
  qed
qed

lemma remove1_append_last:
  "distinct xs \<Longrightarrow> ph \<in> set xs \<Longrightarrow> v \<notin> set xs \<Longrightarrow> after ph xs = None \<Longrightarrow>
   remove1 ph (xs @ [v]) = swapNode ph v xs"
proof -
  assume d: "distinct xs" and m: "ph \<in> set xs" and v: "v \<notin> set xs" and a: "after ph xs = None"
  from after_last [OF d m a] obtain ys where ys: "xs = ys @ [ph]" by blast
  with d have "ph \<notin> set ys" by auto
  then show ?thesis
    using ys by (simp add: remove1_append swapNode_def map_swap_id)
qed

lemma after_ins: "s \<in> set xs \<Longrightarrow> v \<notin> set xs \<Longrightarrow> after v (ins v s xs) = Some s"
  by (induction xs) auto

lemma after_remove1_other:
  "distinct xs \<Longrightarrow> after v xs = Some s \<Longrightarrow> ph \<noteq> v \<Longrightarrow> ph \<noteq> s \<Longrightarrow>
   after v (remove1 ph xs) = Some s"
proof (induction xs)
  case Nil
  then show ?case by simp
next
  case (Cons a xs)
  show ?case
  proof (cases "a = v")
    case True
    with Cons.prems obtain ys where "xs = s # ys"
      by (cases xs) auto
    then show ?thesis using True Cons.prems by simp
  next
    case False
    with Cons.prems have "after v xs = Some s" "distinct xs" by auto
    then show ?thesis using False Cons by auto
  qed
qed

lemma after_append_last: "v \<notin> set xs \<Longrightarrow> after v (xs @ [v]) = None"
  by (induction xs) auto

lemma after_remove1_last:
  "distinct xs \<Longrightarrow> after v xs = None \<Longrightarrow> ph \<noteq> v \<Longrightarrow> after v (remove1 ph xs) = None"
proof (induction xs)
  case Nil
  then show ?case by simp
next
  case (Cons a xs)
  show ?case
  proof (cases "a = v")
    case True
    with Cons.prems have "xs = []"
      by (cases xs) auto
    then show ?thesis using True Cons.prems by simp
  next
    case False
    with Cons.prems have "after v xs = None" "distinct xs" by auto
    then show ?thesis using False Cons by auto
  qed
qed

lemma filter_remove1_single:
  "distinct xs \<Longrightarrow> filter P xs = [v] \<Longrightarrow> filter P (remove1 v xs) = []"
  by (induction xs) (auto split: if_splits simp: filter_empty_conv)

lemma filter_remove1_empty: "filter P xs = [] \<Longrightarrow> filter P (remove1 a xs) = []"
  by (auto simp: filter_empty_conv dest: notin_set_remove1)

subsection \<open>The tree under the DOM operations\<close>

lemma wfdom_child: "wfdom w \<Longrightarrow> parent w c = Some p \<Longrightarrow> c \<in> set (kids w p)"
  by (simp add: wfdom_def)

lemma wfdom_parent: "wfdom w \<Longrightarrow> c \<in> set (kids w p) \<Longrightarrow> parent w c = Some p"
  by (simp add: wfdom_def)

lemma wfdom_distinct: "wfdom w \<Longrightarrow> distinct (kids w p)"
  by (simp add: wfdom_def)

lemma wfdom_child_alloc: "wfdom w \<Longrightarrow> parent w c = Some p \<Longrightarrow> c < nextNode w"
  by (metis wfdom_def not_le_imp_less option.distinct(1))

lemma wfdom_parent_alloc: "wfdom w \<Longrightarrow> parent w c = Some p \<Longrightarrow> p < nextNode w"
  by (metis wfdom_def not_le_imp_less empty_iff list.set(1))

lemma wfdom_fresh: "wfdom w \<Longrightarrow> parent w (nextNode w) = None \<and> kids w (nextNode w) = []"
  by (simp add: wfdom_def)

lemma wfdom_fresh_notin: "wfdom w \<Longrightarrow> nextNode w \<notin> set (kids w p)"
  by (metis wfdom_def order_refl option.distinct(1))

lemma wfdom_cong:
  "kids w' = kids w \<Longrightarrow> parent w' = parent w \<Longrightarrow> nextNode w' = nextNode w \<Longrightarrow>
   wfdom w' = wfdom w"
  by (simp add: wfdom_def)

lemma kids_removeFromParent:
  "kids (removeFromParent n w) =
     (case parent w n of None \<Rightarrow> kids w | Some p \<Rightarrow> (kids w)(p := remove1 n (kids w p)))"
  by (simp add: removeFromParent_def split: option.splits)

lemma parent_removeFromParent: "parent (removeFromParent n w) = (parent w)(n := None)"
  by (auto simp: removeFromParent_def split: option.splits)

lemma nextNode_removeFromParent: "nextNode (removeFromParent n w) = nextNode w"
  by (simp add: removeFromParent_def split: option.splits)

lemma wfdom_removeFromParent: "wfdom w \<Longrightarrow> wfdom (removeFromParent n w)"
proof (cases "parent w n")
  case None
  assume "wfdom w"
  then show ?thesis using None by (simp add: removeFromParent_def)
next
  case (Some p)
  assume wf: "wfdom w"
  have k: "kids (removeFromParent n w) = (kids w)(p := remove1 n (kids w p))"
    using Some by (simp add: kids_removeFromParent)
  have n: "n \<in> set (kids w p)" using wf Some by (rule wfdom_child)
  have d: "distinct (kids w p)" using wf by (rule wfdom_distinct)
  have a: "\<And>c q. (((parent w)(n := None)) c = Some q) =
                   (c \<in> set (((kids w)(p := remove1 n (kids w p))) q))"
  proof -
    fix c q
    show "(((parent w)(n := None)) c = Some q) =
            (c \<in> set (((kids w)(p := remove1 n (kids w p))) q))"
    proof (cases "c = n")
      case True
      have "n \<notin> set (remove1 n (kids w p))" using d by simp
      moreover have "q \<noteq> p \<Longrightarrow> n \<notin> set (kids w q)"
        using wf Some by (metis wfdom_parent option.inject)
      ultimately show ?thesis using True by auto
    next
      case False
      have "(parent w c = Some q) = (c \<in> set (kids w q))" using wf by (simp add: wfdom_def)
      then show ?thesis using False by auto
    qed
  qed
  have b: "\<And>q. distinct (((kids w)(p := remove1 n (kids w p))) q)"
    using wf by (simp add: wfdom_def)
  have c: "\<And>m. nextNode w \<le> m \<Longrightarrow>
             ((parent w)(n := None)) m = None \<and> ((kids w)(p := remove1 n (kids w p))) m = []"
    using wf by (auto simp: wfdom_def)
  show ?thesis
    unfolding wfdom_def k parent_removeFromParent nextNode_removeFromParent
    using a b c by blast
qed


lemma wfdom_attach:
  assumes wf: "wfdom w1" and det: "parent w1 n = None"
    and n: "n < nextNode w1" and p: "p < nextNode w1"
    and L: "set L = insert n (set (kids w1 p))" and dL: "distinct L"
    and k: "kids w2 = (kids w1)(p := L)" and pa: "parent w2 = (parent w1)(n := Some p)"
    and nn: "nextNode w2 = nextNode w1"
  shows "wfdom w2"
proof -
  have nk: "\<And>q. n \<notin> set (kids w1 q)"
    using wf det by (metis wfdom_parent option.distinct(1))
  have a: "\<And>c q. (((parent w1)(n := Some p)) c = Some q) = (c \<in> set (((kids w1)(p := L)) q))"
  proof -
    fix c q
    have base: "(parent w1 c = Some q) = (c \<in> set (kids w1 q))"
      using wf by (simp add: wfdom_def)
    show "(((parent w1)(n := Some p)) c = Some q) = (c \<in> set (((kids w1)(p := L)) q))"
    proof (cases "c = n")
      case True
      then show ?thesis using nk L by auto
    next
      case False
      then show ?thesis using base L by auto
    qed
  qed
  have b: "\<And>q. distinct (((kids w1)(p := L)) q)"
    using wf dL by (simp add: wfdom_def)
  have c: "\<And>m. nextNode w1 \<le> m \<Longrightarrow>
             ((parent w1)(n := Some p)) m = None \<and> ((kids w1)(p := L)) m = []"
    using wf n p by (auto simp: wfdom_def)
  show ?thesis
    unfolding wfdom_def k pa nn using a b c by blast
qed

lemma removeFromParent_detached: "parent (removeFromParent n w) n = None"
  by (simp add: parent_removeFromParent)

lemma removeFromParent_notin:
  "wfdom w \<Longrightarrow> n \<notin> set (kids (removeFromParent n w) q)"
  by (metis wfdom_removeFromParent removeFromParent_detached wfdom_parent option.distinct(1))

lemma kids_insertBefore_None:
  "kids (insertBefore p n None w) =
     (kids (removeFromParent n w))(p := kids (removeFromParent n w) p @ [n])"
  by (simp add: insertBefore_def Let_def)

lemma kids_insertBefore_Some:
  "r \<in> set (kids w p) \<Longrightarrow>
   kids (insertBefore p n (Some r) w) =
     (kids (removeFromParent n w))(p := ins n r (kids (removeFromParent n w) p))"
  by (simp add: insertBefore_def Let_def)

lemma parent_insertBefore_None:
  "parent (insertBefore p n None w) = (parent w)(n := Some p)"
  by (simp add: insertBefore_def Let_def parent_removeFromParent)

lemma parent_insertBefore_Some:
  "r \<in> set (kids w p) \<Longrightarrow> parent (insertBefore p n (Some r) w) = (parent w)(n := Some p)"
  by (simp add: insertBefore_def Let_def parent_removeFromParent)

lemma nextNode_insertBefore: "nextNode (insertBefore p n r w) = nextNode w"
  by (simp add: insertBefore_def Let_def split: option.splits)

lemma nextNode_appendChild: "nextNode (appendChild p n w) = nextNode w"
  by (simp add: appendChild_def)

lemma wfdom_insertBefore:
  assumes wf: "wfdom w" and n: "n < nextNode w" and p: "p < nextNode w"
  shows "wfdom (insertBefore p n r w)"
proof -
  let ?w1 = "removeFromParent n w"
  have wf1: "wfdom ?w1" using wf by (rule wfdom_removeFromParent)
  have det: "parent ?w1 n = None" by (rule removeFromParent_detached)
  have nin: "n \<notin> set (kids ?w1 p)" using wf by (rule removeFromParent_notin)
  have d1: "distinct (kids ?w1 p)" using wf1 by (rule wfdom_distinct)
  show ?thesis
  proof (cases r)
    case None
    show ?thesis
    proof (rule wfdom_attach [OF wf1 det, where L = "kids ?w1 p @ [n]" and p = p])
      show "n < nextNode ?w1" using n by simp
      show "p < nextNode ?w1" using p by simp
      show "set (kids ?w1 p @ [n]) = insert n (set (kids ?w1 p))" by simp
      show "distinct (kids ?w1 p @ [n])" using d1 nin by simp
      show "kids (insertBefore p n r w) = (kids ?w1)(p := kids ?w1 p @ [n])"
        using None by (simp add: kids_insertBefore_None)
      show "parent (insertBefore p n r w) = (parent ?w1)(n := Some p)"
        using None by (simp add: parent_insertBefore_None parent_removeFromParent)
      show "nextNode (insertBefore p n r w) = nextNode ?w1" by simp
    qed
  next
    case (Some s)
    show ?thesis
    proof (cases "s \<in> set (kids w p)")
      case False
      then show ?thesis using Some wf by (simp add: insertBefore_def)
    next
      case True
      show ?thesis
      proof (rule wfdom_attach [OF wf1 det, where L = "ins n s (kids ?w1 p)" and p = p])
        show "n < nextNode ?w1" using n by simp
        show "p < nextNode ?w1" using p by simp
        show "set (ins n s (kids ?w1 p)) = insert n (set (kids ?w1 p))" by simp
        show "distinct (ins n s (kids ?w1 p))" using d1 nin by (rule distinct_ins)
        show "kids (insertBefore p n r w) = (kids ?w1)(p := ins n s (kids ?w1 p))"
          using Some True by (simp add: kids_insertBefore_Some)
        show "parent (insertBefore p n r w) = (parent ?w1)(n := Some p)"
          using Some True by (simp add: parent_insertBefore_Some parent_removeFromParent)
        show "nextNode (insertBefore p n r w) = nextNode ?w1" by simp
      qed
    qed
  qed
qed

lemma wfdom_appendChild:
  "wfdom w \<Longrightarrow> n < nextNode w \<Longrightarrow> p < nextNode w \<Longrightarrow> wfdom (appendChild p n w)"
  by (simp add: appendChild_def wfdom_insertBefore)

lemma createElement_dom [simp]:
  "nextNode (snd (createElement t w)) = Suc (nextNode w)"
  "kids (snd (createElement t w)) = (kids w)(nextNode w := [])"
  "parent (snd (createElement t w)) = (parent w)(nextNode w := None)"
  "tagName (snd (createElement t w)) = (tagName w)(nextNode w := t)"
  "classList (snd (createElement t w)) = (classList w)(nextNode w := [])"
  by (simp_all add: createElement_def Let_def)

lemma wfdom_createElement:
  assumes wf: "wfdom w"
  shows "wfdom (snd (createElement t w))"
proof -
  let ?n = "nextNode w"
  have fr: "parent w ?n = None" "kids w ?n = []"
    using wf by (simp_all add: wfdom_fresh)
  have nk: "\<And>q. ?n \<notin> set (kids w q)" using wf by (rule wfdom_fresh_notin)
  have a: "\<And>c q. (((parent w)(?n := None)) c = Some q) = (c \<in> set (((kids w)(?n := [])) q))"
  proof -
    fix c q
    have base: "(parent w c = Some q) = (c \<in> set (kids w q))"
      using wf by (simp add: wfdom_def)
    show "(((parent w)(?n := None)) c = Some q) = (c \<in> set (((kids w)(?n := [])) q))"
      using base nk fr by (cases "c = ?n"; cases "q = ?n") auto
  qed
  have b: "\<And>q. distinct (((kids w)(?n := [])) q)"
    using wf by (simp add: wfdom_def)
  have c: "\<And>m. Suc ?n \<le> m \<Longrightarrow> ((parent w)(?n := None)) m = None \<and> ((kids w)(?n := [])) m = []"
    using wf by (auto simp: wfdom_def)
  show ?thesis
    unfolding wfdom_def createElement_dom using a b c by blast
qed

subsection \<open>showFloatingPlayer\<close>

lemma parentElement_parent: "parentElement w n = Some p \<Longrightarrow> parent w n = Some p"
  by (simp add: parentElement_def split: option.splits if_splits)

lemma parentElement_not_document: "parentElement w n = Some p \<Longrightarrow> p \<noteq> document w"
  by (simp add: parentElement_def split: option.splits if_splits)

lemma removeFromParent_id: "parent w n = None \<Longrightarrow> removeFromParent n w = w"
  by (simp add: removeFromParent_def)

lemma makePlaceholder_style:
  "style (makePlaceholder ph v w) =
     (style w)(ph := (style w ph)(''width'' := px (offsetWidth w v),
        ''height'' := px (offsetHeight w v), ''display'' := ''flex''))"
  by (simp add: makePlaceholder_def Let_def setStyle_def setClassName_def)

lemma makePlaceholder_classList:
  "classList (makePlaceholder ph v w) = (classList w)(ph := [placeholderClass])"
  by (simp add: makePlaceholder_def Let_def setStyle_def setClassName_def placeholderClass_def)

lemma showFloatingPlayer_eq:
  assumes "canFloat w v c p"
  shows "showFloatingPlayer w =
     (let ph = nextNode w;
          w1 = snd (createElement ''DIV'' w);
          w3 = makePlaceholder ph v
                 (w1\<lparr>videoState := Some \<lparr>video = v, originalParent = p,
                        originalNextSibling = nextSibling w v, placeholder = ph\<rparr>\<rparr>);
          w4 = insertBefore p ph (Some v) w3;
          w5 = w4\<lparr>originalStyles := (originalStyles w4)
                     (v := Some (style w4 v ''width'', style w4 v ''height''))\<rparr>;
          sz = SIZE_MAP (size_setting (currentSettings w));
          w9 = setStyle v ''height'' ''100%'' (setStyle v ''width'' ''100%''
                 (setStyle c ''height'' (px (height sz)) (setStyle c ''width'' (px (width sz)) w5)))
      in (setStyle c ''display'' ''block'' (appendChild c v w9))\<lparr>isFloating := True\<rparr>)"
  using assms
  by (simp add: canFloat_def showFloatingPlayer_def Let_def case_prod_beta)


lemma canFloat_facts:
  assumes wf: "wfdom w" and cf: "canFloat w v c p"
  shows "parent w v = Some p" "v \<in> set (kids w p)" "v < nextNode w" "p < nextNode w"
    "v \<noteq> nextNode w" "p \<noteq> nextNode w" "p \<noteq> document w"
proof -
  show pv: "parent w v = Some p"
    using cf by (simp add: canFloat_def parentElement_parent)
  show "v \<in> set (kids w p)" using wf pv by (rule wfdom_child)
  show v: "v < nextNode w" using wf pv by (rule wfdom_child_alloc)
  show p: "p < nextNode w" using wf pv by (rule wfdom_parent_alloc)
  show "v \<noteq> nextNode w" using v by simp
  show "p \<noteq> nextNode w" using p by simp
  show "p \<noteq> document w" using cf by (auto simp: canFloat_def dest: parentElement_not_document)
qed

lemma showFloatingPlayer_state:
  assumes "canFloat w v c p"
  shows "videoState (showFloatingPlayer w) =
           Some \<lparr>video = v, originalParent = p, originalNextSibling = nextSibling w v,
                 placeholder = nextNode w\<rparr>"
    and "isFloating (showFloatingPlayer w)"
    and "nextNode (showFloatingPlayer w) = Suc (nextNode w)"
    and "tagName (showFloatingPlayer w) = (tagName w)(nextNode w := ''DIV'')"
    and "classList (showFloatingPlayer w) = (classList w)(nextNode w := [placeholderClass])"
  by (simp_all add: showFloatingPlayer_eq [OF assms] Let_def makePlaceholder_classList)

lemma showFloatingPlayer_kids:
  assumes wf: "wfdom w" and cf: "canFloat w v c p" and c: "c < nextNode w" and pc: "p \<noteq> c"
  shows "kids (showFloatingPlayer w) =
           (kids w)(nextNode w := [], p := swapNode v (nextNode w) (kids w p),
                    c := kids w c @ [v])"
proof -
  let ?ph = "nextNode w"
  note f = canFloat_facts [OF wf cf]
  let ?w3 = "makePlaceholder ?ph v
               ((snd (createElement ''DIV'' w))\<lparr>videoState := Some \<lparr>video = v, originalParent = p,
                      originalNextSibling = nextSibling w v, placeholder = ?ph\<rparr>\<rparr>)"
  let ?w4 = "insertBefore p ?ph (Some v) ?w3"
  have k3: "kids ?w3 = (kids w)(?ph := [])" by simp
  have p3: "parent ?w3 = (parent w)(?ph := None)" by simp
  have v3: "v \<in> set (kids ?w3 p)" using f by (simp add: k3)
  have r3: "removeFromParent ?ph ?w3 = ?w3"
    by (rule removeFromParent_id) (simp add: p3)
  have k4: "kids ?w4 = (kids w)(?ph := [], p := ins ?ph v (kids w p))"
    using f by (simp add: kids_insertBefore_Some [OF v3] r3 k3)
  have p4: "parent ?w4 = (parent w)(?ph := Some p)"
    by (simp add: parent_insertBefore_Some [OF v3] p3)
  have notin: "?ph \<notin> set (kids w p)" using wf by (rule wfdom_fresh_notin)
  have sw: "remove1 v (ins ?ph v (kids w p)) = swapNode v ?ph (kids w p)"
    using wfdom_distinct [OF wf] f(2) notin by (rule remove1_ins_swap)
  have cph: "c \<noteq> ?ph" using c by simp
  have "kids (showFloatingPlayer w) =
          kids (appendChild c v
            (setStyle v ''height'' ''100%'' (setStyle v ''width'' ''100%''
              (setStyle c ''height'' (px (height (SIZE_MAP (size_setting (currentSettings w)))))
                (setStyle c ''width'' (px (width (SIZE_MAP (size_setting (currentSettings w)))))
                  (?w4\<lparr>originalStyles := (originalStyles ?w4)
                     (v := Some (style ?w4 v ''width'', style ?w4 v ''height''))\<rparr>))))))"
    by (simp add: showFloatingPlayer_eq [OF cf] Let_def)
  also have "\<dots> = (kids w)(?ph := [], p := swapNode v ?ph (kids w p), c := kids w c @ [v])"
    using f pc cph
    by (simp add: appendChild_def kids_insertBefore_None kids_removeFromParent k4 p4 sw)
  finally show ?thesis .
qed

lemma showFloatingPlayer_parent:
  assumes wf: "wfdom w" and cf: "canFloat w v c p"
  shows "parent (showFloatingPlayer w) = (parent w)(nextNode w := Some p, v := Some c)"
proof -
  let ?ph = "nextNode w"
  note f = canFloat_facts [OF wf cf]
  let ?w3 = "makePlaceholder ?ph v
               ((snd (createElement ''DIV'' w))\<lparr>videoState := Some \<lparr>video = v, originalParent = p,
                      originalNextSibling = nextSibling w v, placeholder = ?ph\<rparr>\<rparr>)"
  have k3: "kids ?w3 = (kids w)(?ph := [])" by simp
  have p3: "parent ?w3 = (parent w)(?ph := None)" by simp
  have v3: "v \<in> set (kids ?w3 p)" using f by (simp add: k3)
  show ?thesis
    by (simp add: showFloatingPlayer_eq [OF cf] Let_def appendChild_def
        parent_insertBefore_None parent_insertBefore_Some [OF v3] p3)
qed


lemma wfdom_congI:
  "wfdom w \<Longrightarrow> kids w' = kids w \<Longrightarrow> parent w' = parent w \<Longrightarrow> nextNode w' = nextNode w \<Longrightarrow>
   wfdom w'"
  by (simp add: wfdom_def)

lemma showFloatingPlayer_wfdom:
  assumes wf: "wfdom w" and cf: "canFloat w v c p" and c: "c < nextNode w"
  shows "wfdom (showFloatingPlayer w)"
proof -
  let ?ph = "nextNode w"
  note f = canFloat_facts [OF wf cf]
  let ?w1 = "snd (createElement ''DIV'' w)"
  let ?w3 = "makePlaceholder ?ph v
               (?w1\<lparr>videoState := Some \<lparr>video = v, originalParent = p,
                      originalNextSibling = nextSibling w v, placeholder = ?ph\<rparr>\<rparr>)"
  let ?w4 = "insertBefore p ?ph (Some v) ?w3"
  let ?w9 = "setStyle v ''height'' ''100%'' (setStyle v ''width'' ''100%''
              (setStyle c ''height'' (px (height (SIZE_MAP (size_setting (currentSettings w)))))
                (setStyle c ''width'' (px (width (SIZE_MAP (size_setting (currentSettings w)))))
                  (?w4\<lparr>originalStyles := (originalStyles ?w4)
                     (v := Some (style ?w4 v ''width'', style ?w4 v ''height''))\<rparr>))))"
  have wf1: "wfdom ?w1" using wf by (rule wfdom_createElement)
  have wf3: "wfdom ?w3" by (rule wfdom_congI [OF wf1]) simp_all
  have wf4: "wfdom ?w4"
    using wf3 f by (intro wfdom_insertBefore) simp_all
  have wf9: "wfdom ?w9" by (rule wfdom_congI [OF wf4]) simp_all
  have wf10: "wfdom (appendChild c v ?w9)"
    using wf9 f c by (intro wfdom_appendChild) simp_all
  show ?thesis
    by (rule wfdom_congI [OF wf10]) (simp_all add: showFloatingPlayer_eq [OF cf] Let_def)
qed

lemma showFloatingPlayer_styles:
  assumes wf: "wfdom w" and cf: "canFloat w v c p" and c: "c < nextNode w"
  shows "style (showFloatingPlayer w) (nextNode w) ''width'' = px (offsetWidth w v)"
    and "style (showFloatingPlayer w) (nextNode w) ''height'' = px (offsetHeight w v)"
    and "originalStyles (showFloatingPlayer w) v = Some (style w v ''width'', style w v ''height'')"
    and "style (showFloatingPlayer w) c ''display'' = ''block''"
proof -
  note f = canFloat_facts [OF wf cf]
  have cph: "c \<noteq> nextNode w" using c by simp
  show "style (showFloatingPlayer w) (nextNode w) ''width'' = px (offsetWidth w v)"
    using f cph
    by (simp add: showFloatingPlayer_eq [OF cf] Let_def setStyle_def makePlaceholder_style
        createElement_def)
  show "style (showFloatingPlayer w) (nextNode w) ''height'' = px (offsetHeight w v)"
    using f cph
    by (simp add: showFloatingPlayer_eq [OF cf] Let_def setStyle_def makePlaceholder_style
        createElement_def)
  show "originalStyles (showFloatingPlayer w) v = Some (style w v ''width'', style w v ''height'')"
    using f
    by (simp add: showFloatingPlayer_eq [OF cf] Let_def setStyle_def makePlaceholder_style
        createElement_def)
  show "style (showFloatingPlayer w) c ''display'' = ''block''"
    by (simp add: showFloatingPlayer_eq [OF cf] Let_def setStyle_def)
qed

subsection \<open>hideFloatingPlayer\<close>

lemma hideFloatingPlayer_eq:
  assumes "floatingContainer w = Some c" and "isFloating w" and "videoState w = Some vs"
  shows "hideFloatingPlayer w =
     (let w1 = restoreStyles (video vs) w;
          w2 = (case originalNextSibling vs of
                  None \<Rightarrow> appendChild (originalParent vs) (video vs) w1
                | Some s \<Rightarrow>
                    if parent w1 s = Some (originalParent vs)
                    then insertBefore (originalParent vs) (video vs) (Some s) w1
                    else appendChild (originalParent vs) (video vs) w1);
          w3 = (case parentElement w2 (placeholder vs) of
                  None \<Rightarrow> w2
                | Some _ \<Rightarrow> removeFromParent (placeholder vs) w2);
          w4 = resetContainer c w3
      in w4\<lparr>videoState := None, isFloating := False\<rparr>)"
  unfolding hideFloatingPlayer_def using assms by (simp only: option.case if_False simp_thms)

lemma hideFloatingPlayer_state:
  assumes "floatingContainer w = Some c" and "isFloating w" and "videoState w = Some vs"
  shows "videoState (hideFloatingPlayer w) = None" and "\<not> isFloating (hideFloatingPlayer w)"
    and "nextNode (hideFloatingPlayer w) = nextNode w"
    and "tagName (hideFloatingPlayer w) = tagName w"
    and "classList (hideFloatingPlayer w) = classList w"
  by (simp_all add: hideFloatingPlayer_eq [OF assms] Let_def split: option.splits)

lemma hideFloatingPlayer_dom:
  assumes wf: "wfdom w" and fl: "floatingAt w vs c"
  shows "kids (hideFloatingPlayer w) =
           (kids w)(c := remove1 (video vs) (kids w c),
                    originalParent vs := swapNode (placeholder vs) (video vs)
                                            (kids w (originalParent vs)))"
    and "parent (hideFloatingPlayer w) =
           (parent w)(video vs := Some (originalParent vs), placeholder vs := None)"
proof -
  let ?v = "video vs" and ?op = "originalParent vs" and ?ph = "placeholder vs"
  have a: "floatingContainer w = Some c" "isFloating w" "videoState w = Some vs"
    using fl by (simp_all add: floatingAt_def)
  have pv: "parent w ?v = Some c" and opc: "?op \<noteq> c"
    and pe: "parentElement w ?ph = Some ?op"
    and af: "after ?ph (kids w ?op) = originalNextSibling vs"
    using fl by (simp_all add: floatingAt_def)
  have pph: "parent w ?ph = Some ?op" using pe by (rule parentElement_parent)
  have phv: "?ph \<noteq> ?v" using pv pph opc by auto
  have d: "distinct (kids w ?op)" using wf by (rule wfdom_distinct)
  have vn: "?v \<notin> set (kids w ?op)"
    using wf pv opc by (metis wfdom_parent option.inject)
  let ?w1 = "restoreStyles ?v w"
  let ?w2 = "case originalNextSibling vs of
               None \<Rightarrow> appendChild ?op ?v ?w1
             | Some s \<Rightarrow>
                 if parent ?w1 s = Some ?op
                 then insertBefore ?op ?v (Some s) ?w1
                 else appendChild ?op ?v ?w1"
  have k2: "kids ?w2 = (kids w)(c := remove1 ?v (kids w c),
              ?op := (case originalNextSibling vs of None \<Rightarrow> kids w ?op @ [?v]
                      | Some s \<Rightarrow> ins ?v s (kids w ?op)))"
  proof (cases "originalNextSibling vs")
    case None
    then show ?thesis
      using pv opc
      by (simp add: appendChild_def kids_insertBefore_None kids_removeFromParent)
  next
    case (Some s)
    with af have "s \<in> set (kids w ?op)" by (simp add: after_mem)
    moreover from this have "parent w s = Some ?op" using wf by (simp add: wfdom_parent)
    ultimately show ?thesis
      using Some pv opc
      by (simp add: kids_insertBefore_Some kids_removeFromParent)
  qed
  have p2: "parent ?w2 = (parent w)(?v := Some ?op)"
  proof (cases "originalNextSibling vs")
    case None
    then show ?thesis by (simp add: appendChild_def parent_insertBefore_None)
  next
    case (Some s)
    with af have "s \<in> set (kids w ?op)" by (simp add: after_mem)
    moreover from this have "parent w s = Some ?op" using wf by (simp add: wfdom_parent)
    ultimately show ?thesis
      using Some by (simp add: parent_insertBefore_Some)
  qed
  have doc2: "document ?w2 = document w"
    by (simp split: option.splits)
  have pe2: "parentElement ?w2 ?ph = Some ?op"
    using pe phv unfolding parentElement_def p2 doc2 by simp
  have sw: "remove1 ?ph (case originalNextSibling vs of None \<Rightarrow> kids w ?op @ [?v]
                          | Some s \<Rightarrow> ins ?v s (kids w ?op))
              = swapNode ?ph ?v (kids w ?op)"
  proof (cases "originalNextSibling vs")
    case None
    have "?ph \<in> set (kids w ?op)" using wf pph by (rule wfdom_child)
    then show ?thesis
      using None d vn af by (simp add: remove1_append_last)
  next
    case (Some s)
    then show ?thesis
      using d vn af by (simp add: remove1_ins_before)
  qed
  have h: "hideFloatingPlayer w =
             (resetContainer c (removeFromParent ?ph ?w2))\<lparr>videoState := None, isFloating := False\<rparr>"
    by (simp add: hideFloatingPlayer_eq [OF a] Let_def pe2)
  have pph2: "parent ?w2 ?ph = Some ?op" using pph phv by (simp add: p2)
  show "kids (hideFloatingPlayer w) =
           (kids w)(c := remove1 ?v (kids w c), ?op := swapNode ?ph ?v (kids w ?op))"
    using opc by (simp add: h kids_removeFromParent pph2 k2 sw)
  show "parent (hideFloatingPlayer w) = (parent w)(?v := Some ?op, ?ph := None)"
    by (simp add: h parent_removeFromParent p2)
qed


lemma restoreStyles_style:
  "originalStyles w v = Some (a, b) \<Longrightarrow>
   style (restoreStyles v w) = (style w)(v := (style w v)(''width'' := a, ''height'' := b))"
  by (simp add: restoreStyles_def Let_def setStyle_def)

lemma resetContainer_style_other:
  "k \<noteq> ''display'' \<Longrightarrow> k \<noteq> ''left'' \<Longrightarrow> k \<noteq> ''top'' \<Longrightarrow> k \<noteq> ''right'' \<Longrightarrow> k \<noteq> ''bottom'' \<Longrightarrow>
   style (resetContainer c w) n k = style w n k"
  by (simp add: resetContainer_def Let_def setStyle_def)

lemma resetContainer_display: "style (resetContainer c w) c ''display'' = ''none''"
  by (simp add: resetContainer_def Let_def setStyle_def)

lemma hideFloatingPlayer_styles:
  assumes a: "floatingContainer w = Some c" "isFloating w" "videoState w = Some vs"
    and o: "originalStyles w (video vs) = Some (a, b)"
  shows "style (hideFloatingPlayer w) (video vs) ''width'' = a"
    and "style (hideFloatingPlayer w) (video vs) ''height'' = b"
    and "style (hideFloatingPlayer w) c ''display'' = ''none''"
  using o
  by (simp_all add: hideFloatingPlayer_eq [OF a] Let_def resetContainer_style_other
      resetContainer_display restoreStyles_style split: option.splits)

lemma hideFloatingPlayer_wfdom:
  assumes wf: "wfdom w" and v: "\<And>vs. videoState w = Some vs \<Longrightarrow> video vs < nextNode w \<and> originalParent vs < nextNode w"
  shows "wfdom (hideFloatingPlayer w)"
proof (cases "\<exists>c vs. floatingContainer w = Some c \<and> isFloating w \<and> videoState w = Some vs")
  case False
  then have "hideFloatingPlayer w = w"
    by (auto simp: hideFloatingPlayer_def split: option.splits)
  then show ?thesis using wf by simp
next
  case True
  then obtain c vs where a: "floatingContainer w = Some c" "isFloating w" "videoState w = Some vs"
    by blast
  let ?v = "video vs" and ?op = "originalParent vs" and ?ph = "placeholder vs"
  let ?w1 = "restoreStyles ?v w"
  let ?w2 = "case originalNextSibling vs of
               None \<Rightarrow> appendChild ?op ?v ?w1
             | Some s \<Rightarrow>
                 if parent ?w1 s = Some ?op
                 then insertBefore ?op ?v (Some s) ?w1
                 else appendChild ?op ?v ?w1"
  let ?w3 = "case parentElement ?w2 ?ph of None \<Rightarrow> ?w2 | Some _ \<Rightarrow> removeFromParent ?ph ?w2"
  have al: "?v < nextNode w" "?op < nextNode w" using v [OF a(3)] by simp_all
  have wf1: "wfdom ?w1" by (rule wfdom_congI [OF wf]) simp_all
  have wf2: "wfdom ?w2"
    using wf1 al
    by (auto split: option.splits intro!: wfdom_insertBefore wfdom_appendChild)
  have wf3: "wfdom ?w3"
    using wf2 by (simp add: wfdom_removeFromParent split: option.splits)
  show ?thesis
    by (rule wfdom_congI [OF wf3]) (simp_all add: hideFloatingPlayer_eq [OF a] Let_def)
qed

lemma showFloatingPlayer_floatingAt:
  assumes wf: "wfdom w" and cf: "canFloat w v c p" and c: "c < nextNode w" and pc: "p \<noteq> c"
  shows "floatingAt (showFloatingPlayer w)
           \<lparr>video = v, originalParent = p, originalNextSibling = nextSibling w v,
             placeholder = nextNode w\<rparr> c"
proof -
  note f = canFloat_facts [OF wf cf]
  have fc: "floatingContainer w = Some c" using cf by (simp add: canFloat_def)
  have notin: "nextNode w \<notin> set (kids w p)" using wf by (rule wfdom_fresh_notin)
  have af: "after (nextNode w) (swapNode v (nextNode w) (kids w p)) = nextSibling w v"
    using wfdom_distinct [OF wf] notin f(1)
    by (simp add: after_swapNode nextSibling_def)
  have pe: "parentElement (showFloatingPlayer w) (nextNode w) = Some p"
    using f by (simp add: parentElement_def showFloatingPlayer_parent [OF wf cf])
  show ?thesis
    unfolding floatingAt_def
    using f pc fc pe af
    by (simp add: showFloatingPlayer_state [OF cf] showFloatingPlayer_parent [OF wf cf]
        showFloatingPlayer_kids [OF wf cf c pc])
qed

lemma hide_show_dom:
  assumes wf: "wfdom w" and cf: "canFloat w v c p" and c: "c < nextNode w" and pc: "p \<noteq> c"
  shows "kids (hideFloatingPlayer (showFloatingPlayer w)) = kids w"
    and "parent (hideFloatingPlayer (showFloatingPlayer w)) = parent w"
proof -
  let ?ph = "nextNode w"
  let ?w1 = "showFloatingPlayer w"
  let ?vs = "\<lparr>video = v, originalParent = p, originalNextSibling = nextSibling w v,
              placeholder = ?ph\<rparr>"
  note f = canFloat_facts [OF wf cf]
  have wf1: "wfdom ?w1" using wf cf c by (rule showFloatingPlayer_wfdom)
  have fl: "floatingAt ?w1 ?vs c" using wf cf c pc by (rule showFloatingPlayer_floatingAt)
  have notin: "?ph \<notin> set (kids w p)" using wf by (rule wfdom_fresh_notin)
  have vc: "v \<notin> set (kids w c)"
    using wf f(1) pc by (metis wfdom_parent option.inject)
  have cph: "c \<noteq> ?ph" using c by simp
  have fr: "kids w ?ph = []" "parent w ?ph = None" using wf by (simp_all add: wfdom_fresh)
  have k1: "kids ?w1 = (kids w)(?ph := [], p := swapNode v ?ph (kids w p), c := kids w c @ [v])"
    using wf cf c pc by (rule showFloatingPlayer_kids)
  have p1: "parent ?w1 = (parent w)(?ph := Some p, v := Some c)"
    using wf cf by (rule showFloatingPlayer_parent)
  have "kids (hideFloatingPlayer ?w1) =
          (kids ?w1)(c := remove1 v (kids ?w1 c), p := swapNode ?ph v (kids ?w1 p))"
    using hideFloatingPlayer_dom(1) [OF wf1 fl] by simp
  also have "\<dots> = (kids w)(?ph := [], p := kids w p, c := kids w c)"
    using pc cph f vc notin
    by (simp add: k1 swapNode_back remove1_append fun_upd_twist)
  also have "\<dots> = kids w"
    using fr by (simp add: fun_upd_idem)
  finally show "kids (hideFloatingPlayer ?w1) = kids w" .
  have "parent (hideFloatingPlayer ?w1) = (parent ?w1)(v := Some p, ?ph := None)"
    using hideFloatingPlayer_dom(2) [OF wf1 fl] by simp
  also have "\<dots> = (parent w)(v := Some p, ?ph := None)"
    using f by (simp add: p1 fun_upd_twist)
  also have "\<dots> = parent w"
    using fr f by (simp add: fun_upd_idem)
  finally show "parent (hideFloatingPlayer ?w1) = parent w" .
qed

subsection \<open>Where hideFloatingPlayer puts the video, in any tree\<close>

lemma last_remove1_snoc:
  "ph \<noteq> v \<Longrightarrow> remove1 ph (xs @ [v]) \<noteq> [] \<and> last (remove1 ph (xs @ [v])) = v"
  by (induction xs) auto

lemma hideFloatingPlayer_placement:
  assumes wf: "wfdom w"
    and a: "floatingContainer w = Some c" "isFloating w" "videoState w = Some vs"
    and al: "video vs < nextNode w" "originalParent vs < nextNode w"
    and ne: "placeholder vs \<noteq> video vs" "originalNextSibling vs \<noteq> Some (video vs)"
      "originalNextSibling vs \<noteq> Some (placeholder vs)"
    and nd: "parent w (placeholder vs) \<noteq> Some (document w)"
  shows "parent (hideFloatingPlayer w) (video vs) = Some (originalParent vs)"
    and "parent (hideFloatingPlayer w) (placeholder vs) = None"
    and "\<And>s. originalNextSibling vs = Some s \<Longrightarrow> parent w s = Some (originalParent vs) \<Longrightarrow>
           after (video vs) (kids (hideFloatingPlayer w) (originalParent vs)) = Some s"
    and "originalNextSibling vs = None \<or>
           (\<exists>s. originalNextSibling vs = Some s \<and> parent w s \<noteq> Some (originalParent vs)) \<Longrightarrow>
         kids (hideFloatingPlayer w) (originalParent vs) \<noteq> [] \<and>
         last (kids (hideFloatingPlayer w) (originalParent vs)) = video vs"
proof -
  let ?v = "video vs" and ?op = "originalParent vs" and ?ph = "placeholder vs"
  let ?w1 = "restoreStyles ?v w"
  let ?w2 = "case originalNextSibling vs of
               None \<Rightarrow> appendChild ?op ?v ?w1
             | Some s \<Rightarrow>
                 if parent ?w1 s = Some ?op
                 then insertBefore ?op ?v (Some s) ?w1
                 else appendChild ?op ?v ?w1"
  let ?w3 = "case parentElement ?w2 ?ph of None \<Rightarrow> ?w2 | Some _ \<Rightarrow> removeFromParent ?ph ?w2"
  let ?K = "kids (removeFromParent ?v ?w1)"
  have wf1: "wfdom ?w1" by (rule wfdom_congI [OF wf]) simp_all
  have wf2: "wfdom ?w2"
    using wf1 al by (auto split: option.splits intro!: wfdom_insertBefore wfdom_appendChild)
  have vK: "?v \<notin> set (?K ?op)" using wf1 by (rule removeFromParent_notin)
  have Kop: "?K ?op = kids w ?op \<or> ?K ?op = remove1 ?v (kids w ?op)"
    by (auto simp: kids_removeFromParent split: option.splits)
  have h: "hideFloatingPlayer w = (resetContainer c ?w3)\<lparr>videoState := None, isFloating := False\<rparr>"
    by (simp add: hideFloatingPlayer_eq [OF a] Let_def)
  have kh: "kids (hideFloatingPlayer w) = kids ?w3" and ph: "parent (hideFloatingPlayer w) = parent ?w3"
    by (simp_all add: h)
  have p2: "parent ?w2 = (parent w)(?v := Some ?op)"
  proof (cases "originalNextSibling vs")
    case None
    then show ?thesis by (simp add: appendChild_def parent_insertBefore_None)
  next
    case (Some s)
    show ?thesis
    proof (cases "parent w s = Some ?op")
      case True
      then have "s \<in> set (kids ?w1 ?op)" using wf by (simp add: wfdom_child)
      then show ?thesis using Some True by (simp add: parent_insertBefore_Some)
    next
      case False
      then show ?thesis using Some by (simp add: appendChild_def parent_insertBefore_None)
    qed
  qed
  have doc2: "document ?w2 = document w" by (simp split: option.splits)
  have p3: "parent ?w3 = (parent w)(?v := Some ?op, ?ph := None)"
  proof (cases "parent w ?ph")
    case None
    then have "parentElement ?w2 ?ph = None"
      using ne(1) unfolding parentElement_def p2 by simp
    moreover have "(parent w)(?v := Some ?op, ?ph := None) = (parent w)(?v := Some ?op)"
      using None ne(1) by (auto simp: fun_eq_iff)
    ultimately show ?thesis by (simp add: p2)
  next
    case (Some q)
    then have "parentElement ?w2 ?ph = Some q"
      using ne(1) nd unfolding parentElement_def p2 doc2 by simp
    then show ?thesis by (simp add: parent_removeFromParent p2)
  qed
  have k3: "kids ?w3 ?op = kids ?w2 ?op \<or> kids ?w3 ?op = remove1 ?ph (kids ?w2 ?op)"
    by (auto simp: kids_removeFromParent split: option.splits)
  show "parent (hideFloatingPlayer w) ?v = Some ?op"
    using ne(1) by (simp add: ph p3)
  show "parent (hideFloatingPlayer w) ?ph = None"
    by (simp add: ph p3)
  show "after ?v (kids (hideFloatingPlayer w) ?op) = Some s"
    if s: "originalNextSibling vs = Some s" and ps: "parent w s = Some ?op" for s
  proof -
    have sin: "s \<in> set (kids w ?op)" using wf ps by (rule wfdom_child)
    have sv: "s \<noteq> ?v" and sph: "?ph \<noteq> s" using ne s by auto
    have sK: "s \<in> set (?K ?op)" using Kop sin sv by auto
    have k2: "kids ?w2 ?op = ins ?v s (?K ?op)"
      using s ps sin by (simp add: kids_insertBefore_Some)
    have af2: "after ?v (kids ?w2 ?op) = Some s"
      unfolding k2 using sK vK by (rule after_ins)
    have d2: "distinct (kids ?w2 ?op)" using wf2 by (rule wfdom_distinct)
    have "after ?v (remove1 ?ph (kids ?w2 ?op)) = Some s"
      using d2 af2 ne(1) sph by (rule after_remove1_other)
    then show ?thesis using k3 af2 by (auto simp: kh)
  qed
  show "kids (hideFloatingPlayer w) ?op \<noteq> [] \<and> last (kids (hideFloatingPlayer w) ?op) = ?v"
    if "originalNextSibling vs = None \<or>
          (\<exists>s. originalNextSibling vs = Some s \<and> parent w s \<noteq> Some ?op)"
  proof -
    have w2: "?w2 = appendChild ?op ?v ?w1"
      using that by (auto split: option.splits)
    have k2: "kids ?w2 ?op = ?K ?op @ [?v]"
      unfolding w2 by (simp add: appendChild_def kids_insertBefore_None)
    show ?thesis
      using k3 last_remove1_snoc [OF ne(1), of "?K ?op"] by (auto simp: kh k2)
  qed
qed

lemma domEdit_fields:
  assumes "domEdit w w'"
  shows "videoState w' = videoState w" "isFloating w' = isFloating w"
    "floatingContainer w' = floatingContainer w" "originalStyles w' = originalStyles w"
    "nextNode w' = nextNode w" "document w' = document w" "style w' = style w"
proof -
  have e: "w' = w\<lparr>kids := kids w', parent := parent w'\<rparr>"
    using assms by (simp add: domEdit_def)
  show "videoState w' = videoState w" by (subst e) simp
  show "isFloating w' = isFloating w" by (subst e) simp
  show "floatingContainer w' = floatingContainer w" by (subst e) simp
  show "originalStyles w' = originalStyles w" by (subst e) simp
  show "nextNode w' = nextNode w" by (subst e) simp
  show "document w' = document w" by (subst e) simp
  show "style w' = style w" by (subst e) simp
qed

lemma domEdit_refl: "domEdit w w"
  by (simp add: domEdit_def)

lemma wfdom_demoDocked: "wfdom demoDocked"
  unfolding wfdom_def
  by (auto simp: demoDocked_def demoPage_def split: if_splits)

lemma canFloat_demoDocked: "canFloat demoDocked 4 10 3"
  by (simp add: canFloat_def parentElement_def demoDocked_def demoPage_def)



subsection \<open>Fields the handlers leave alone\<close>

lemma closeClick_fields [simp]:
  "tagName (closeClick w) = tagName w"
  "classList (closeClick w) = classList w"
  "elemId (closeClick w) = elemId w"
  "blockid (closeClick w) = blockid w"
  "nextNode (closeClick w) = nextNode w"
  "document (closeClick w) = document w"
  "body (closeClick w) = body w"
  "offsetWidth (closeClick w) = offsetWidth w"
  "offsetHeight (closeClick w) = offsetHeight w"
  "boundingRect (closeClick w) = boundingRect w"
  "innerWidth (closeClick w) = innerWidth w"
  "innerHeight (closeClick w) = innerHeight w"
  "paused (closeClick w) = paused w"
  "currentTime (closeClick w) = currentTime w"
  "recentlyPlayedVideo (closeClick w) = recentlyPlayedVideo w"
  "floatingContainer (closeClick w) = floatingContainer w"
  "observer (closeClick w) = observer w"
  "isDragging (closeClick w) = isDragging w"
  "dragOffset (closeClick w) = dragOffset w"
  "currentSettings (closeClick w) = currentSettings w"
  "dragDoc (closeClick w) = dragDoc w"
  "playListener (closeClick w) = playListener w"
  "console (closeClick w) = console w"
  "uiMsgs (closeClick w) = uiMsgs w"
  "editorText (closeClick w) = editorText w"
  by (simp_all add: closeClick_def)

lemma handleVideoPlay_fields [simp]:
  "tagName (handleVideoPlay v w) = tagName w"
  "classList (handleVideoPlay v w) = classList w"
  "elemId (handleVideoPlay v w) = elemId w"
  "blockid (handleVideoPlay v w) = blockid w"
  "nextNode (handleVideoPlay v w) = nextNode w"
  "document (handleVideoPlay v w) = document w"
  "body (handleVideoPlay v w) = body w"
  "offsetWidth (handleVideoPlay v w) = offsetWidth w"
  "offsetHeight (handleVideoPlay v w) = offsetHeight w"
  "boundingRect (handleVideoPlay v w) = boundingRect w"
  "innerWidth (handleVideoPlay v w) = innerWidth w"
  "innerHeight (handleVideoPlay v w) = innerHeight w"
  "paused (handleVideoPlay v w) = paused w"
  "currentTime (handleVideoPlay v w) = currentTime w"
  "floatingContainer (handleVideoPlay v w) = floatingContainer w"
  "isDragging (handleVideoPlay v w) = isDragging w"
  "dragOffset (handleVideoPlay v w) = dragOffset w"
  "currentSettings (handleVideoPlay v w) = currentSettings w"
  "dragDoc (handleVideoPlay v w) = dragDoc w"
  "playListener (handleVideoPlay v w) = playListener w"
  "console (handleVideoPlay v w) = console w"
  "uiMsgs (handleVideoPlay v w) = uiMsgs w"
  "editorText (handleVideoPlay v w) = editorText w"
  by (simp_all add: handleVideoPlay_def Let_def split: option.splits)

lemma handleEntry_fields [simp]:
  "document (handleEntry en w) = document w"
  "body (handleEntry en w) = body w"
  "offsetWidth (handleEntry en w) = offsetWidth w"
  "offsetHeight (handleEntry en w) = offsetHeight w"
  "boundingRect (handleEntry en w) = boundingRect w"
  "innerWidth (handleEntry en w) = innerWidth w"
  "innerHeight (handleEntry en w) = innerHeight w"
  "paused (handleEntry en w) = paused w"
  "currentTime (handleEntry en w) = currentTime w"
  "recentlyPlayedVideo (handleEntry en w) = recentlyPlayedVideo w"
  "floatingContainer (handleEntry en w) = floatingContainer w"
  "isDragging (handleEntry en w) = isDragging w"
  "dragOffset (handleEntry en w) = dragOffset w"
  "currentSettings (handleEntry en w) = currentSettings w"
  "dragDoc (handleEntry en w) = dragDoc w"
  "playListener (handleEntry en w) = playListener w"
  "console (handleEntry en w) = console w"
  "uiMsgs (handleEntry en w) = uiMsgs w"
  "editorText (handleEntry en w) = editorText w"
  by (simp_all add: handleEntry_def Let_def split: option.splits)

lemma returnFloatingVideo_fields [simp]:
  "tagName (returnFloatingVideo b w) = tagName w"
  "classList (returnFloatingVideo b w) = classList w"
  "elemId (returnFloatingVideo b w) = elemId w"
  "blockid (returnFloatingVideo b w) = blockid w"
  "nextNode (returnFloatingVideo b w) = nextNode w"
  "document (returnFloatingVideo b w) = document w"
  "body (returnFloatingVideo b w) = body w"
  "offsetWidth (returnFloatingVideo b w) = offsetWidth w"
  "offsetHeight (returnFloatingVideo b w) = offsetHeight w"
  "boundingRect (returnFloatingVideo b w) = boundingRect w"
  "innerWidth (returnFloatingVideo b w) = innerWidth w"
  "innerHeight (returnFloatingVideo b w) = innerHeight w"
  "currentTime (returnFloatingVideo b w) = currentTime w"
  "recentlyPlayedVideo (returnFloatingVideo b w) = recentlyPlayedVideo w"
  "floatingContainer (returnFloatingVideo b w) = floatingContainer w"
  "observer (returnFloatingVideo b w) = observer w"
  "isManuallyHidden (returnFloatingVideo b w) = isManuallyHidden w"
  "isDragging (returnFloatingVideo b w) = isDragging w"
  "dragOffset (returnFloatingVideo b w) = dragOffset w"
  "currentSettings (returnFloatingVideo b w) = currentSettings w"
  "dragDoc (returnFloatingVideo b w) = dragDoc w"
  "playListener (returnFloatingVideo b w) = playListener w"
  "console (returnFloatingVideo b w) = console w"
  "uiMsgs (returnFloatingVideo b w) = uiMsgs w"
  "editorText (returnFloatingVideo b w) = editorText w"
  by (simp_all add: returnFloatingVideo_def split: option.splits)

lemma updateFloatingPlayerSettings_fields [simp]:
  "tagName (updateFloatingPlayerSettings s w) = tagName w"
  "classList (updateFloatingPlayerSettings s w) = classList w"
  "elemId (updateFloatingPlayerSettings s w) = elemId w"
  "blockid (updateFloatingPlayerSettings s w) = blockid w"
  "nextNode (updateFloatingPlayerSettings s w) = nextNode w"
  "document (updateFloatingPlayerSettings s w) = document w"
  "body (updateFloatingPlayerSettings s w) = body w"
  "offsetWidth (updateFloatingPlayerSettings s w) = offsetWidth w"
  "offsetHeight (updateFloatingPlayerSettings s w) = offsetHeight w"
  "boundingRect (updateFloatingPlayerSettings s w) = boundingRect w"
  "innerWidth (updateFloatingPlayerSettings s w) = innerWidth w"
  "innerHeight (updateFloatingPlayerSettings s w) = innerHeight w"
  "paused (updateFloatingPlayerSettings s w) = paused w"
  "currentTime (updateFloatingPlayerSettings s w) = currentTime w"
  "recentlyPlayedVideo (updateFloatingPlayerSettings s w) = recentlyPlayedVideo w"
  "floatingContainer (updateFloatingPlayerSettings s w) = floatingContainer w"
  "observer (updateFloatingPlayerSettings s w) = observer w"
  "isManuallyHidden (updateFloatingPlayerSettings s w) = isManuallyHidden w"
  "isDragging (updateFloatingPlayerSettings s w) = isDragging w"
  "dragOffset (updateFloatingPlayerSettings s w) = dragOffset w"
  "dragDoc (updateFloatingPlayerSettings s w) = dragDoc w"
  "playListener (updateFloatingPlayerSettings s w) = playListener w"
  "console (updateFloatingPlayerSettings s w) = console w"
  "uiMsgs (updateFloatingPlayerSettings s w) = uiMsgs w"
  "editorText (updateFloatingPlayerSettings s w) = editorText w"
  by (simp_all add: updateFloatingPlayerSettings_def Let_def split: option.splits)


lemma handleIntersection_fields [simp]:
  "floatingContainer (handleIntersection ens w) = floatingContainer w"
  "recentlyPlayedVideo (handleIntersection ens w) = recentlyPlayedVideo w"
  "currentSettings (handleIntersection ens w) = currentSettings w"
  "playListener (handleIntersection ens w) = playListener w"
  "document (handleIntersection ens w) = document w"
  "dragDoc (handleIntersection ens w) = dragDoc w"
  unfolding handleIntersection_def
  by (induction ens arbitrary: w; simp)+

subsection \<open>After the close button\<close>








lemma closeClick_eq:
  "closeClick w = (hideFloatingPlayer w)\<lparr>isManuallyHidden := True\<rparr>"
  by (simp add: closeClick_def)


lemma wfdom_demoFloating: "wfdom demoFloating"
  unfolding wfdom_def
  by (auto simp: demoFloating_def demoDocked_def demoPage_def split: if_splits)

lemma floatingAt_demoFloating: "floatingAt demoFloating demoVideoState 10"
  by (simp add: floatingAt_def parentElement_def demoVideoState_def demoFloating_def
      demoDocked_def demoPage_def)

lemma demoFloating_engine:
  "recentlyPlayedVideo demoFloating = Some 4" "playListener demoFloating"
  "floatingContainer demoFloating = Some 10" "isFloating demoFloating"
  "videoState demoFloating = Some demoVideoState" "nextNode demoFloating = 14"
  "observer demoFloating = Some [13]" "enabled (currentSettings demoFloating)"
  "document demoFloating = 0"
  by (simp_all add: demoVideoState_def demoFloating_def demoDocked_def demoPage_def)

lemma demoFloating_tags:
  "tagName demoFloating 4 = ''VIDEO''" "tagName demoFloating 7 = ''VIDEO''"
  "parent demoFloating 7 = Some 6"
  by (simp_all add: demoFloating_def demoDocked_def demoPage_def)

lemma parentElement_eqI:
  "parent w' = parent w \<Longrightarrow> document w' = document w \<Longrightarrow> parentElement w' n = parentElement w n"
  by (cases "parent w n") (simp_all add: parentElement_def)

subsection \<open>The locator\<close>

lemma blockContainer_id:
  "getElementById w (''ls-block-'' @ b) = Some c \<Longrightarrow> blockContainer h w b = Inr (Some c)"
  by (simp add: blockContainer_def)

lemma blockContainer_plain:
  "plainValue b \<Longrightarrow> \<exists>r. blockContainer h w b = Inr r"
  by (simp add: blockContainer_def split: option.splits)

lemma blockContainer_selector:
  "getElementById w (''ls-block-'' @ b) = None \<Longrightarrow> \<not> plainValue b \<Longrightarrow>
   blockContainer h w b =
     selectorQuery h w (''div[blockid='' @ [CHR 0x22] @ b @ [CHR 0x22] @ '']'')"
  by (simp add: blockContainer_def)

lemma findVideoInBlock_selector_throws:
  "getElementById w (''ls-block-'' @ b) = None \<Longrightarrow> \<not> plainValue b \<Longrightarrow>
   selectorQuery h w (''div[blockid='' @ [CHR 0x22] @ b @ [CHR 0x22] @ '']'') = Inl e \<Longrightarrow>
   findVideoInBlock h w b = Inl e"
  by (simp add: findVideoInBlock_def blockContainer_selector)

lemma findVideoInBlock_id:
  "getElementById w (''ls-block-'' @ b) = Some c \<Longrightarrow>
   findVideoInBlock h w b = Inr (querySelector w c (isVideo w))"
  by (simp add: findVideoInBlock_def blockContainer_id)

lemma inBlock_id:
  "getElementById w (''ls-block-'' @ b) = Some c \<Longrightarrow> inBlock h w b n = (n \<in> set (subtree w c))"
  by (simp add: inBlock_def blockContainer_id)

lemma hasPlaceholder_iff:
  "blockContainer h w b = Inr r \<Longrightarrow>
   hasPlaceholder h w b = Inr (\<exists>n. inBlock h w b n \<and> hasClass w placeholderClass n)"
  by (auto simp: hasPlaceholder_def inBlock_def querySelector_def placeholderClass_def
      find_None_iff split: option.splits)

lemma anyHasPlaceholder_answers:
  "\<forall>b\<in>set bs. \<exists>r. blockContainer h w b = Inr r \<Longrightarrow>
   anyHasPlaceholder h w bs =
     Inr (\<exists>b\<in>set bs. \<exists>n. inBlock h w b n \<and> hasClass w placeholderClass n)"
proof (induction bs)
  case Nil
  then show ?case by simp
next
  case (Cons b bs)
  from Cons.prems obtain r where r: "blockContainer h w b = Inr r" by auto
  have ih: "anyHasPlaceholder h w bs =
              Inr (\<exists>b\<in>set bs. \<exists>n. inBlock h w b n \<and> hasClass w placeholderClass n)"
    using Cons by simp
  show ?case
    by (auto simp: hasPlaceholder_iff [OF r] ih)
qed

lemma getVideoEl_resolved:
  assumes "getBlock h 0 (Str u) = Inr (Some blk)"
    and "resolveRelated h 1 (left blk) = Inr (ls, n1)"
    and "resolveRelated h n1 (parent_ref blk) = Inr (ps, n2)"
  shows "getVideoEl h u w =
     (case getFloatingVideo w of
        None \<Rightarrow> domSearch h n2 blk w
      | Some floatingVideo \<Rightarrow>
          (case anyHasPlaceholder h w (uuid blk # ls @ ps) of
             Inl e \<Rightarrow> (Inl e, w)
           | Inr found \<Rightarrow>
               if found then (Inr (Some floatingVideo), w)
               else domSearch h n2 blk (returnFloatingVideo True w)))"
  using assms by (simp add: getVideoEl_def Let_def)

lemma getVideoEl_sibling_throws:
  assumes "getBlock h 0 (Str u) = Inr (Some blk)"
    and "resolveRelated h 1 (left blk) = Inl e"
  shows "getVideoEl h u w = (Inl e, w)"
  using assms by (simp add: getVideoEl_def)

lemma getVideoEl_parent_throws:
  assumes "getBlock h 0 (Str u) = Inr (Some blk)"
    and "resolveRelated h 1 (left blk) = Inr (ls, n1)"
    and "resolveRelated h n1 (parent_ref blk) = Inl e"
  shows "getVideoEl h u w = (Inl e, w)"
  using assms by (simp add: getVideoEl_def)

lemma domSearch_current:
  "findVideoInBlock h w (uuid blk) = Inr (Some v) \<Longrightarrow> domSearch h n blk w = (Inr (Some v), w)"
  by (simp add: domSearch_def)

text \<open>
  A selector text that the browser refuses: the search of the current block (line 196)
  throws, the search of a related block (lines 205 and 219) is logged and skipped.
\<close>

lemma domSearch_current_throws:
  "findVideoInBlock h w (uuid blk) = Inl e \<Longrightarrow> domSearch h n blk w = (Inl e, w)"
  by (simp add: domSearch_def)

lemma searchRelated_throws:
  "truthy l \<Longrightarrow> getBlock h n (refId l) = Inr (Some b) \<Longrightarrow>
   findVideoInBlock h w (uuid b) = Inl e \<Longrightarrow>
   searchRelated h n msg (Some l) w = (None, Suc n, w\<lparr>console := console w @ [msg]\<rparr>)"
  by (simp add: searchRelated_def)

lemma searchRelated_resolved:
  "truthy l \<Longrightarrow> getBlock h n (refId l) = Inr (Some b) \<Longrightarrow>
   findVideoInBlock h w (uuid b) = Inr r \<Longrightarrow>
   searchRelated h n msg (Some l) w = (r, Suc n, w)"
  by (simp add: searchRelated_def)

lemma returnFloatingVideo_floatingAt:
  assumes wf: "wfdom w" and fl: "floatingAt w vs c"
  shows "\<not> isFloating (returnFloatingVideo True w)"
    and "parent (returnFloatingVideo True w) (video vs) = Some (originalParent vs)"
    and "nextSibling (returnFloatingVideo True w) (video vs) = originalNextSibling vs"
    and "paused (returnFloatingVideo True w) (video vs)"
proof -
  let ?v = "video vs" and ?op = "originalParent vs" and ?ph = "placeholder vs"
  let ?wp = "w\<lparr>paused := (paused w)(?v := True)\<rparr>"
  have a: "floatingContainer w = Some c" "isFloating w" "videoState w = Some vs"
    using fl by (simp_all add: floatingAt_def)
  have r: "returnFloatingVideo True w = hideFloatingPlayer ?wp"
    using a by (simp add: returnFloatingVideo_def)
  have pe: "parentElement ?wp ?ph = parentElement w ?ph"
    by (rule parentElement_eqI) simp_all
  have wfp: "wfdom ?wp" by (rule wfdom_congI [OF wf]) simp_all
  have flp: "floatingAt ?wp vs c"
    using fl pe by (simp add: floatingAt_def)
  have ap: "floatingContainer ?wp = Some c" "isFloating ?wp" "videoState ?wp = Some vs"
    using a by simp_all
  have pv: "parent w ?v = Some c" and opc: "?op \<noteq> c"
    and af: "after ?ph (kids w ?op) = originalNextSibling vs"
    and pph: "parentElement w ?ph = Some ?op"
    using fl by (simp_all add: floatingAt_def)
  have vn: "?v \<notin> set (kids w ?op)"
    using wf pv opc by (metis wfdom_parent option.inject)
  have phv: "?ph \<noteq> ?v"
    using pv opc parentElement_parent [OF pph] by auto
  note hd = hideFloatingPlayer_dom [OF wfp flp]
  show "\<not> isFloating (returnFloatingVideo True w)"
    using hideFloatingPlayer_state(2) [OF ap] by (simp add: r)
  show p: "parent (returnFloatingVideo True w) ?v = Some ?op"
    using phv by (simp add: r hd(2))
  have "kids (returnFloatingVideo True w) ?op = swapNode ?ph ?v (kids w ?op)"
    using opc by (simp add: r hd(1))
  moreover have "after ?v (swapNode ?ph ?v (kids w ?op)) = after ?ph (kids w ?op)"
    using wfdom_distinct [OF wf] vn by (rule after_swapNode)
  ultimately show "nextSibling (returnFloatingVideo True w) ?v = originalNextSibling vs"
    using af p by (simp add: nextSibling_def)
  show "paused (returnFloatingVideo True w) ?v"
    by (simp add: r)
qed

text \<open>
  When the lookups of lines 169 to 178 return and every candidate block's container is
  found or looked up without an exception: with a floating video whose placeholder lies
  in a candidate block the floating video is the result; otherwise it is paused and put
  back first and the search runs on that tree.
\<close>

lemma getVideoEl_floating:
  assumes b0: "getBlock h 0 (Str u) = Inr (Some blk)"
    and b1: "resolveRelated h 1 (left blk) = Inr (ls, n1)"
    and b2: "resolveRelated h n1 (parent_ref blk) = Inr (ps, n2)"
    and an: "\<forall>b\<in>set (uuid blk # ls @ ps). \<exists>r. blockContainer h w b = Inr r"
    and wf: "wfdom w" and fl: "floatingAt w vs c"
    and cl: "hasClass w placeholderClass (placeholder vs)"
    and un: "\<forall>b\<in>set (uuid blk # ls @ ps). \<forall>n.
               inBlock h w b n \<and> hasClass w placeholderClass n \<longrightarrow> n = placeholder vs"
  shows "((\<exists>b\<in>set (uuid blk # ls @ ps). inBlock h w b (placeholder vs)) \<longrightarrow>
            getVideoEl h u w = (Inr (Some (video vs)), w)) \<and>
         (\<not> (\<exists>b\<in>set (uuid blk # ls @ ps). inBlock h w b (placeholder vs)) \<longrightarrow>
            (let w' = returnFloatingVideo True w
             in getVideoEl h u w = domSearch h n2 blk w' \<and> \<not> isFloating w' \<and>
                parent w' (video vs) = Some (originalParent vs) \<and>
                nextSibling w' (video vs) = originalNextSibling vs \<and>
                paused w' (video vs)))"
proof -
  have fv: "getFloatingVideo w = Some (video vs)"
    using fl by (simp add: getFloatingVideo_def floatingAt_def)
  have hp: "(\<exists>b\<in>set (uuid blk # ls @ ps). \<exists>n. inBlock h w b n \<and> hasClass w placeholderClass n) =
            (\<exists>b\<in>set (uuid blk # ls @ ps). inBlock h w b (placeholder vs))"
    using cl un by blast
  note g = getVideoEl_resolved [OF b0 b1 b2, of w]
  have g': "getVideoEl h u w =
              (if \<exists>b\<in>set (uuid blk # ls @ ps). inBlock h w b (placeholder vs)
               then (Inr (Some (video vs)), w)
               else domSearch h n2 blk (returnFloatingVideo True w))"
    by (simp only: g fv option.case anyHasPlaceholder_answers [OF an] hp sum.case)
  have A: "(\<exists>b\<in>set (uuid blk # ls @ ps). inBlock h w b (placeholder vs)) \<longrightarrow>
             getVideoEl h u w = (Inr (Some (video vs)), w)"
    using g' by presburger
  have B: "\<not> (\<exists>b\<in>set (uuid blk # ls @ ps). inBlock h w b (placeholder vs)) \<longrightarrow>
             getVideoEl h u w = domSearch h n2 blk (returnFloatingVideo True w)"
    using g' by presburger
  note r = returnFloatingVideo_floatingAt [OF wf fl]
  show ?thesis
    using A B r unfolding Let_def by blast
qed

text \<open>
  When the lookups of lines 169 to 178 return and no video floats, the result is the
  search of lines 194 to 227: the first video in the order current block, left sibling,
  parent block.
\<close>

lemma getVideoEl_docked:
  assumes b0: "getBlock h 0 (Str u) = Inr (Some blk)"
    and b1: "resolveRelated h 1 (left blk) = Inr (ls, n1)"
    and b2: "resolveRelated h n1 (parent_ref blk) = Inr (ps, n2)"
    and nf: "getFloatingVideo w = None"
  shows "getVideoEl h u w = domSearch h n2 blk w \<and>
         (\<forall>v. findVideoInBlock h w (uuid blk) = Inr (Some v) \<longrightarrow>
              getVideoEl h u w = (Inr (Some v), w)) \<and>
         (\<forall>l q lb pb cv lv pv.
             left blk = Some l \<and> truthy l \<and> getBlock h n2 (refId l) = Inr (Some lb) \<and>
             parent_ref blk = Some q \<and> truthy q \<and>
             getBlock h (Suc n2) (refId q) = Inr (Some pb) \<and>
             findVideoInBlock h w (uuid blk) = Inr cv \<and>
             findVideoInBlock h w (uuid lb) = Inr lv \<and>
             findVideoInBlock h w (uuid pb) = Inr pv \<longrightarrow>
             getVideoEl h u w =
               (Inr (case cv of
                       Some v \<Rightarrow> Some v
                     | None \<Rightarrow> (case lv of Some v \<Rightarrow> Some v | None \<Rightarrow> pv)), w))"
proof -
  have g: "getVideoEl h u w = domSearch h n2 blk w"
    using getVideoEl_resolved [OF b0 b1 b2, of w] nf by simp
  have A: "\<forall>v. findVideoInBlock h w (uuid blk) = Inr (Some v) \<longrightarrow>
             getVideoEl h u w = (Inr (Some v), w)"
    by (simp add: g domSearch_current)
  have B: "\<forall>l q lb pb cv lv pv.
             left blk = Some l \<and> truthy l \<and> getBlock h n2 (refId l) = Inr (Some lb) \<and>
             parent_ref blk = Some q \<and> truthy q \<and>
             getBlock h (Suc n2) (refId q) = Inr (Some pb) \<and>
             findVideoInBlock h w (uuid blk) = Inr cv \<and>
             findVideoInBlock h w (uuid lb) = Inr lv \<and>
             findVideoInBlock h w (uuid pb) = Inr pv \<longrightarrow>
             getVideoEl h u w =
               (Inr (case cv of
                       Some v \<Rightarrow> Some v
                     | None \<Rightarrow> (case lv of Some v \<Rightarrow> Some v | None \<Rightarrow> pv)), w)"
    by (auto simp: g domSearch_def searchRelated_resolved split: option.splits)
  show ?thesis using g A B by blast
qed

lemma demo_ids:
  "getElementById demoDocked ''ls-block-cur'' = Some 3"
  "getElementById demoDocked ''ls-block-left'' = Some 6"
  "getElementById demoDocked ''ls-block-par'' = Some 8"
  "getElementById demoFloating ''ls-block-cur'' = Some 3"
  "getElementById demoFloating ''ls-block-left'' = Some 6"
  "getElementById demoFloating ''ls-block-par'' = Some 8"
  by code_simp+

lemma demo_blocks:
  "blockContainer h demoDocked ''cur'' = Inr (Some 3)"
  "blockContainer h demoDocked ''left'' = Inr (Some 6)"
  "blockContainer h demoDocked ''par'' = Inr (Some 8)"
  "findVideoInBlock h demoDocked ''cur'' = Inr (Some 4)"
  "findVideoInBlock h demoDocked ''left'' = Inr (Some 7)"
  "findVideoInBlock h demoDocked ''par'' = Inr (Some 9)"
proof -
  have q: "querySelector demoDocked 3 (isVideo demoDocked) = Some 4"
    "querySelector demoDocked 6 (isVideo demoDocked) = Some 7"
    "querySelector demoDocked 8 (isVideo demoDocked) = Some 9"
    by code_simp+
  have i: "getElementById demoDocked (''ls-block-'' @ ''cur'') = Some 3"
    "getElementById demoDocked (''ls-block-'' @ ''left'') = Some 6"
    "getElementById demoDocked (''ls-block-'' @ ''par'') = Some 8"
    using demo_ids by simp_all
  show "blockContainer h demoDocked ''cur'' = Inr (Some 3)"
    "blockContainer h demoDocked ''left'' = Inr (Some 6)"
    "blockContainer h demoDocked ''par'' = Inr (Some 8)"
    using i by (simp_all only: blockContainer_id)
  show "findVideoInBlock h demoDocked ''cur'' = Inr (Some 4)"
    "findVideoInBlock h demoDocked ''left'' = Inr (Some 7)"
    "findVideoInBlock h demoDocked ''par'' = Inr (Some 9)"
    using i q by (simp_all only: findVideoInBlock_id)
qed

lemma demo_floating_blocks:
  "inBlock h demoFloating ''cur'' n = (n = 13 \<or> n = 5)"
  "inBlock h demoFloating ''left'' n = (n = 7)"
  "inBlock h demoFloating ''par'' n = (n = 9)"
  "blockContainer h demoFloating ''cur'' = Inr (Some 3)"
  "blockContainer h demoFloating ''left'' = Inr (Some 6)"
  "blockContainer h demoFloating ''par'' = Inr (Some 8)"
proof -
  have i: "getElementById demoFloating (''ls-block-'' @ ''cur'') = Some 3"
    "getElementById demoFloating (''ls-block-'' @ ''left'') = Some 6"
    "getElementById demoFloating (''ls-block-'' @ ''par'') = Some 8"
    using demo_ids by simp_all
  have s: "subtree demoFloating 3 = [13, 5]" "subtree demoFloating 6 = [7]"
    "subtree demoFloating 8 = [9]"
    by code_simp+
  show "inBlock h demoFloating ''cur'' n = (n = 13 \<or> n = 5)"
    "inBlock h demoFloating ''left'' n = (n = 7)"
    "inBlock h demoFloating ''par'' n = (n = 9)"
    by (simp_all add: inBlock_id [OF i(1)] inBlock_id [OF i(2)] inBlock_id [OF i(3)] s)
  show "blockContainer h demoFloating ''cur'' = Inr (Some 3)"
    "blockContainer h demoFloating ''left'' = Inr (Some 6)"
    "blockContainer h demoFloating ''par'' = Inr (Some 8)"
    using i by (simp_all only: blockContainer_id)
qed

lemma demo_floating_class:
  "hasClass demoFloating placeholderClass n = (n = 13)"
  by (simp add: hasClass_def placeholderClass_def demoFloating_def demoDocked_def demoPage_def)

lemma demoHost_answers:
  "getBlock demoHost n (Str ''cur'') =
     Inr (Some \<lparr>uuid = ''cur'', left = Some (Obj (Some 6)), parent_ref = Some (Obj (Some 8))\<rparr>)"
  "getBlock demoHost n (Str ''par'') = Inr (Some \<lparr>uuid = ''par'', left = None, parent_ref = None\<rparr>)"
  "getBlock demoHost n (Num 6) =
     Inr (Some \<lparr>uuid = ''left'', left = None, parent_ref = Some (Obj (Some 8))\<rparr>)"
  "getBlock demoHost n (Num 8) = Inr (Some \<lparr>uuid = ''par'', left = None, parent_ref = None\<rparr>)"
  by (simp_all add: demoHost_def)

lemma demoHost_resolves:
  "resolveRelated demoHost 1 (Some (Obj (Some 6))) = Inr ([''left''], 2)"
  "resolveRelated demoHost 2 (Some (Obj (Some 8))) = Inr ([''par''], 3)"
  by (simp_all add: resolveRelated_def truthy_def refId_def demoHost_answers)

text \<open>
  A uuid with a double quote that is no element's id: the selector text is
  \<open>div[blockid="a""]\<close>, the browser refuses it, and \<open>getVideoEl\<close> throws at line 196.
\<close>

lemma getVideoEl_quoted_uuid_throws:
  "getVideoEl demoHostQuoted u demoDocked =
     (Inl (SyntaxError (''div[blockid='' @ [CHR 0x22, CHR ''a'', CHR 0x22, CHR 0x22] @ '']'')),
      demoDocked)"
proof -
  let ?blk = "\<lparr>uuid = [CHR ''a'', CHR 0x22], left = None, parent_ref = None\<rparr>"
  have b0: "getBlock demoHostQuoted 0 (Str u) = Inr (Some ?blk)"
    by (simp add: demoHostQuoted_def)
  have b1: "resolveRelated demoHostQuoted 1 (left ?blk) = Inr ([], 1)"
    by (simp add: resolveRelated_def)
  have b2: "resolveRelated demoHostQuoted 1 (parent_ref ?blk) = Inr ([], 1)"
    by (simp add: resolveRelated_def)
  have nf: "getFloatingVideo demoDocked = None"
    by (simp add: getFloatingVideo_def demoDocked_def demoPage_def)
  have i: "getElementById demoDocked (''ls-block-'' @ [CHR ''a'', CHR 0x22]) = None"
    by code_simp
  have np: "\<not> plainValue [CHR ''a'', CHR 0x22]"
    by (simp add: plainValue_def cssSpecial_def)
  have q: "selectorQuery demoHostQuoted demoDocked
             (''div[blockid='' @ [CHR 0x22] @ [CHR ''a'', CHR 0x22] @ [CHR 0x22] @ '']'') =
           Inl (SyntaxError (''div[blockid='' @ [CHR 0x22, CHR ''a'', CHR 0x22, CHR 0x22] @ '']''))"
    by (simp add: demoHostQuoted_def demoHost_def)
  have f: "findVideoInBlock demoHostQuoted demoDocked (uuid ?blk) =
             Inl (SyntaxError (''div[blockid='' @ [CHR 0x22, CHR ''a'', CHR 0x22, CHR 0x22] @ '']''))"
    using findVideoInBlock_selector_throws [OF i np q] by simp
  show ?thesis
    using getVideoEl_resolved [OF b0 b1 b2, of demoDocked] nf domSearch_current_throws [OF f]
    by simp
qed

subsection \<open>Macro text\<close>

lemma splitOn_no_sep: "c \<notin> set a \<Longrightarrow> splitOn c a = [a]"
  by (induction a) auto

lemma splitOn_append: "c \<notin> set a \<Longrightarrow> splitOn c (a @ c # b) = a # splitOn c b"
  by (induction a) auto

lemma drop_len_append: "drop (length a) (a @ b) = b"
  by simp

lemma macroArguments_wrap:
  "macroArguments (''{{renderer '' @ x @ ''}}'') = Some (map trim (splitOn (CHR '','') x))"
proof -
  let ?t = "''{{renderer '' @ x @ ''}}''"
  have l: "length ?t = 13 + length x" by simp
  have a: "take 11 ?t = ''{{renderer ''" by simp
  have e: "drop (length (''{{renderer '' @ x)) ((''{{renderer '' @ x) @ ''}}'') = ''}}''"
    by (rule drop_len_append)
  have l2: "length ?t - 2 = length (''{{renderer '' @ x)" by simp
  have b: "drop (length ?t - 2) ?t = ''}}''"
    using e unfolding l2 by simp
  have c: "drop 11 (take (length ?t - 2) ?t) = x"
    by simp
  show ?thesis
    unfolding macroArguments_def using a b c l by simp
qed


lemma trim_timestamp_type:
  assumes "\<forall>c\<in>set u. c \<noteq> CHR '','' \<and> \<not> isWhite c"
  shows "trim ('':mediatimestamp_'' @ u) = '':mediatimestamp_'' @ u"
proof -
  let ?s = "'':mediatimestamp_'' @ u"
  have nw: "\<forall>c\<in>set ?s. \<not> isWhite c"
    using assms by (auto simp: isWhite_def)
  have a: "dropWhile isWhite ?s = ?s"
    by (simp add: isWhite_def)
  have "\<forall>c\<in>set (rev ?s). \<not> isWhite c" using nw by simp
  then have b: "dropWhile isWhite (rev ?s) = rev ?s"
    by (metis dropWhile_eq_self_iff hd_in_set)
  show ?thesis
    unfolding trim_def a b by simp
qed

lemma macroArguments_timestamp:
  assumes "\<forall>c\<in>set u. c \<noteq> CHR '','' \<and> \<not> isWhite c"
  shows "macroArguments (''{{renderer :mediatimestamp_'' @ u @ '', 125.7}}'')
           = Some ['':mediatimestamp_'' @ u, ''125.7'']"
proof -
  let ?ty = "'':mediatimestamp_'' @ u"
  have t: "''{{renderer :mediatimestamp_'' @ u @ '', 125.7}}''
             = ''{{renderer '' @ (?ty @ CHR '','' # '' 125.7'') @ ''}}''"
    by simp
  have n: "CHR '','' \<notin> set ?ty" using assms by auto
  have s: "splitOn (CHR '','') (?ty @ CHR '','' # '' 125.7'') = [?ty, '' 125.7'']"
    by (simp only: splitOn_append [OF n]) (simp add: splitOn_no_sep)
  have tr: "trim '' 125.7'' = ''125.7''"
    by (simp add: trim_def isWhite_def)
  show ?thesis
    unfolding t macroArguments_wrap s
    by (simp only: list.map trim_timestamp_type [OF assms] tr)
qed

lemma parseInt_125_7: "parseInt ''125.7'' = Some 125"
  by (simp add: parseInt_def Let_def isWhite_def isDigitOf_def digitValue_def digitsValue_def)

lemma show_int_125: "show_int 125 = ''125''"
  by (simp add: show_int_def show_nat_def show_digits_unfold digit_char_def)

lemma numToString_125_7: "numToString (Decimal 125 [7]) = ''125.7''"
  by (simp add: numToString_def show_nat_def show_digits_unfold digit_char_def)

lemma demoPlaying_located: "getVideoEl demoHost ''cur'' demoPlaying = (Inr (Some 4), demoPlaying)"
proof -
  let ?cur = "\<lparr>uuid = ''cur'', left = Some (Obj (Some 6)), parent_ref = Some (Obj (Some 8))\<rparr>"
  have b0: "getBlock demoHost 0 (Str ''cur'') = Inr (Some ?cur)" by (rule demoHost_answers)
  have b1: "resolveRelated demoHost 1 (left ?cur) = Inr ([''left''], 2)"
    using demoHost_resolves by simp
  have b2: "resolveRelated demoHost 2 (parent_ref ?cur) = Inr ([''par''], 3)"
    using demoHost_resolves by simp
  have nf: "getFloatingVideo demoPlaying = None"
    by (simp add: getFloatingVideo_def demoPlaying_def demoDocked_def demoPage_def)
  have i: "getElementById demoPlaying (''ls-block-'' @ ''cur'') = Some 3" by code_simp
  have q: "querySelector demoPlaying 3 (isVideo demoPlaying) = Some 4" by code_simp
  have f: "findVideoInBlock demoHost demoPlaying (uuid ?cur) = Inr (Some 4)"
    using findVideoInBlock_id [OF i, of demoHost] q by simp
  show ?thesis
    using getVideoEl_resolved [OF b0 b1 b2, of demoPlaying] nf domSearch_current [OF f]
    by simp
qed

subsection \<open>The invariant under the transitions\<close>

lemma floatingAt_cong:
  assumes "kids w' = kids w" "parent w' = parent w" "document w' = document w"
    "isFloating w' = isFloating w" "videoState w' = videoState w"
    "floatingContainer w' = floatingContainer w"
  shows "floatingAt w' vs c = floatingAt w vs c"
proof -
  have "parentElement w' (placeholder vs) = parentElement w (placeholder vs)"
    using assms by (intro parentElement_eqI) simp_all
  then show ?thesis using assms by (simp add: floatingAt_def)
qed

lemma isVideo_cong: "tagName w' = tagName w \<Longrightarrow> isVideo w' = isVideo w"
  by (simp add: fun_eq_iff isVideo_def)

lemma hasClass_cong: "classList w' = classList w \<Longrightarrow> hasClass w' = hasClass w"
  by (simp add: fun_eq_iff hasClass_def)

lemma engineInv_cong:
  assumes i: "engineInv w"
    and e: "kids w' = kids w" "parent w' = parent w" "nextNode w' = nextNode w"
      "tagName w' = tagName w" "classList w' = classList w" "document w' = document w"
      "body w' = body w" "recentlyPlayedVideo w' = recentlyPlayedVideo w"
      "floatingContainer w' = floatingContainer w" "isFloating w' = isFloating w"
      "videoState w' = videoState w"
  shows "engineInv w'"
proof -
  have wf: "wfdom w'" using i e by (auto simp: engineInv_def intro: wfdom_congI)
  have t: "trackedOk w'" using i e by (simp add: engineInv_def trackedOk_def)
  have c: "containerOk w'"
    using i e by (simp add: engineInv_def containerOk_def hasClass_cong [of w' w] isVideo_cong [of w' w])
  have fa: "\<And>vs c. floatingAt w' vs c = floatingAt w vs c"
    using e by (intro floatingAt_cong) simp_all
  have p: "placeholderOk w'"
    using i e
    by (cases "isFloating w")
      (simp_all add: engineInv_def placeholderOk_def hasClass_cong [of w' w] fa)
  show ?thesis using wf t c p by (simp add: engineInv_def)
qed

lemma showFloatingPlayer_cases:
  "showFloatingPlayer w = w \<or> (\<exists>v c p. canFloat w v c p)"
  by (auto simp: showFloatingPlayer_def canFloat_def split: option.splits)

lemma engineInv_canFloat:
  assumes i: "engineInv w" and cf: "canFloat w v c p"
  shows "c < nextNode w" "p \<noteq> c" "tagName w v = ''VIDEO''" "v \<notin> set (kids w c)"
proof -
  have wf: "wfdom w" and co: "containerOk w" and tr: "trackedOk w"
    using i by (simp_all add: engineInv_def)
  have fc: "floatingContainer w = Some c" and nf: "\<not> isFloating w"
    and rp: "recentlyPlayedVideo w = Some v"
    using cf by (simp_all add: canFloat_def)
  show "c < nextNode w" using co fc by (simp add: containerOk_def)
  show tv: "tagName w v = ''VIDEO''" using tr rp by (simp add: trackedOk_def)
  have fe: "filter (isVideo w) (kids w c) = []"
    using co fc nf by (simp add: containerOk_def)
  show vn: "v \<notin> set (kids w c)"
    using fe tv by (auto simp: filter_empty_conv isVideo_def)
  show "p \<noteq> c" using canFloat_facts(2) [OF wf cf] vn by auto
qed


lemma engineInv_showFloatingPlayer:
  assumes i: "engineInv w"
  shows "engineInv (showFloatingPlayer w)"
proof (cases "showFloatingPlayer w = w")
  case True
  then show ?thesis using i by simp
next
  case False
  then obtain v c p where cf: "canFloat w v c p"
    using showFloatingPlayer_cases [of w] by blast
  let ?ph = "nextNode w"
  let ?w1 = "showFloatingPlayer w"
  let ?vs = "\<lparr>video = v, originalParent = p, originalNextSibling = nextSibling w v,
              placeholder = ?ph\<rparr>"
  have wf: "wfdom w" and co: "containerOk w" and tr: "trackedOk w" and po: "placeholderOk w"
    using i by (simp_all add: engineInv_def)
  note f = canFloat_facts [OF wf cf]
  note g = engineInv_canFloat [OF i cf]
  have fc: "floatingContainer w = Some c" and nf: "\<not> isFloating w"
    and rp: "recentlyPlayedVideo w = Some v"
    using cf by (simp_all add: canFloat_def)
  note st = showFloatingPlayer_state [OF cf]
  have k1: "kids ?w1 = (kids w)(?ph := [], p := swapNode v ?ph (kids w p), c := kids w c @ [v])"
    using wf cf g(1,2) by (rule showFloatingPlayer_kids)
  have p1: "parent ?w1 = (parent w)(?ph := Some p, v := Some c)"
    using wf cf by (rule showFloatingPlayer_parent)
  have cph: "c \<noteq> ?ph" using g(1) by simp
  have wf1: "wfdom ?w1" using wf cf g(1) by (rule showFloatingPlayer_wfdom)
  have tr1: "trackedOk ?w1"
    using rp f g(3) by (simp add: trackedOk_def st)
  have old: "\<And>n. hasClass w placeholderClass n \<Longrightarrow> parent w n = None"
    using po nf by (simp add: placeholderOk_def)
  have hc: "\<And>n. n \<noteq> ?ph \<Longrightarrow> hasClass ?w1 placeholderClass n = hasClass w placeholderClass n"
    by (simp add: hasClass_def st)
  have hph: "hasClass ?w1 placeholderClass ?ph"
    by (simp add: hasClass_def st)
  have fe: "filter (isVideo w) (kids w c) = []"
    using co fc nf by (simp add: containerOk_def)
  have "filter (isVideo ?w1) (kids w c) = filter (isVideo w) (kids w c)"
  proof (rule filter_cong [OF refl])
    fix n assume "n \<in> set (kids w c)"
    then have "n \<noteq> ?ph" using wfdom_fresh_notin [OF wf, of c] by auto
    then show "isVideo ?w1 n = isVideo w n" by (simp add: isVideo_def st)
  qed
  moreover have "isVideo ?w1 v" using f g(3) by (simp add: isVideo_def st)
  ultimately have fv: "filter (isVideo ?w1) (kids ?w1 c) = [v]"
    using fe by (simp add: k1)
  have co1: "containerOk ?w1"
    unfolding containerOk_def
    using co fc cph hc [of c] fv g(1) by (simp add: containerOk_def st)
  have fl1: "floatingAt ?w1 ?vs c"
    using wf cf g(1,2) by (rule showFloatingPlayer_floatingAt)
  have un: "\<forall>n. hasClass ?w1 placeholderClass n \<and> parent ?w1 n \<noteq> None \<longrightarrow> n = ?ph"
  proof (intro allI impI)
    fix n assume h: "hasClass ?w1 placeholderClass n \<and> parent ?w1 n \<noteq> None"
    show "n = ?ph"
    proof (rule ccontr)
      assume ne: "n \<noteq> ?ph"
      then have "hasClass w placeholderClass n" using h hc by simp
      then have pn: "parent w n = None" by (rule old)
      then have "n \<noteq> v" using f(1) by auto
      then have "parent ?w1 n = None" using ne pn by (simp add: p1)
      then show False using h by simp
    qed
  qed
  have po1: "placeholderOk ?w1"
    unfolding placeholderOk_def using st(2) fl1 hph un by (auto intro!: exI [of _ ?vs] exI [of _ c])
  show ?thesis
    using wf1 tr1 co1 po1 by (simp add: engineInv_def)
qed

lemma engineInv_floating:
  assumes i: "engineInv w" and fl: "isFloating w"
  obtains vs c where "floatingAt w vs c" "hasClass w placeholderClass (placeholder vs)"
    "\<forall>n. hasClass w placeholderClass n \<and> parent w n \<noteq> None \<longrightarrow> n = placeholder vs"
    "filter (isVideo w) (kids w c) = [video vs]" "c < nextNode w"
    "\<not> hasClass w placeholderClass c"
proof -
  from i fl obtain vs c where a: "floatingAt w vs c"
    "hasClass w placeholderClass (placeholder vs)"
    "\<forall>n. hasClass w placeholderClass n \<and> parent w n \<noteq> None \<longrightarrow> n = placeholder vs"
    by (auto simp: engineInv_def placeholderOk_def)
  have "floatingContainer w = Some c" "videoState w = Some vs"
    using a(1) by (simp_all add: floatingAt_def)
  then have "filter (isVideo w) (kids w c) = [video vs]" "c < nextNode w"
    "\<not> hasClass w placeholderClass c"
    using i fl by (simp_all add: engineInv_def containerOk_def)
  then show ?thesis using a that by blast
qed

lemma engineInv_hideFloatingPlayer:
  assumes i: "engineInv w"
  shows "engineInv (hideFloatingPlayer w)"
proof (cases "isFloating w")
  case False
  then show ?thesis using i by (simp add: hideFloatingPlayer_docked)
next
  case True
  from engineInv_floating [OF i True] obtain vs c where
    fl: "floatingAt w vs c" and hph: "hasClass w placeholderClass (placeholder vs)"
    and un: "\<forall>n. hasClass w placeholderClass n \<and> parent w n \<noteq> None \<longrightarrow> n = placeholder vs"
    and fv: "filter (isVideo w) (kids w c) = [video vs]" and c: "c < nextNode w"
    and nc: "\<not> hasClass w placeholderClass c"
    by blast
  let ?v = "video vs" and ?op = "originalParent vs" and ?ph = "placeholder vs"
  let ?w2 = "hideFloatingPlayer w"
  have wf: "wfdom w" and co: "containerOk w" and tr: "trackedOk w"
    using i by (simp_all add: engineInv_def)
  have a: "floatingContainer w = Some c" "isFloating w" "videoState w = Some vs"
    using fl by (simp_all add: floatingAt_def)
  have pv: "parent w ?v = Some c" and opc: "?op \<noteq> c"
    and pe: "parentElement w ?ph = Some ?op"
    using fl by (simp_all add: floatingAt_def)
  have pph: "parent w ?ph = Some ?op" using pe by (rule parentElement_parent)
  have phv: "?ph \<noteq> ?v" using pv pph opc by auto
  note st = hideFloatingPlayer_state [OF a]
  note hd = hideFloatingPlayer_dom [OF wf fl]
  have al: "?v < nextNode w" "?op < nextNode w"
    using wfdom_child_alloc [OF wf pv] wfdom_parent_alloc [OF wf pph] by simp_all
  have wf2: "wfdom ?w2"
    using wf al a(3) by (intro hideFloatingPlayer_wfdom) auto
  have tr2: "trackedOk ?w2"
    using tr by (simp add: trackedOk_def st)
  have iv: "isVideo ?w2 = isVideo w" by (rule isVideo_cong) (simp add: st)
  have hc: "hasClass ?w2 = hasClass w" by (rule hasClass_cong) (simp add: st)
  have "filter (isVideo w) (remove1 ?v (kids w c)) = []"
    using wfdom_distinct [OF wf] fv by (rule filter_remove1_single)
  then have co2: "containerOk ?w2"
    using co a(1) opc c nc by (simp add: containerOk_def st iv hc hd(1))
  have nov: "\<not> hasClass w placeholderClass ?v"
    using un pv phv by auto
  have "\<forall>n. hasClass ?w2 placeholderClass n \<longrightarrow> parent ?w2 n = None"
  proof (intro allI impI)
    fix n assume h: "hasClass ?w2 placeholderClass n"
    then have hn: "hasClass w placeholderClass n" by (simp add: hc)
    show "parent ?w2 n = None"
    proof (cases "n = ?ph")
      case True
      then show ?thesis by (simp add: hd(2))
    next
      case False
      then have "parent w n = None" using un hn by auto
      moreover have "n \<noteq> ?v" using hn nov by auto
      ultimately show ?thesis using False by (simp add: hd(2))
    qed
  qed
  then have po2: "placeholderOk ?w2"
    by (simp add: placeholderOk_def st)
  show ?thesis
    using wf2 tr2 co2 po2 by (simp add: engineInv_def)
qed

lemma engineInv_track:
  assumes i: "engineInv w"
    and e: "kids w' = kids w" "parent w' = parent w" "nextNode w' = nextNode w"
      "tagName w' = tagName w" "classList w' = classList w" "document w' = document w"
      "body w' = body w" "floatingContainer w' = floatingContainer w"
      "isFloating w' = isFloating w" "videoState w' = videoState w"
    and t: "trackedOk w'"
  shows "engineInv w'"
proof -
  let ?u = "w'\<lparr>recentlyPlayedVideo := recentlyPlayedVideo w\<rparr>"
  have "engineInv ?u"
    by (rule engineInv_cong [OF i]) (simp_all add: e)
  then have "wfdom ?u \<and> containerOk ?u \<and> placeholderOk ?u"
    by (simp add: engineInv_def)
  moreover have "wfdom w' = wfdom ?u" by (rule wfdom_cong) simp_all
  moreover have "containerOk w' = containerOk ?u"
    by (simp add: containerOk_def hasClass_cong [of ?u w'] isVideo_cong [of ?u w'])
  moreover have "\<And>vs c. floatingAt ?u vs c = floatingAt w' vs c"
    by (rule floatingAt_cong) simp_all
  then have "placeholderOk w' = placeholderOk ?u"
    by (simp add: placeholderOk_def hasClass_cong [of ?u w'])
  ultimately show ?thesis using t by (simp add: engineInv_def)
qed

lemma engineInv_not_floating_eq:
  "engineInv w \<Longrightarrow> \<not> isFloating (hideFloatingPlayer w)"
  by (metis engineInv_floating hideFloatingPlayer_state(2) hideFloatingPlayer_docked
      floatingAt_def)

lemma engineInv_no_container: "engineInv w \<Longrightarrow> floatingContainer w = None \<Longrightarrow> \<not> isFloating w"
  by (metis engineInv_floating floatingAt_def option.distinct(1))

lemma engineInv_docked_state: "engineInv w \<Longrightarrow> \<not> isFloating w \<Longrightarrow> videoState w = None"
  by (simp add: engineInv_def placeholderOk_def)

lemma engineInv_closeClick: "engineInv w \<Longrightarrow> engineInv (closeClick w)"
  unfolding closeClick_eq
  by (rule engineInv_cong [OF engineInv_hideFloatingPlayer]) simp_all

lemma engineInv_handleVideoPlay:
  assumes i: "engineInv w" and v: "v < nextNode w"
  shows "engineInv (handleVideoPlay v w)"
proof (cases "tagName w v = ''VIDEO''")
  case False
  then show ?thesis using i by (simp add: handleVideoPlay_def)
next
  case True
  let ?w' = "w\<lparr>isManuallyHidden := False\<rparr>"
  let ?w1 = "if recentlyPlayedVideo w \<noteq> Some v then
               (if isFloating ?w' \<and>
                   (case videoState ?w' of None \<Rightarrow> False | Some vs \<Rightarrow> video vs \<noteq> v)
                then hideFloatingPlayer ?w' else ?w')
             else w"
  have i': "engineInv ?w'" by (rule engineInv_cong [OF i]) simp_all
  have i1: "engineInv ?w1"
    using i i' by (simp add: engineInv_hideFloatingPlayer)
  have f1: "nextNode ?w1 = nextNode w" "tagName ?w1 = tagName w"
    by simp_all
  have t: "trackedOk (?w1\<lparr>recentlyPlayedVideo := Some v\<rparr>)"
    using v True by (simp add: trackedOk_def f1)
  have i2: "engineInv (?w1\<lparr>recentlyPlayedVideo := Some v\<rparr>)"
    by (rule engineInv_track [OF i1 _ _ _ _ _ _ _ _ _ _ t]) simp_all
  show ?thesis
    by (rule engineInv_cong [OF i2])
      (simp_all add: handleVideoPlay_def Let_def True split: option.splits)
qed

lemma engineInv_handleEntry:
  assumes i: "engineInv w"
  shows "engineInv (handleEntry en w)"
proof -
  have s: "engineInv (showFloatingPlayer w)" using i by (rule engineInv_showFloatingPlayer)
  have h: "engineInv (hideFloatingPlayer w)" using i by (rule engineInv_hideFloatingPlayer)
  have s': "\<And>ob. engineInv ((showFloatingPlayer w)\<lparr>observer := ob\<rparr>)"
    by (rule engineInv_cong [OF s]) simp_all
  have h1: "engineInv ((hideFloatingPlayer w)\<lparr>isManuallyHidden := False\<rparr>)"
    by (rule engineInv_cong [OF h]) simp_all
  have h2: "\<And>ob. engineInv ((hideFloatingPlayer w)\<lparr>isManuallyHidden := False, observer := ob\<rparr>)"
    by (rule engineInv_cong [OF h]) simp_all
  show ?thesis
    using i s s' h1 h2
    by (simp add: handleEntry_def Let_def split: option.splits)
qed

lemma engineInv_handleIntersection: "engineInv w \<Longrightarrow> engineInv (handleIntersection ens w)"
  unfolding handleIntersection_def
  by (induction ens arbitrary: w) (simp_all add: engineInv_handleEntry)

lemma engineInv_returnFloatingVideo:
  assumes i: "engineInv w"
  shows "engineInv (returnFloatingVideo b w)"
proof -
  have "\<And>f. engineInv (w\<lparr>paused := f\<rparr>)"
    by (rule engineInv_cong [OF i]) simp_all
  then show ?thesis
    using i by (simp add: returnFloatingVideo_def engineInv_hideFloatingPlayer
        split: option.splits)
qed

lemma engineInv_updateFloatingPlayerSettings:
  assumes i: "engineInv w"
  shows "engineInv (updateFloatingPlayerSettings s w)"
proof -
  let ?w0 = "w\<lparr>currentSettings := s\<rparr>"
  let ?w1 = "if \<not> enabled s \<and> floatingContainer ?w0 \<noteq> None then hideFloatingPlayer ?w0 else ?w0"
  have i0: "engineInv ?w0" by (rule engineInv_cong [OF i]) simp_all
  have i1: "engineInv ?w1" using i0 by (simp add: engineInv_hideFloatingPlayer)
  show ?thesis
    by (rule engineInv_cong [OF i1])
      (simp_all add: updateFloatingPlayerSettings_def Let_def split: option.splits)
qed

subsection \<open>Initialisation and teardown\<close>

lemma descendants_in_kids: "x \<in> set (descendants d k n) \<Longrightarrow> \<exists>q. x \<in> set (k q)"
  by (induction d arbitrary: n) auto

lemma subtree_alloc: "wfdom w \<Longrightarrow> x \<in> set (subtree w n) \<Longrightarrow> x < nextNode w"
  by (metis subtree_def descendants_in_kids wfdom_parent wfdom_child_alloc)

lemma createFloatingContainer_fst [simp]: "fst (createFloatingContainer w) = nextNode w"
  by (simp add: createFloatingContainer_def Let_def case_prod_beta)

lemma createFloatingContainer_dom:
  assumes wf: "wfdom w"
  shows "nextNode (snd (createFloatingContainer w)) = Suc (Suc (Suc (nextNode w)))"
    and "kids (snd (createFloatingContainer w)) =
           (kids w)(nextNode w := [Suc (nextNode w), Suc (Suc (nextNode w))],
                    Suc (nextNode w) := [], Suc (Suc (nextNode w)) := [])"
    and "parent (snd (createFloatingContainer w)) =
           (parent w)(nextNode w := None, Suc (nextNode w) := Some (nextNode w),
                      Suc (Suc (nextNode w)) := Some (nextNode w))"
    and "tagName (snd (createFloatingContainer w)) =
           (tagName w)(nextNode w := ''DIV'', Suc (nextNode w) := ''DIV'',
                       Suc (Suc (nextNode w)) := ''BUTTON'')"
    and "classList (snd (createFloatingContainer w)) =
           (classList w)(nextNode w := [''mediatimestamp-floating-player''],
                         Suc (nextNode w) := [''drag-handle''],
                         Suc (Suc (nextNode w)) := [''close-btn''])"
proof -
  show "nextNode (snd (createFloatingContainer w)) = Suc (Suc (Suc (nextNode w)))"
    by (simp add: createFloatingContainer_def Let_def case_prod_beta)
  show "kids (snd (createFloatingContainer w)) =
           (kids w)(nextNode w := [Suc (nextNode w), Suc (Suc (nextNode w))],
                    Suc (nextNode w) := [], Suc (Suc (nextNode w)) := [])"
    by (simp add: createFloatingContainer_def Let_def case_prod_beta appendChild_def
        kids_insertBefore_None kids_removeFromParent fun_upd_twist)
  show "parent (snd (createFloatingContainer w)) =
           (parent w)(nextNode w := None, Suc (nextNode w) := Some (nextNode w),
                      Suc (Suc (nextNode w)) := Some (nextNode w))"
    by (simp add: createFloatingContainer_def Let_def case_prod_beta appendChild_def
        parent_insertBefore_None)
  show "tagName (snd (createFloatingContainer w)) =
           (tagName w)(nextNode w := ''DIV'', Suc (nextNode w) := ''DIV'',
                       Suc (Suc (nextNode w)) := ''BUTTON'')"
    by (simp add: createFloatingContainer_def Let_def case_prod_beta)
  show "classList (snd (createFloatingContainer w)) =
           (classList w)(nextNode w := [''mediatimestamp-floating-player''],
                         Suc (nextNode w) := [''drag-handle''],
                         Suc (Suc (nextNode w)) := [''close-btn''])"
    by (simp add: createFloatingContainer_def Let_def case_prod_beta setClassName_def
        fun_upd_twist)
qed

lemma createFloatingContainer_fields [simp]:
  "document (snd (createFloatingContainer w)) = document w"
  "body (snd (createFloatingContainer w)) = body w"
  "offsetWidth (snd (createFloatingContainer w)) = offsetWidth w"
  "offsetHeight (snd (createFloatingContainer w)) = offsetHeight w"
  "boundingRect (snd (createFloatingContainer w)) = boundingRect w"
  "innerWidth (snd (createFloatingContainer w)) = innerWidth w"
  "innerHeight (snd (createFloatingContainer w)) = innerHeight w"
  "paused (snd (createFloatingContainer w)) = paused w"
  "currentTime (snd (createFloatingContainer w)) = currentTime w"
  "recentlyPlayedVideo (snd (createFloatingContainer w)) = recentlyPlayedVideo w"
  "floatingContainer (snd (createFloatingContainer w)) = floatingContainer w"
  "observer (snd (createFloatingContainer w)) = observer w"
  "isManuallyHidden (snd (createFloatingContainer w)) = isManuallyHidden w"
  "isDragging (snd (createFloatingContainer w)) = isDragging w"
  "dragOffset (snd (createFloatingContainer w)) = dragOffset w"
  "currentSettings (snd (createFloatingContainer w)) = currentSettings w"
  "videoState (snd (createFloatingContainer w)) = videoState w"
  "isFloating (snd (createFloatingContainer w)) = isFloating w"
  "dragDoc (snd (createFloatingContainer w)) = dragDoc w"
  "playListener (snd (createFloatingContainer w)) = playListener w"
  "console (snd (createFloatingContainer w)) = console w"
  "uiMsgs (snd (createFloatingContainer w)) = uiMsgs w"
  "editorText (snd (createFloatingContainer w)) = editorText w"
  by (simp_all add: createFloatingContainer_def Let_def case_prod_beta)

lemma observe_fields [simp]:
  "kids (observe t w) = kids w"
  "parent (observe t w) = parent w"
  "tagName (observe t w) = tagName w"
  "classList (observe t w) = classList w"
  "elemId (observe t w) = elemId w"
  "blockid (observe t w) = blockid w"
  "style (observe t w) = style w"
  "originalStyles (observe t w) = originalStyles w"
  "nextNode (observe t w) = nextNode w"
  "document (observe t w) = document w"
  "body (observe t w) = body w"
  "offsetWidth (observe t w) = offsetWidth w"
  "offsetHeight (observe t w) = offsetHeight w"
  "boundingRect (observe t w) = boundingRect w"
  "innerWidth (observe t w) = innerWidth w"
  "innerHeight (observe t w) = innerHeight w"
  "paused (observe t w) = paused w"
  "currentTime (observe t w) = currentTime w"
  "recentlyPlayedVideo (observe t w) = recentlyPlayedVideo w"
  "floatingContainer (observe t w) = floatingContainer w"
  "isManuallyHidden (observe t w) = isManuallyHidden w"
  "isDragging (observe t w) = isDragging w"
  "dragOffset (observe t w) = dragOffset w"
  "currentSettings (observe t w) = currentSettings w"
  "videoState (observe t w) = videoState w"
  "isFloating (observe t w) = isFloating w"
  "dragDoc (observe t w) = dragDoc w"
  "playListener (observe t w) = playListener w"
  "console (observe t w) = console w"
  "uiMsgs (observe t w) = uiMsgs w"
  "editorText (observe t w) = editorText w"
  by (simp_all add: observe_def split: option.splits)

lemma trackPlaying_fields [simp]:
  "kids (trackPlaying v w) = kids w"
  "parent (trackPlaying v w) = parent w"
  "tagName (trackPlaying v w) = tagName w"
  "classList (trackPlaying v w) = classList w"
  "elemId (trackPlaying v w) = elemId w"
  "blockid (trackPlaying v w) = blockid w"
  "style (trackPlaying v w) = style w"
  "originalStyles (trackPlaying v w) = originalStyles w"
  "nextNode (trackPlaying v w) = nextNode w"
  "document (trackPlaying v w) = document w"
  "body (trackPlaying v w) = body w"
  "offsetWidth (trackPlaying v w) = offsetWidth w"
  "offsetHeight (trackPlaying v w) = offsetHeight w"
  "boundingRect (trackPlaying v w) = boundingRect w"
  "innerWidth (trackPlaying v w) = innerWidth w"
  "innerHeight (trackPlaying v w) = innerHeight w"
  "paused (trackPlaying v w) = paused w"
  "currentTime (trackPlaying v w) = currentTime w"
  "floatingContainer (trackPlaying v w) = floatingContainer w"
  "isManuallyHidden (trackPlaying v w) = isManuallyHidden w"
  "isDragging (trackPlaying v w) = isDragging w"
  "dragOffset (trackPlaying v w) = dragOffset w"
  "currentSettings (trackPlaying v w) = currentSettings w"
  "videoState (trackPlaying v w) = videoState w"
  "isFloating (trackPlaying v w) = isFloating w"
  "dragDoc (trackPlaying v w) = dragDoc w"
  "playListener (trackPlaying v w) = playListener w"
  "console (trackPlaying v w) = console w"
  "uiMsgs (trackPlaying v w) = uiMsgs w"
  "editorText (trackPlaying v w) = editorText w"
  by (simp_all add: trackPlaying_def)


lemma wfdom_createFloatingContainer:
  assumes wf: "wfdom w"
  shows "wfdom (snd (createFloatingContainer w))"
proof -
  let ?n = "nextNode w"
  let ?w1 = "snd (createElement ''DIV'' w)"
  let ?w3 = "setStyle ?n ''display'' ''none'' (setClassName ?n ''mediatimestamp-floating-player'' ?w1)"
  let ?w4 = "snd (createElement ''DIV'' ?w3)"
  let ?w5 = "setClassName (Suc ?n) ''drag-handle'' ?w4"
  let ?w6 = "appendChild ?n (Suc ?n) ?w5"
  let ?w7 = "snd (createElement ''BUTTON'' ?w6)"
  let ?w8 = "setClassName (Suc (Suc ?n)) ''close-btn'' ?w7"
  let ?w9 = "appendChild ?n (Suc (Suc ?n)) ?w8"
  have wf1: "wfdom ?w1" using wf by (rule wfdom_createElement)
  have wf3: "wfdom ?w3" by (rule wfdom_congI [OF wf1]) simp_all
  have wf4: "wfdom ?w4" using wf3 by (rule wfdom_createElement)
  have wf5: "wfdom ?w5" by (rule wfdom_congI [OF wf4]) simp_all
  have wf6: "wfdom ?w6" using wf5 by (rule wfdom_appendChild) simp_all
  have wf7: "wfdom ?w7" using wf6 by (rule wfdom_createElement)
  have wf8: "wfdom ?w8" by (rule wfdom_congI [OF wf7]) simp_all
  have wf9: "wfdom ?w9" using wf8 by (rule wfdom_appendChild) simp_all
  have "snd (createFloatingContainer w) = ?w9"
    by (simp add: createFloatingContainer_def Let_def case_prod_beta)
  then show ?thesis using wf9 by simp
qed

lemma engineInv_fold_trackPlaying:
  "engineInv w \<Longrightarrow> \<forall>x\<in>set xs. x < nextNode w \<and> tagName w x = ''VIDEO'' \<Longrightarrow>
   engineInv (fold trackPlaying xs w)"
proof (induction xs arbitrary: w)
  case Nil
  then show ?case by simp
next
  case (Cons x xs)
  have t: "trackedOk (trackPlaying x w)"
    using Cons.prems by (auto simp: trackedOk_def trackPlaying_def observe_def engineInv_def
        split: option.splits)
  have "engineInv (trackPlaying x w)"
    by (rule engineInv_track [OF Cons.prems(1) _ _ _ _ _ _ _ _ _ _ t]) simp_all
  moreover have "\<forall>y\<in>set xs. y < nextNode (trackPlaying x w) \<and> tagName (trackPlaying x w) y = ''VIDEO''"
    using Cons.prems(2) by simp
  ultimately show ?case using Cons.IH by simp
qed


lemma engineInv_newContainer:
  assumes i: "engineInv w" and nc: "floatingContainer w = None"
  shows "engineInv (appendChild (body w) (nextNode w)
           ((snd (createFloatingContainer w))\<lparr>floatingContainer := Some (nextNode w)\<rparr>))"
proof -
  let ?n = "nextNode w" and ?b = "body w"
  let ?c = "snd (createFloatingContainer w)"
  let ?u = "?c\<lparr>floatingContainer := Some ?n\<rparr>"
  let ?W = "appendChild ?b ?n ?u"
  have wf: "wfdom w" and co: "containerOk w" and tr: "trackedOk w" and po: "placeholderOk w"
    using i by (simp_all add: engineInv_def)
  have nf: "\<not> isFloating w" using i nc by (rule engineInv_no_container)
  have b: "?b < ?n" using co by (simp add: containerOk_def)
  note d = createFloatingContainer_dom [OF wf]
  have wfc: "wfdom ?c" using wf by (rule wfdom_createFloatingContainer)
  have wfu: "wfdom ?u" by (rule wfdom_congI [OF wfc]) simp_all
  have wfW: "wfdom ?W"
    using wfu b by (intro wfdom_appendChild) (simp_all add: d)
  have kW: "kids ?W = (kids ?c)(?b := kids ?c ?b @ [?n])"
    by (simp add: appendChild_def kids_insertBefore_None kids_removeFromParent d)
  have pW: "parent ?W = (parent ?c)(?n := Some ?b)"
    by (simp add: appendChild_def parent_insertBefore_None)
  have tW: "tagName ?W = tagName ?c" and cW: "classList ?W = classList ?c"
    and nW: "nextNode ?W = Suc (Suc (Suc ?n))"
    by (simp_all add: d)
  have trW: "trackedOk ?W"
    using tr by (auto simp: trackedOk_def tW nW d)
  have bn: "?b \<noteq> ?n" using b by simp
  have kn: "kids ?W ?n = [Suc ?n, Suc (Suc ?n)]"
    using bn by (simp add: kW d)
  have coW: "containerOk ?W"
    using b nf bn
    by (simp add: containerOk_def nW kn hasClass_def cW d isVideo_def tW placeholderClass_def)
  have old: "\<And>m. hasClass w placeholderClass m \<Longrightarrow> parent w m = None"
    using po nf by (simp add: placeholderOk_def)
  have "\<forall>m. hasClass ?W placeholderClass m \<longrightarrow> parent ?W m = None"
  proof (intro allI impI)
    fix m assume h: "hasClass ?W placeholderClass m"
    then have m: "m \<noteq> ?n \<and> m \<noteq> Suc ?n \<and> m \<noteq> Suc (Suc ?n)"
      by (auto simp: hasClass_def cW d placeholderClass_def split: if_splits)
    then have "hasClass w placeholderClass m"
      using h by (simp add: hasClass_def cW d)
    then have "parent w m = None" by (rule old)
    then show "parent ?W m = None" using m by (simp add: pW d)
  qed
  then have poW: "placeholderOk ?W"
    using nf engineInv_docked_state [OF i nf] by (simp add: placeholderOk_def)
  show ?thesis
    using wfW trW coW poW by (simp add: engineInv_def)
qed

lemma engineInv_initFloatingPlayer:
  assumes i: "engineInv w"
  shows "engineInv (initFloatingPlayer s w)"
proof (cases "enabled s")
  case False
  have "engineInv (w\<lparr>currentSettings := s\<rparr>)"
    by (rule engineInv_cong [OF i]) simp_all
  then show ?thesis using False by (simp add: initFloatingPlayer_def)
next
  case True
  let ?w0 = "w\<lparr>currentSettings := s\<rparr>"
  let ?w1 = "case floatingContainer ?w0 of
               None \<Rightarrow>
                 (let (c, w') = createFloatingContainer ?w0
                  in appendChild (body w') c (w'\<lparr>floatingContainer := Some c\<rparr>))
             | Some _ \<Rightarrow> ?w0"
  let ?w3 = "?w1\<lparr>observer := Some [], playListener := True\<rparr>"
  have i0: "engineInv ?w0" by (rule engineInv_cong [OF i]) simp_all
  have i1: "engineInv ?w1"
  proof (cases "floatingContainer ?w0")
    case None
    have "engineInv (appendChild (body ?w0) (nextNode ?w0)
           ((snd (createFloatingContainer ?w0))\<lparr>floatingContainer := Some (nextNode ?w0)\<rparr>))"
      using i0 None by (rule engineInv_newContainer)
    then show ?thesis using None by (simp add: case_prod_beta)
  next
    case (Some c)
    then show ?thesis using i0 by simp
  qed
  have i3: "engineInv ?w3" by (rule engineInv_cong [OF i1]) simp_all
  have wf3: "wfdom ?w3" using i3 by (simp add: engineInv_def)
  have vs: "\<forall>x\<in>set (querySelectorAll ?w3 (document ?w3) (isVideo ?w3)).
              x < nextNode ?w3 \<and> tagName ?w3 x = ''VIDEO''"
    using subtree_alloc [OF wf3] by (auto simp: querySelectorAll_def isVideo_def)
  have "engineInv (fold trackPlaying (querySelectorAll ?w3 (document ?w3) (isVideo ?w3)) ?w3)"
    using i3 vs by (rule engineInv_fold_trackPlaying)
  then show ?thesis using True by (simp add: initFloatingPlayer_def Let_def)
qed

lemma engineInv_destroyFloatingPlayer:
  assumes i: "engineInv w"
  shows "engineInv (destroyFloatingPlayer w)"
proof -
  let ?w1 = "hideFloatingPlayer w"
  have i1: "engineInv ?w1" using i by (rule engineInv_hideFloatingPlayer)
  have nf: "\<not> isFloating ?w1" using i by (rule engineInv_not_floating_eq)
  have wf1: "wfdom ?w1" and co1: "containerOk ?w1" and po1: "placeholderOk ?w1"
    using i1 by (simp_all add: engineInv_def)
  have old: "\<And>m. hasClass ?w1 placeholderClass m \<Longrightarrow> parent ?w1 m = None"
    using po1 nf by (simp add: placeholderOk_def)
  let ?D = "destroyFloatingPlayer w"
  have f: "recentlyPlayedVideo ?D = None" "floatingContainer ?D = None" "\<not> isFloating ?D"
    "videoState ?D = None" "nextNode ?D = nextNode ?w1" "body ?D = body ?w1"
    "classList ?D = classList ?w1"
    by (simp_all add: destroyFloatingPlayer_def Let_def split: option.splits)
  have kp: "(kids ?D = kids ?w1 \<and> parent ?D = parent ?w1) \<or>
            (\<exists>c. kids ?D = kids (removeFromParent c ?w1) \<and>
                 parent ?D = parent (removeFromParent c ?w1))"
  proof (cases "floatingContainer w")
    case None
    then show ?thesis
      by (simp add: destroyFloatingPlayer_def Let_def split: option.splits)
  next
    case (Some c)
    then have "kids ?D = kids (removeFromParent c ?w1) \<and>
               parent ?D = parent (removeFromParent c ?w1)"
      by (simp add: destroyFloatingPlayer_def Let_def kids_removeFromParent
          parent_removeFromParent split: option.splits)
    then show ?thesis by blast
  qed
  have wfD: "wfdom ?D"
  proof -
    from kp show ?thesis
    proof
      assume "kids ?D = kids ?w1 \<and> parent ?D = parent ?w1"
      then show ?thesis by (intro wfdom_congI [OF wf1]) (simp_all add: f)
    next
      assume "\<exists>c. kids ?D = kids (removeFromParent c ?w1) \<and>
                  parent ?D = parent (removeFromParent c ?w1)"
      then obtain c where c: "kids ?D = kids (removeFromParent c ?w1)"
        "parent ?D = parent (removeFromParent c ?w1)" by blast
      show ?thesis
        by (rule wfdom_congI [OF wfdom_removeFromParent [OF wf1, of c]]) (simp_all add: c f)
    qed
  qed
  have pn: "\<And>m. parent ?w1 m = None \<Longrightarrow> parent ?D m = None"
    using kp by (auto simp: parent_removeFromParent)
  have poD: "placeholderOk ?D"
    using old pn by (simp add: placeholderOk_def f hasClass_cong [OF f(7)])
  have coD: "containerOk ?D"
    using co1 by (simp add: containerOk_def f)
  have trD: "trackedOk ?D" by (simp add: trackedOk_def f)
  show ?thesis using wfD trD coD poD by (simp add: engineInv_def)
qed

lemma engineInv_step:
  assumes i: "engineInv w"
  shows "engineInv (step e w)"
proof (cases e)
  case (Play v)
  then show ?thesis using i by (simp add: engineInv_handleVideoPlay)
next
  case (Intersect ens)
  then show ?thesis using i by (simp add: engineInv_handleIntersection)
next
  case CloseClick
  then show ?thesis using i by (simp add: engineInv_closeClick)
next
  case (MouseDown m)
  have "engineInv (startDrag m w)" by (rule engineInv_cong [OF i]) simp_all
  then show ?thesis using i MouseDown by simp
next
  case (MouseMove m)
  have "engineInv (onDrag m w)" by (rule engineInv_cong [OF i]) simp_all
  then show ?thesis using i MouseMove by simp
next
  case MouseUp
  have "engineInv (stopDrag w)" by (rule engineInv_cong [OF i]) simp_all
  then show ?thesis using i MouseUp by simp
next
  case (Init s)
  then show ?thesis using i by (simp add: engineInv_initFloatingPlayer)
next
  case (Update s)
  then show ?thesis using i by (simp add: engineInv_updateFloatingPlayerSettings)
next
  case Destroy
  then show ?thesis using i by (simp add: engineInv_destroyFloatingPlayer)
next
  case (ReturnFloating b)
  then show ?thesis using i by (simp add: engineInv_returnFloatingVideo)
next
  case (Layout ow oh br iw ih)
  have "engineInv (w\<lparr>offsetWidth := ow, offsetHeight := oh, boundingRect := br,
                      innerWidth := iw, innerHeight := ih\<rparr>)"
    by (rule engineInv_cong [OF i]) simp_all
  then show ?thesis using Layout by simp
next
  case (Pause v)
  have "engineInv (w\<lparr>paused := (paused w)(v := True)\<rparr>)"
    by (rule engineInv_cong [OF i]) simp_all
  then show ?thesis using Pause by simp
qed

lemma engineInv_run: "engineInv w \<Longrightarrow> engineInv (run es w)"
  unfolding run_def
  by (induction es arbitrary: w) (simp_all add: engineInv_step)

subsection \<open>Switching videos\<close>

lemma hideFloatingPlayer_restores:
  assumes wf: "wfdom w" and fl: "floatingAt w vs c"
  shows "\<not> isFloating (hideFloatingPlayer w)"
    and "parent (hideFloatingPlayer w) (video vs) = Some (originalParent vs)"
    and "nextSibling (hideFloatingPlayer w) (video vs) = originalNextSibling vs"
    and "kids (hideFloatingPlayer w) (originalParent vs)
           = swapNode (placeholder vs) (video vs) (kids w (originalParent vs))"
    and "parent (hideFloatingPlayer w) (placeholder vs) = None"
proof -
  let ?v = "video vs" and ?op = "originalParent vs" and ?ph = "placeholder vs"
  have a: "floatingContainer w = Some c" "isFloating w" "videoState w = Some vs"
    using fl by (simp_all add: floatingAt_def)
  have pv: "parent w ?v = Some c" and opc: "?op \<noteq> c"
    and af: "after ?ph (kids w ?op) = originalNextSibling vs"
    and pph: "parentElement w ?ph = Some ?op"
    using fl by (simp_all add: floatingAt_def)
  have vn: "?v \<notin> set (kids w ?op)"
    using wf pv opc by (metis wfdom_parent option.inject)
  have phv: "?ph \<noteq> ?v"
    using pv opc parentElement_parent [OF pph] by auto
  note hd = hideFloatingPlayer_dom [OF wf fl]
  show "\<not> isFloating (hideFloatingPlayer w)"
    using hideFloatingPlayer_state(2) [OF a] .
  show p: "parent (hideFloatingPlayer w) ?v = Some ?op"
    using phv by (simp add: hd(2))
  show k: "kids (hideFloatingPlayer w) ?op = swapNode ?ph ?v (kids w ?op)"
    using opc by (simp add: hd(1))
  have "after ?v (swapNode ?ph ?v (kids w ?op)) = after ?ph (kids w ?op)"
    using wfdom_distinct [OF wf] vn by (rule after_swapNode)
  then show "nextSibling (hideFloatingPlayer w) ?v = originalNextSibling vs"
    using af p k by (simp add: nextSibling_def)
  show "parent (hideFloatingPlayer w) ?ph = None"
    by (simp add: hd(2))
qed

lemma engineInv_one_floating: "engineInv w \<Longrightarrow> length (floatingVideos w) \<le> 1"
  by (auto simp: engineInv_def containerOk_def floatingVideos_def split: option.splits)

lemma engineInv_docked_none: "engineInv w \<Longrightarrow> \<not> isFloating w \<Longrightarrow> floatingVideos w = []"
  by (auto simp: engineInv_def containerOk_def floatingVideos_def split: option.splits)

lemma engineInv_floatingAt:
  "engineInv w \<Longrightarrow> isFloating w \<Longrightarrow> videoState w = Some vs \<Longrightarrow> \<exists>c. floatingAt w vs c"
  by (metis engineInv_floating floatingAt_def option.inject)

lemma handleVideoPlay_switch:
  assumes i: "engineInv w" and rp: "recentlyPlayedVideo w = Some a" and ab: "a \<noteq> b"
    and tb: "tagName w b = ''VIDEO''"
  shows "recentlyPlayedVideo (handleVideoPlay b w) = Some b"
    and "\<not> isManuallyHidden (handleVideoPlay b w)"
    and "isFloating w \<Longrightarrow> videoState w = Some vs \<Longrightarrow> video vs = a \<Longrightarrow>
         kids (handleVideoPlay b w) = kids (hideFloatingPlayer w) \<and>
         parent (handleVideoPlay b w) = parent (hideFloatingPlayer w) \<and>
         isFloating (handleVideoPlay b w) = isFloating (hideFloatingPlayer w)"
    and "\<not> isFloating w \<Longrightarrow>
         kids (handleVideoPlay b w) = kids w \<and> parent (handleVideoPlay b w) = parent w \<and>
         \<not> isFloating (handleVideoPlay b w)"
proof -
  let ?w' = "w\<lparr>isManuallyHidden := False\<rparr>"
  have ne: "recentlyPlayedVideo w \<noteq> Some b" using rp ab by simp
  show "recentlyPlayedVideo (handleVideoPlay b w) = Some b"
    using tb by (simp add: handleVideoPlay_def Let_def split: option.splits)
  show "\<not> isManuallyHidden (handleVideoPlay b w)"
    using tb ne by (simp add: handleVideoPlay_def Let_def split: option.splits)
  show "kids (handleVideoPlay b w) = kids (hideFloatingPlayer w) \<and>
        parent (handleVideoPlay b w) = parent (hideFloatingPlayer w) \<and>
        isFloating (handleVideoPlay b w) = isFloating (hideFloatingPlayer w)"
    if f: "isFloating w" and vs: "videoState w = Some vs" and va: "video vs = a"
  proof -
    from engineInv_floatingAt [OF i f vs] obtain c where fl: "floatingAt w vs c" by blast
    have wf: "wfdom w" using i by (simp add: engineInv_def)
    have wf': "wfdom ?w'" by (rule wfdom_congI [OF wf]) simp_all
    have "floatingAt ?w' vs c = floatingAt w vs c" by (rule floatingAt_cong) simp_all
    then have fl': "floatingAt ?w' vs c" using fl by simp
    have h: "kids (hideFloatingPlayer ?w') = kids (hideFloatingPlayer w) \<and>
             parent (hideFloatingPlayer ?w') = parent (hideFloatingPlayer w) \<and>
             isFloating (hideFloatingPlayer ?w') = isFloating (hideFloatingPlayer w)"
      using hideFloatingPlayer_restores(1) [OF wf fl] hideFloatingPlayer_restores(1) [OF wf' fl']
      by (simp add: hideFloatingPlayer_dom [OF wf fl] hideFloatingPlayer_dom [OF wf' fl'])
    show ?thesis
      using tb ne f vs va ab h
      by (simp add: handleVideoPlay_def Let_def split: option.splits)
  qed
  show "kids (handleVideoPlay b w) = kids w \<and> parent (handleVideoPlay b w) = parent w \<and>
        \<not> isFloating (handleVideoPlay b w)"
    if "\<not> isFloating w"
    using tb ne that by (simp add: handleVideoPlay_def Let_def split: option.splits)
qed


lemma hide_after_show:
  assumes wf: "wfdom w" and cf: "canFloat w v c p" and c: "c < nextNode w" and pc: "p \<noteq> c"
    and ku: "kids u = kids (showFloatingPlayer w)" and pu: "parent u = parent (showFloatingPlayer w)"
    and nu: "nextNode u = nextNode (showFloatingPlayer w)"
    and du: "document u = document w" and fu: "isFloating u"
    and vu: "videoState u = videoState (showFloatingPlayer w)"
    and cu: "floatingContainer u = Some c"
  shows "kids (hideFloatingPlayer u) = kids w" and "parent (hideFloatingPlayer u) = parent w"
    and "\<not> isFloating (hideFloatingPlayer u)"
proof -
  let ?ph = "nextNode w"
  let ?w1 = "showFloatingPlayer w"
  let ?vs = "\<lparr>video = v, originalParent = p, originalNextSibling = nextSibling w v,
              placeholder = ?ph\<rparr>"
  note f = canFloat_facts [OF wf cf]
  have wf1: "wfdom ?w1" using wf cf c by (rule showFloatingPlayer_wfdom)
  have wfu: "wfdom u" by (rule wfdom_congI [OF wf1]) (simp_all add: ku pu nu)
  have fl: "floatingAt ?w1 ?vs c" using wf cf c pc by (rule showFloatingPlayer_floatingAt)
  have "floatingAt u ?vs c = floatingAt ?w1 ?vs c"
    using fl by (intro floatingAt_cong) (simp_all add: ku pu du fu vu cu floatingAt_def)
  then have flu: "floatingAt u ?vs c" using fl by simp
  have notin: "?ph \<notin> set (kids w p)" using wf by (rule wfdom_fresh_notin)
  have vc: "v \<notin> set (kids w c)"
    using wf f(1) pc by (metis wfdom_parent option.inject)
  have cph: "c \<noteq> ?ph" using c by simp
  have fr: "kids w ?ph = []" "parent w ?ph = None" using wf by (simp_all add: wfdom_fresh)
  have k1: "kids u = (kids w)(?ph := [], p := swapNode v ?ph (kids w p), c := kids w c @ [v])"
    unfolding ku using wf cf c pc by (rule showFloatingPlayer_kids)
  have p1: "parent u = (parent w)(?ph := Some p, v := Some c)"
    unfolding pu using wf cf by (rule showFloatingPlayer_parent)
  have "kids (hideFloatingPlayer u) =
          (kids u)(c := remove1 v (kids u c), p := swapNode ?ph v (kids u p))"
    using hideFloatingPlayer_dom(1) [OF wfu flu] by simp
  also have "\<dots> = (kids w)(?ph := [], p := kids w p, c := kids w c)"
    using pc cph f vc notin
    by (simp add: k1 swapNode_back remove1_append fun_upd_twist)
  also have "\<dots> = kids w"
    using fr by (simp add: fun_upd_idem)
  finally show "kids (hideFloatingPlayer u) = kids w" .
  have "parent (hideFloatingPlayer u) = (parent u)(v := Some p, ?ph := None)"
    using hideFloatingPlayer_dom(2) [OF wfu flu] by simp
  also have "\<dots> = (parent w)(v := Some p, ?ph := None)"
    using f by (simp add: p1 fun_upd_twist)
  also have "\<dots> = parent w"
    using fr f by (simp add: fun_upd_idem)
  finally show "parent (hideFloatingPlayer u) = parent w" .
  show "\<not> isFloating (hideFloatingPlayer u)"
    using hideFloatingPlayer_restores(1) [OF wfu flu] .
qed

lemma handleVideoPlay_docked:
  assumes nf: "\<not> isFloating w" and ta: "tagName w a = ''VIDEO''"
  shows "kids (handleVideoPlay a w) = kids w" "parent (handleVideoPlay a w) = parent w"
    "\<not> isFloating (handleVideoPlay a w)" "recentlyPlayedVideo (handleVideoPlay a w) = Some a"
    "nextNode (handleVideoPlay a w) = nextNode w" "videoState (handleVideoPlay a w) = videoState w"
  using nf ta by (simp_all add: handleVideoPlay_def Let_def split: option.splits)

lemma handleEntry_out_cases:
  assumes nf: "\<not> isFloating w" and rp: "recentlyPlayedVideo w = Some a"
  shows "(kids (handleEntry (a, False) w) = kids w \<and> parent (handleEntry (a, False) w) = parent w \<and>
          nextNode (handleEntry (a, False) w) = nextNode w \<and>
          tagName (handleEntry (a, False) w) = tagName w \<and>
          \<not> isFloating (handleEntry (a, False) w)) \<or>
         (\<exists>c p. canFloat w a c p \<and>
            kids (handleEntry (a, False) w) = kids (showFloatingPlayer w) \<and>
            parent (handleEntry (a, False) w) = parent (showFloatingPlayer w) \<and>
            nextNode (handleEntry (a, False) w) = nextNode (showFloatingPlayer w) \<and>
            tagName (handleEntry (a, False) w) = tagName (showFloatingPlayer w) \<and>
            videoState (handleEntry (a, False) w) = videoState (showFloatingPlayer w) \<and>
            isFloating (handleEntry (a, False) w))"
proof (cases "showFloatingPlayer w = w")
  case True
  then show ?thesis
    using nf rp by (simp add: handleEntry_def Let_def split: option.splits)
next
  case False
  then obtain v c p where cf: "canFloat w v c p"
    using showFloatingPlayer_cases [of w] by blast
  then have va: "v = a" using rp by (simp add: canFloat_def)
  have "isFloating (showFloatingPlayer w)" using cf by (rule showFloatingPlayer_state(2))
  then have "kids (handleEntry (a, False) w) = kids (showFloatingPlayer w) \<and>
            parent (handleEntry (a, False) w) = parent (showFloatingPlayer w) \<and>
            nextNode (handleEntry (a, False) w) = nextNode (showFloatingPlayer w) \<and>
            tagName (handleEntry (a, False) w) = tagName (showFloatingPlayer w) \<and>
            videoState (handleEntry (a, False) w) = videoState (showFloatingPlayer w) \<and>
            isFloating (handleEntry (a, False) w)"
    using nf rp by (simp add: handleEntry_def Let_def split: option.splits)
  then show ?thesis using cf va by blast
qed

lemma play_float_play:
  assumes i: "engineInv w" and nf: "\<not> isFloating w" and pl: "playListener w"
    and ab: "a \<noteq> b" and a: "a < nextNode w" "tagName w a = ''VIDEO''"
    and b: "b < nextNode w" "tagName w b = ''VIDEO''"
  shows "kids (run [Play a, Intersect [(a, False)], Play b] w) = kids w \<and>
         parent (run [Play a, Intersect [(a, False)], Play b] w) = parent w \<and>
         \<not> isFloating (run [Play a, Intersect [(a, False)], Play b] w) \<and>
         recentlyPlayedVideo (run [Play a, Intersect [(a, False)], Play b] w) = Some b \<and>
         \<not> isManuallyHidden (run [Play a, Intersect [(a, False)], Play b] w)"
proof -
  let ?w1 = "handleVideoPlay a w"
  define w2 where "w2 = step (Intersect [(a, False)]) ?w1"
  let ?w3 = "handleVideoPlay b w2"
  note d1 = handleVideoPlay_docked [OF nf a(2)]
  have i1: "engineInv ?w1" using i a(1) by (rule engineInv_handleVideoPlay)
  have wf1: "wfdom ?w1" using i1 by (simp add: engineInv_def)
  have i2: "engineInv w2" unfolding w2_def using i1 by (rule engineInv_step)
  have pl2: "playListener w2" using pl by (simp add: w2_def)
  have rp2: "recentlyPlayedVideo w2 = Some a" using d1(4) by (simp add: w2_def)
  have doc2: "document w2 = document ?w1" by (simp add: w2_def)
  have fc2: "floatingContainer w2 = floatingContainer ?w1" by (simp add: w2_def)
  have cs: "(kids w2 = kids ?w1 \<and> parent w2 = parent ?w1 \<and> nextNode w2 = nextNode ?w1 \<and>
             tagName w2 = tagName ?w1 \<and> \<not> isFloating w2) \<or>
            (\<exists>c p. canFloat ?w1 a c p \<and>
               kids w2 = kids (showFloatingPlayer ?w1) \<and>
               parent w2 = parent (showFloatingPlayer ?w1) \<and>
               nextNode w2 = nextNode (showFloatingPlayer ?w1) \<and>
               tagName w2 = tagName (showFloatingPlayer ?w1) \<and>
               videoState w2 = videoState (showFloatingPlayer ?w1) \<and> isFloating w2)"
  proof (cases "observer ?w1")
    case None
    then show ?thesis using d1(3) by (simp add: w2_def)
  next
    case (Some ts)
    then have "w2 = handleEntry (a, False) ?w1" by (simp add: w2_def handleIntersection_def)
    then show ?thesis using handleEntry_out_cases [OF d1(3) d1(4)] by simp
  qed
  have r: "run [Play a, Intersect [(a, False)], Play b] w = step (Play b) w2"
    using pl a(1) by (simp add: run_def w2_def)
  from cs show ?thesis
  proof
    assume h: "kids w2 = kids ?w1 \<and> parent w2 = parent ?w1 \<and> nextNode w2 = nextNode ?w1 \<and>
               tagName w2 = tagName ?w1 \<and> \<not> isFloating w2"
    then have tb: "tagName w2 b = ''VIDEO''" and bn: "b < nextNode w2"
      using b d1(5) by simp_all
    have s3: "step (Play b) w2 = ?w3" using pl2 bn by simp
    note sw = handleVideoPlay_switch [OF i2 rp2 ab tb]
    show ?thesis
      unfolding r s3 using sw(1,2) sw(4) h d1(1,2) by simp
  next
    assume "\<exists>c p. canFloat ?w1 a c p \<and>
               kids w2 = kids (showFloatingPlayer ?w1) \<and>
               parent w2 = parent (showFloatingPlayer ?w1) \<and>
               nextNode w2 = nextNode (showFloatingPlayer ?w1) \<and>
               tagName w2 = tagName (showFloatingPlayer ?w1) \<and>
               videoState w2 = videoState (showFloatingPlayer ?w1) \<and> isFloating w2"
    then obtain c p where cf: "canFloat ?w1 a c p"
      and h: "kids w2 = kids (showFloatingPlayer ?w1)"
        "parent w2 = parent (showFloatingPlayer ?w1)"
        "nextNode w2 = nextNode (showFloatingPlayer ?w1)"
        "tagName w2 = tagName (showFloatingPlayer ?w1)"
        "videoState w2 = videoState (showFloatingPlayer ?w1)" "isFloating w2"
      by blast
    note g = engineInv_canFloat [OF i1 cf]
    note st = showFloatingPlayer_state [OF cf]
    have bn1: "b < nextNode ?w1" using b d1(5) by simp
    have tb: "tagName w2 b = ''VIDEO''"
      using b bn1 by (simp add: h(4) st(4))
    have bn: "b < nextNode w2" using bn1 by (simp add: h(3) st(3))
    have s3: "step (Play b) w2 = ?w3" using pl2 bn by simp
    have vs2: "videoState w2 = Some \<lparr>video = a, originalParent = p,
                 originalNextSibling = nextSibling ?w1 a, placeholder = nextNode ?w1\<rparr>"
      using h(5) st(1) by simp
    note sw = handleVideoPlay_switch [OF i2 rp2 ab tb]
    have fcc: "floatingContainer w2 = Some c"
      using cf by (simp add: fc2 canFloat_def)
    note ha = hide_after_show [OF wf1 cf g(1,2) h(1) h(2) h(3) doc2 h(6) h(5) fcc]
    have "kids ?w3 = kids (hideFloatingPlayer w2) \<and> parent ?w3 = parent (hideFloatingPlayer w2) \<and>
          isFloating ?w3 = isFloating (hideFloatingPlayer w2)"
      using sw(3) [OF h(6) vs2] by simp
    then show ?thesis
      unfolding r s3 using sw(1,2) ha d1(1,2) by simp
  qed
qed

lemma engineInv_demoFloating: "engineInv demoFloating"
proof -
  have t: "trackedOk demoFloating"
    by (simp add: trackedOk_def demoFloating_engine demoFloating_tags)
  have k: "kids demoFloating 10 = [11, 12, 4]" "tagName demoFloating 11 = ''DIV''"
    "tagName demoFloating 12 = ''BUTTON''" "body demoFloating = 2"
    by (simp_all add: demoFloating_def demoDocked_def demoPage_def)
  have c: "containerOk demoFloating"
    by (simp add: containerOk_def demoFloating_engine demo_floating_class isVideo_def k
        demoFloating_tags demoVideoState_def)
  have p: "placeholderOk demoFloating"
    unfolding placeholderOk_def
    using floatingAt_demoFloating
    by (auto simp: demoFloating_engine demo_floating_class demoVideoState_def)
  show ?thesis
    using wfdom_demoFloating t c p by (simp add: engineInv_def)
qed

lemma nextSibling_eqI:
  "kids w' = kids w \<Longrightarrow> parent w' = parent w \<Longrightarrow> nextSibling w' n = nextSibling w n"
  by (cases "parent w n") (simp_all add: nextSibling_def)

subsection \<open>Dragging and a repeated initialisation\<close>

lemma onDrag_styles:
  "floatingContainer w = Some c \<Longrightarrow> isDragging w \<Longrightarrow>
   style (onDrag e w) =
     (style w)(c := (style w c)(''right'' := ''auto'', ''bottom'' := ''auto'',
        ''left'' := px (pos_x (dragPosition e w)), ''top'' := px (pos_y (dragPosition e w))))"
  by (simp add: onDrag_def Let_def setStyle_def fun_eq_iff)

lemma dragPosition_inside:
  "10 \<le> clientX e - pos_x (dragOffset w) \<Longrightarrow>
   clientX e - pos_x (dragOffset w) + width (SIZE_MAP (size_setting (currentSettings w)))
     \<le> innerWidth w - 10 \<Longrightarrow>
   pos_x (dragPosition e w) = clientX e - pos_x (dragOffset w)"
  "10 \<le> clientY e - pos_y (dragOffset w) \<Longrightarrow>
   clientY e - pos_y (dragOffset w) + height (SIZE_MAP (size_setting (currentSettings w)))
     \<le> innerHeight w - 10 \<Longrightarrow>
   pos_y (dragPosition e w) = clientY e - pos_y (dragOffset w)"
  by (simp_all add: dragPosition_def Let_def)

lemma dragPosition_narrow:
  "innerWidth w < width (SIZE_MAP (size_setting (currentSettings w))) + 20 \<Longrightarrow>
   pos_x (dragPosition e w) = 10"
  "innerHeight w < height (SIZE_MAP (size_setting (currentSettings w))) + 20 \<Longrightarrow>
   pos_y (dragPosition e w) = 10"
  by (simp_all add: dragPosition_def Let_def)

lemma fold_trackPlaying_fields [simp]:
  "style (fold trackPlaying vs w) = style w"
  "nextNode (fold trackPlaying vs w) = nextNode w"
  "offsetWidth (fold trackPlaying vs w) = offsetWidth w"
  "offsetHeight (fold trackPlaying vs w) = offsetHeight w"
  "innerWidth (fold trackPlaying vs w) = innerWidth w"
  "innerHeight (fold trackPlaying vs w) = innerHeight w"
  "floatingContainer (fold trackPlaying vs w) = floatingContainer w"
  "isDragging (fold trackPlaying vs w) = isDragging w"
  "dragOffset (fold trackPlaying vs w) = dragOffset w"
  "currentSettings (fold trackPlaying vs w) = currentSettings w"
  "videoState (fold trackPlaying vs w) = videoState w"
  "isFloating (fold trackPlaying vs w) = isFloating w"
  by (induction vs arbitrary: w; simp)+

lemma initFloatingPlayer_settings [simp]: "currentSettings (initFloatingPlayer s w) = s"
  by (simp add: initFloatingPlayer_def Let_def case_prod_beta createFloatingContainer_def
      split: option.splits)

lemma initFloatingPlayer_container:
  assumes "floatingContainer w = Some c"
  shows "style (initFloatingPlayer s w) = style w"
    "nextNode (initFloatingPlayer s w) = nextNode w"
    "innerWidth (initFloatingPlayer s w) = innerWidth w"
    "innerHeight (initFloatingPlayer s w) = innerHeight w"
    "floatingContainer (initFloatingPlayer s w) = Some c"
    "isDragging (initFloatingPlayer s w) = isDragging w"
    "dragOffset (initFloatingPlayer s w) = dragOffset w"
    "videoState (initFloatingPlayer s w) = videoState w"
    "isFloating (initFloatingPlayer s w) = isFloating w"
    "offsetWidth (initFloatingPlayer s w) = offsetWidth w"
    "offsetHeight (initFloatingPlayer s w) = offsetHeight w"
  using assms by (simp_all add: initFloatingPlayer_def Let_def)

subsection \<open>The placeholder's size\<close>

lemma keeps_refl: "keeps w w"
  by (simp add: keeps_def heldOrMade_def sameSize_def)

lemma keeps_trans:
  assumes a: "keeps w w'" and b: "keeps w' w''"
  shows "keeps w w''"
proof -
  have n: "nextNode w \<le> nextNode w'" "nextNode w' \<le> nextNode w''"
    and o: "offsetWidth w' = offsetWidth w" "offsetHeight w' = offsetHeight w"
      "offsetWidth w'' = offsetWidth w'" "offsetHeight w'' = offsetHeight w'"
    using a b by (simp_all add: keeps_def)
  have "heldOrMade w w''"
    unfolding heldOrMade_def
  proof (intro allI impI)
    fix vs assume f: "isFloating w'' \<and> videoState w'' = Some vs"
    from b f have "(isFloating w' \<and> videoState w' = Some vs \<and> sameSize w' w'' vs) \<or>
                   (nextNode w' \<le> placeholder vs \<and> sizedAt w' w'' vs)"
      by (simp add: keeps_def heldOrMade_def)
    then show "(isFloating w \<and> videoState w = Some vs \<and> sameSize w w'' vs) \<or>
               (nextNode w \<le> placeholder vs \<and> sizedAt w w'' vs)"
    proof
      assume h: "isFloating w' \<and> videoState w' = Some vs \<and> sameSize w' w'' vs"
      with a have "(isFloating w \<and> videoState w = Some vs \<and> sameSize w w' vs) \<or>
                   (nextNode w \<le> placeholder vs \<and> sizedAt w w' vs)"
        by (simp add: keeps_def heldOrMade_def)
      then show ?thesis
        using h by (auto simp: sameSize_def sizedAt_def)
    next
      assume "nextNode w' \<le> placeholder vs \<and> sizedAt w' w'' vs"
      then show ?thesis
        using n o by (auto simp: sizedAt_def)
    qed
  qed
  then show ?thesis using n o by (simp add: keeps_def)
qed

lemma keeps_same:
  assumes "nextNode w' = nextNode w" "offsetWidth w' = offsetWidth w"
    "offsetHeight w' = offsetHeight w" "isFloating w' = isFloating w"
    "videoState w' = videoState w"
    "\<And>n. style w' n ''width'' = style w n ''width''"
    "\<And>n. style w' n ''height'' = style w n ''height''"
  shows "keeps w w'"
  using assms by (simp add: keeps_def heldOrMade_def sameSize_def)

lemma keeps_docked:
  assumes "nextNode w \<le> nextNode w'" "offsetWidth w' = offsetWidth w"
    "offsetHeight w' = offsetHeight w" "\<not> isFloating w'"
  shows "keeps w w'"
  using assms by (simp add: keeps_def heldOrMade_def)

lemma keeps_showFloatingPlayer:
  assumes i: "engineInv w"
  shows "keeps w (showFloatingPlayer w)"
proof (cases "showFloatingPlayer w = w")
  case True
  then show ?thesis by (simp add: keeps_refl)
next
  case False
  then obtain v c p where cf: "canFloat w v c p"
    using showFloatingPlayer_cases [of w] by blast
  have wf: "wfdom w" using i by (simp add: engineInv_def)
  note g = engineInv_canFloat [OF i cf]
  note st = showFloatingPlayer_state [OF cf]
  note sy = showFloatingPlayer_styles [OF wf cf g(1)]
  have "heldOrMade w (showFloatingPlayer w)"
    unfolding heldOrMade_def using st sy by (auto simp: sizedAt_def)
  then show ?thesis by (simp add: keeps_def st)
qed

lemma keeps_hideFloatingPlayer:
  assumes i: "engineInv w"
  shows "keeps w (hideFloatingPlayer w)"
  using engineInv_not_floating_eq [OF i] by (intro keeps_docked) simp_all


lemma keeps_congR:
  assumes "keeps w u" "nextNode w' = nextNode u" "offsetWidth w' = offsetWidth u"
    "offsetHeight w' = offsetHeight u" "isFloating w' = isFloating u"
    "videoState w' = videoState u" "style w' = style u"
  shows "keeps w w'"
  using assms by (simp add: keeps_def heldOrMade_def sameSize_def sizedAt_def)

lemma keeps_handleVideoPlay:
  assumes i: "engineInv w"
  shows "keeps w (handleVideoPlay v w)"
proof (cases "tagName w v = ''VIDEO''")
  case False
  then show ?thesis by (simp add: handleVideoPlay_def keeps_refl)
next
  case True
  let ?w' = "w\<lparr>isManuallyHidden := False\<rparr>"
  show ?thesis
  proof (cases "recentlyPlayedVideo w \<noteq> Some v \<and> isFloating w \<and>
                (case videoState w of None \<Rightarrow> False | Some vs \<Rightarrow> video vs \<noteq> v)")
    case False
    show ?thesis
      by (rule keeps_same)
        (use True False in \<open>auto simp: handleVideoPlay_def Let_def split: option.splits\<close>)
  next
    case c: True
    have i': "engineInv ?w'" by (rule engineInv_cong [OF i]) simp_all
    have nf: "\<not> isFloating (hideFloatingPlayer ?w')" using i' by (rule engineInv_not_floating_eq)
    have "\<not> isFloating (handleVideoPlay v w)"
      using True c nf by (simp add: handleVideoPlay_def Let_def split: option.splits)
    then show ?thesis
      by (intro keeps_docked) simp_all
  qed
qed

lemma keeps_handleEntry:
  assumes i: "engineInv w"
  shows "keeps w (handleEntry en w)"
proof -
  let ?valid = "if isFloating w
                then (case videoState w of None \<Rightarrow> False | Some vs \<Rightarrow> fst en = placeholder vs)
                else recentlyPlayedVideo w = Some (fst en)"
  consider (out) "?valid" "\<not> snd en" "\<not> isFloating w"
    | (gain) "?valid" "snd en" "isFloating w"
    | (none) "\<not> ?valid \<or> (snd en \<and> \<not> isFloating w) \<or> (\<not> snd en \<and> isFloating w)"
    by blast
  then show ?thesis
  proof cases
    case out
    show ?thesis
      by (rule keeps_congR [OF keeps_showFloatingPlayer [OF i]])
        (use out in \<open>simp_all add: handleEntry_def Let_def split: option.splits\<close>)
  next
    case gain
    have "\<not> isFloating (hideFloatingPlayer w)" using i by (rule engineInv_not_floating_eq)
    then have "\<not> isFloating (handleEntry en w)"
      using gain by (simp add: handleEntry_def Let_def split: option.splits)
    moreover have "nextNode (handleEntry en w) = nextNode w"
      using gain by (simp add: handleEntry_def Let_def split: option.splits)
    ultimately show ?thesis
      by (intro keeps_docked) simp_all
  next
    case none
    then have "handleEntry en w = w"
      by (auto simp: handleEntry_def Let_def)
    then show ?thesis by (simp add: keeps_refl)
  qed
qed

lemma keeps_handleIntersection:
  "engineInv w \<Longrightarrow> keeps w (handleIntersection ens w)"
proof (induction ens arbitrary: w)
  case Nil
  then show ?case by (simp add: handleIntersection_def keeps_refl)
next
  case (Cons en ens)
  have k1: "keeps w (handleEntry en w)" using Cons.prems by (rule keeps_handleEntry)
  have i1: "engineInv (handleEntry en w)" using Cons.prems by (rule engineInv_handleEntry)
  have "keeps (handleEntry en w) (handleIntersection ens (handleEntry en w))"
    using i1 by (rule Cons.IH)
  then have "keeps w (handleIntersection ens (handleEntry en w))"
    using k1 by (rule keeps_trans [rotated])
  then show ?case by (simp add: handleIntersection_def)
qed

lemma keeps_closeClick: "engineInv w \<Longrightarrow> keeps w (closeClick w)"
  unfolding closeClick_eq
  by (rule keeps_congR [OF keeps_hideFloatingPlayer]) simp_all

lemma keeps_returnFloatingVideo:
  assumes i: "engineInv w"
  shows "keeps w (returnFloatingVideo b w)"
proof (cases "isFloating w")
  case False
  then show ?thesis by (simp add: returnFloatingVideo_def keeps_refl)
next
  case True
  have "\<And>f. engineInv (w\<lparr>paused := f\<rparr>)"
    by (rule engineInv_cong [OF i]) simp_all
  then have "\<And>f. \<not> isFloating (hideFloatingPlayer (w\<lparr>paused := f\<rparr>))"
    by (rule engineInv_not_floating_eq)
  moreover have "\<not> isFloating (hideFloatingPlayer w)" using i by (rule engineInv_not_floating_eq)
  moreover obtain vs where "videoState w = Some vs"
    using engineInv_floating [OF i True] by (auto simp: floatingAt_def)
  ultimately have "\<not> isFloating (returnFloatingVideo b w)"
    by (auto simp: returnFloatingVideo_def split: option.splits)
  then show ?thesis by (intro keeps_docked) simp_all
qed

lemma keeps_destroyFloatingPlayer: "keeps w (destroyFloatingPlayer w)"
proof -
  have "\<not> isFloating (destroyFloatingPlayer w)"
    by (simp add: destroyFloatingPlayer_def Let_def split: option.splits)
  moreover have "nextNode (destroyFloatingPlayer w) = nextNode w"
    "offsetWidth (destroyFloatingPlayer w) = offsetWidth w"
    "offsetHeight (destroyFloatingPlayer w) = offsetHeight w"
    by (simp_all add: destroyFloatingPlayer_def Let_def split: option.splits)
  ultimately show ?thesis by (intro keeps_docked) simp_all
qed

lemma keeps_updateFloatingPlayerSettings:
  assumes i: "engineInv w"
  shows "keeps w (updateFloatingPlayerSettings s w)"
proof (cases "\<not> enabled s \<and> floatingContainer w \<noteq> None")
  case True
  have i0: "engineInv (w\<lparr>currentSettings := s\<rparr>)" by (rule engineInv_cong [OF i]) simp_all
  have "\<not> isFloating (hideFloatingPlayer (w\<lparr>currentSettings := s\<rparr>))"
    using i0 by (rule engineInv_not_floating_eq)
  then have "\<not> isFloating (updateFloatingPlayerSettings s w)"
    using True
    by (auto simp: updateFloatingPlayerSettings_def Let_def split: option.splits if_splits)
  then show ?thesis by (intro keeps_docked) simp_all
next
  case False
  have f: "isFloating (updateFloatingPlayerSettings s w) = isFloating w"
    "videoState (updateFloatingPlayerSettings s w) = videoState w"
    using False by (auto simp: updateFloatingPlayerSettings_def Let_def split: option.splits)
  have sty: "\<And>n c. floatingContainer w = Some c \<Longrightarrow> n \<noteq> c \<Longrightarrow>
               style (updateFloatingPlayerSettings s w) n = style w n"
    using False
    by (auto simp: updateFloatingPlayerSettings_def Let_def setStyle_def split: option.splits)
  have sty0: "floatingContainer w = None \<Longrightarrow> style (updateFloatingPlayerSettings s w) = style w"
    by (simp add: updateFloatingPlayerSettings_def Let_def)
  have "heldOrMade w (updateFloatingPlayerSettings s w)"
    unfolding heldOrMade_def
  proof (intro allI impI)
    fix vs
    assume h: "isFloating (updateFloatingPlayerSettings s w) \<and>
               videoState (updateFloatingPlayerSettings s w) = Some vs"
    then have fl: "isFloating w" and vs: "videoState w = Some vs" using f by simp_all
    from engineInv_floating [OF i fl] obtain vs' c where
      a: "floatingAt w vs' c" and hph: "hasClass w placeholderClass (placeholder vs')"
      and un: "\<forall>n. hasClass w placeholderClass n \<and> parent w n \<noteq> None \<longrightarrow> n = placeholder vs'"
      and fv: "filter (isVideo w) (kids w c) = [video vs']" and c: "c < nextNode w"
      and nc: "\<not> hasClass w placeholderClass c"
      by blast
    have e: "vs' = vs" using a vs by (simp add: floatingAt_def)
    have "placeholder vs \<noteq> c" using hph nc e by auto
    moreover have "floatingContainer w = Some c" using a by (simp add: floatingAt_def)
    ultimately have "placeholder vs \<noteq> c" and "floatingContainer w = Some c" by simp_all
    then have "style (updateFloatingPlayerSettings s w) (placeholder vs) = style w (placeholder vs)"
      using sty by simp
    then show "(isFloating w \<and> videoState w = Some vs \<and>
                sameSize w (updateFloatingPlayerSettings s w) vs) \<or>
               (nextNode w \<le> placeholder vs \<and> sizedAt w (updateFloatingPlayerSettings s w) vs)"
      using fl vs by (simp add: sameSize_def)
  qed
  then show ?thesis by (simp add: keeps_def)
qed


lemma createFloatingContainer_nextNode:
  "nextNode (snd (createFloatingContainer w)) = Suc (Suc (Suc (nextNode w)))"
  by (simp add: createFloatingContainer_def Let_def case_prod_beta createElement_def)

lemma initFloatingPlayer_engine_fields:
  "isFloating (initFloatingPlayer s w) = isFloating w"
  "videoState (initFloatingPlayer s w) = videoState w"
  "offsetWidth (initFloatingPlayer s w) = offsetWidth w"
  "offsetHeight (initFloatingPlayer s w) = offsetHeight w"
  "nextNode w \<le> nextNode (initFloatingPlayer s w)"
  by (simp_all add: initFloatingPlayer_def Let_def case_prod_beta
      createFloatingContainer_nextNode split: option.splits)

lemma keeps_initFloatingPlayer:
  assumes i: "engineInv w"
  shows "keeps w (initFloatingPlayer s w)"
proof (cases "floatingContainer w")
  case None
  then have "\<not> isFloating w" using i by (simp add: engineInv_no_container)
  then show ?thesis
    by (intro keeps_docked) (simp_all add: initFloatingPlayer_engine_fields)
next
  case (Some c)
  show ?thesis
    by (rule keeps_same) (simp_all add: initFloatingPlayer_container [OF Some])
qed

lemma keeps_startDrag: "keeps w (startDrag e w)"
  by (rule keeps_same) simp_all

lemma keeps_stopDrag: "keeps w (stopDrag w)"
  by (rule keeps_same) simp_all

lemma keeps_onDrag: "keeps w (onDrag e w)"
  by (rule keeps_same) (simp_all add: onDrag_def Let_def setStyle_def split: option.splits)

lemma keeps_heldOrMade: "keeps w w' \<Longrightarrow> heldOrMade w w'"
  by (simp add: keeps_def)

lemma heldOrMade_step:
  assumes i: "engineInv w"
  shows "heldOrMade w (step e w)"
proof (cases e)
  case (Play v)
  then show ?thesis using i by (simp add: keeps_heldOrMade keeps_handleVideoPlay keeps_refl)
next
  case (Intersect ens)
  then show ?thesis using i by (simp add: keeps_heldOrMade keeps_handleIntersection keeps_refl)
next
  case CloseClick
  then show ?thesis using i by (simp add: keeps_heldOrMade keeps_closeClick keeps_refl)
next
  case (MouseDown e)
  then show ?thesis by (simp add: keeps_heldOrMade keeps_startDrag keeps_refl)
next
  case (MouseMove e)
  then show ?thesis by (simp add: keeps_heldOrMade keeps_onDrag keeps_refl)
next
  case MouseUp
  then show ?thesis by (simp add: keeps_heldOrMade keeps_stopDrag keeps_refl)
next
  case (Init s)
  then show ?thesis using i by (simp add: keeps_heldOrMade keeps_initFloatingPlayer)
next
  case (Update s)
  then show ?thesis using i by (simp add: keeps_heldOrMade keeps_updateFloatingPlayerSettings)
next
  case Destroy
  then show ?thesis by (simp add: keeps_heldOrMade keeps_destroyFloatingPlayer)
next
  case (ReturnFloating b)
  then show ?thesis using i by (simp add: keeps_heldOrMade keeps_returnFloatingVideo)
next
  case (Layout ow oh br iw ih)
  then show ?thesis by (simp add: heldOrMade_def sameSize_def)
next
  case (Pause v)
  then show ?thesis by (simp add: heldOrMade_def sameSize_def)
qed

lemma engineInv_placeholder_alloc:
  assumes i: "engineInv w" and f: "floatsWith w vs"
  shows "placeholder vs < nextNode w"
proof -
  have wf: "wfdom w" using i by (simp add: engineInv_def)
  from f have "isFloating w" "videoState w = Some vs" by (simp_all add: floatsWith_def)
  then obtain c where "floatingAt w vs c" using engineInv_floatingAt [OF i] by blast
  then have "parent w (placeholder vs) = Some (originalParent vs)"
    by (simp add: floatingAt_def parentElement_parent)
  then show ?thesis using wf by (rule wfdom_child_alloc [rotated])
qed

lemma engineInv_slot:
  assumes i: "engineInv w"
  shows "isFloating w = (\<exists>n. hasClass w placeholderClass n \<and> parent w n \<noteq> None)"
    and "isFloating w = (videoState w \<noteq> None)"
    and "floatsWith w vs \<Longrightarrow>
           hasClass w placeholderClass (placeholder vs) \<and>
           parent w (placeholder vs) = Some (originalParent vs) \<and>
           nextSibling w (placeholder vs) = originalNextSibling vs \<and>
           (\<forall>n. hasClass w placeholderClass n \<and> parent w n \<noteq> None \<longrightarrow> n = placeholder vs) \<and>
           (\<exists>c. floatingContainer w = Some c \<and> parent w (video vs) = Some c)"
proof -
  have po: "placeholderOk w" using i by (simp add: engineInv_def)
  have fl: "isFloating w \<Longrightarrow> \<exists>vs c. floatingAt w vs c \<and>
              hasClass w placeholderClass (placeholder vs) \<and>
              (\<forall>n. hasClass w placeholderClass n \<and> parent w n \<noteq> None \<longrightarrow> n = placeholder vs)"
    using po by (simp add: placeholderOk_def)
  have dk: "\<not> isFloating w \<Longrightarrow>
              videoState w = None \<and> (\<forall>n. hasClass w placeholderClass n \<longrightarrow> parent w n = None)"
    using po by (simp add: placeholderOk_def)
  have at: "floatingAt w vs c \<Longrightarrow> parent w (placeholder vs) = Some (originalParent vs)" for vs c
    by (simp add: floatingAt_def parentElement_parent)
  show "isFloating w = (\<exists>n. hasClass w placeholderClass n \<and> parent w n \<noteq> None)"
  proof (rule iffI)
    assume t: "isFloating w"
    from fl [OF t] obtain vs c where a: "floatingAt w vs c"
      "hasClass w placeholderClass (placeholder vs)" by blast
    have "parent w (placeholder vs) \<noteq> None" using at [OF a(1)] by simp
    then show "\<exists>n. hasClass w placeholderClass n \<and> parent w n \<noteq> None"
      using a(2) by (intro exI [of _ "placeholder vs"]) simp
  next
    assume e: "\<exists>n. hasClass w placeholderClass n \<and> parent w n \<noteq> None"
    show "isFloating w"
    proof (rule ccontr)
      assume "\<not> isFloating w"
      from dk [OF this] e show False by auto
    qed
  qed
  show "isFloating w = (videoState w \<noteq> None)"
  proof (cases "isFloating w")
    case True
    from fl [OF True] obtain vs c where "floatingAt w vs c" by blast
    then show ?thesis using True by (simp add: floatingAt_def)
  next
    case False
    then show ?thesis using dk [OF False] by simp
  qed
  assume f: "floatsWith w vs"
  then have t: "isFloating w" and v: "videoState w = Some vs" by (simp_all add: floatsWith_def)
  from fl [OF t] obtain vs' c where a: "floatingAt w vs' c"
    "hasClass w placeholderClass (placeholder vs')"
    "\<forall>n. hasClass w placeholderClass n \<and> parent w n \<noteq> None \<longrightarrow> n = placeholder vs'"
    by blast
  have e: "vs' = vs" using a(1) v by (simp add: floatingAt_def)
  have p: "parent w (placeholder vs) = Some (originalParent vs)" using at [OF a(1)] e by simp
  have "after (placeholder vs) (kids w (originalParent vs)) = originalNextSibling vs"
    using a(1) e by (simp add: floatingAt_def)
  then have ns: "nextSibling w (placeholder vs) = originalNextSibling vs"
    using p by (simp add: nextSibling_def)
  have c: "floatingContainer w = Some c \<and> parent w (video vs) = Some c"
    using a(1) e by (simp add: floatingAt_def)
  show "hasClass w placeholderClass (placeholder vs) \<and>
        parent w (placeholder vs) = Some (originalParent vs) \<and>
        nextSibling w (placeholder vs) = originalNextSibling vs \<and>
        (\<forall>n. hasClass w placeholderClass n \<and> parent w n \<noteq> None \<longrightarrow> n = placeholder vs) \<and>
        (\<exists>c. floatingContainer w = Some c \<and> parent w (video vs) = Some c)"
    using a(2,3) e p ns c by blast
qed

lemma run_snoc: "run (es @ [e]) w = step e (run es w)"
  by (simp add: run_def)

lemma size_trace:
  assumes i: "engineInv w0" and d: "\<not> isFloating w0"
  shows "floatsWith (run es w0) vs \<Longrightarrow>
         \<exists>es1 e es2. es = es1 @ e # es2 \<and> \<not> floatsWith (run es1 w0) vs \<and>
           (\<forall>k\<le>length es2. floatsWith (run (es1 @ e # take k es2) w0) vs) \<and>
           sizedAt (run es1 w0) (run es w0) vs"
proof (induction es rule: rev_induct)
  case Nil
  then show ?case using d by (simp add: run_def floatsWith_def)
next
  case (snoc e es)
  let ?w' = "run es w0" and ?w = "run (es @ [e]) w0"
  have i': "engineInv ?w'" using i by (rule engineInv_run)
  have w: "?w = step e ?w'" by (rule run_snoc)
  have hm: "heldOrMade ?w' ?w" unfolding w using i' by (rule heldOrMade_step)
  have f: "isFloating ?w \<and> videoState ?w = Some vs"
    using snoc.prems by (simp add: floatsWith_def)
  from hm f have "(isFloating ?w' \<and> videoState ?w' = Some vs \<and> sameSize ?w' ?w vs) \<or>
                  (nextNode ?w' \<le> placeholder vs \<and> sizedAt ?w' ?w vs)"
    unfolding heldOrMade_def by blast
  then show ?case
  proof
    assume h: "isFloating ?w' \<and> videoState ?w' = Some vs \<and> sameSize ?w' ?w vs"
    then have "floatsWith ?w' vs" by (simp add: floatsWith_def)
    from snoc.IH [OF this] obtain es1 e1 es2 where
      s: "es = es1 @ e1 # es2" and n: "\<not> floatsWith (run es1 w0) vs"
      and a: "\<forall>k\<le>length es2. floatsWith (run (es1 @ e1 # take k es2) w0) vs"
      and z: "sizedAt (run es1 w0) ?w' vs"
      by blast
    have s': "es @ [e] = es1 @ e1 # (es2 @ [e])" using s by simp
    have a': "\<forall>k\<le>length (es2 @ [e]). floatsWith (run (es1 @ e1 # take k (es2 @ [e])) w0) vs"
    proof (intro allI impI)
      fix k assume k: "k \<le> length (es2 @ [e])"
      show "floatsWith (run (es1 @ e1 # take k (es2 @ [e])) w0) vs"
      proof (cases "k \<le> length es2")
        case True
        then show ?thesis using a by simp
      next
        case False
        then have "take k (es2 @ [e]) = es2 @ [e]" using k by simp
        then have "es1 @ e1 # take k (es2 @ [e]) = es @ [e]" using s by simp
        then show ?thesis using snoc.prems by simp
      qed
    qed
    have z': "sizedAt (run es1 w0) ?w vs"
      using z h by (simp add: sizedAt_def sameSize_def)
    show ?thesis using s' n a' z' by blast
  next
    assume m: "nextNode ?w' \<le> placeholder vs \<and> sizedAt ?w' ?w vs"
    have n: "\<not> floatsWith ?w' vs"
      using engineInv_placeholder_alloc [OF i', of vs] m by auto
    have a: "\<forall>k\<le>length ([]::event list). floatsWith (run (es @ e # take k []) w0) vs"
      using snoc.prems by simp
    have "es @ [e] = es @ e # []" by simp
    then show ?thesis using n a m by blast
  qed
qed

lemma engineInv_demoDocked: "engineInv demoDocked"
proof -
  have t: "trackedOk demoDocked"
    by (simp add: trackedOk_def demoDocked_def demoPage_def)
  have h: "\<And>n. \<not> hasClass demoDocked placeholderClass n"
    by (simp add: hasClass_def placeholderClass_def demoDocked_def demoPage_def)
  have k: "kids demoDocked 10 = [11, 12]" "tagName demoDocked 11 = ''DIV''"
    "tagName demoDocked 12 = ''BUTTON''" "body demoDocked = 2" "nextNode demoDocked = 13"
    "floatingContainer demoDocked = Some 10" "\<not> isFloating demoDocked"
    "videoState demoDocked = None"
    by (simp_all add: demoDocked_def demoPage_def)
  have c: "containerOk demoDocked"
    by (simp add: containerOk_def h k isVideo_def)
  have p: "placeholderOk demoDocked"
    by (simp add: placeholderOk_def h k)
  show ?thesis
    using wfdom_demoDocked t c p by (simp add: engineInv_def)
qed

section \<open>C1: one floating video, and switching videos\<close>

text \<open>
  C1. From any state that satisfies the engine's invariant, after any sequence of
  events: at most one video is a child of the floating container. When the tracked video
  is \<open>a\<close> and a \<open>play\<close> event arrives for a different video \<open>b\<close>, then right after the handler
  \<open>b\<close> is tracked and the manually-hidden flag is clear, and if \<open>a\<close> was floating it is
  DOCKED again: a child of its original parent, in front of its recorded next sibling, in
  the place its placeholder held, and the placeholder is detached. In the sequence
  \<open>play a\<close>, \<open>a\<close> leaves the viewport, \<open>play b\<close>, started while DOCKED, the tree after the
  handler for \<open>b\<close> is the tree from before, whether \<open>a\<close> floated or not.
\<close>

theorem one_floating_video_and_switch:
  assumes i: "engineInv w0"
  shows "(\<forall>es. length (floatingVideos (run es w0)) \<le> 1) \<and>
         (\<forall>es a b vs.
            playListener (run es w0) \<and> recentlyPlayedVideo (run es w0) = Some a \<and> a \<noteq> b \<and>
            b < nextNode (run es w0) \<and> tagName (run es w0) b = ''VIDEO'' \<longrightarrow>
            (let w = run es w0; w' = step (Play b) w
             in recentlyPlayedVideo w' = Some b \<and> \<not> isManuallyHidden w' \<and>
                length (floatingVideos w') \<le> 1 \<and>
                (isFloating w \<and> videoState w = Some vs \<and> video vs = a \<longrightarrow>
                   \<not> isFloating w' \<and> floatingVideos w' = [] \<and>
                   parent w' a = Some (originalParent vs) \<and>
                   nextSibling w' a = originalNextSibling vs \<and>
                   kids w' (originalParent vs) =
                     swapNode (placeholder vs) a (kids w (originalParent vs)) \<and>
                   parent w' (placeholder vs) = None))) \<and>
         (\<forall>es a b.
            \<not> isFloating (run es w0) \<and> playListener (run es w0) \<and> a \<noteq> b \<and>
            a < nextNode (run es w0) \<and> tagName (run es w0) a = ''VIDEO'' \<and>
            b < nextNode (run es w0) \<and> tagName (run es w0) b = ''VIDEO'' \<longrightarrow>
            (let w = run es w0; w3 = run [Play a, Intersect [(a, False)], Play b] w
             in kids w3 = kids w \<and> parent w3 = parent w \<and> \<not> isFloating w3 \<and>
                recentlyPlayedVideo w3 = Some b \<and> \<not> isManuallyHidden w3))"
proof -
  have inv: "\<And>es. engineInv (run es w0)" using i by (rule engineInv_run)
  have A: "\<forall>es. length (floatingVideos (run es w0)) \<le> 1"
    using engineInv_one_floating [OF inv] by blast
  have B: "\<forall>es a b vs.
            playListener (run es w0) \<and> recentlyPlayedVideo (run es w0) = Some a \<and> a \<noteq> b \<and>
            b < nextNode (run es w0) \<and> tagName (run es w0) b = ''VIDEO'' \<longrightarrow>
            (let w = run es w0; w' = step (Play b) w
             in recentlyPlayedVideo w' = Some b \<and> \<not> isManuallyHidden w' \<and>
                length (floatingVideos w') \<le> 1 \<and>
                (isFloating w \<and> videoState w = Some vs \<and> video vs = a \<longrightarrow>
                   \<not> isFloating w' \<and> floatingVideos w' = [] \<and>
                   parent w' a = Some (originalParent vs) \<and>
                   nextSibling w' a = originalNextSibling vs \<and>
                   kids w' (originalParent vs) =
                     swapNode (placeholder vs) a (kids w (originalParent vs)) \<and>
                   parent w' (placeholder vs) = None))"
  proof (intro allI impI)
    fix es a b vs
    define w where "w = run es w0"
    assume "playListener (run es w0) \<and> recentlyPlayedVideo (run es w0) = Some a \<and> a \<noteq> b \<and>
            b < nextNode (run es w0) \<and> tagName (run es w0) b = ''VIDEO''"
    then have pl: "playListener w" and rp: "recentlyPlayedVideo w = Some a" and ab: "a \<noteq> b"
      and bn: "b < nextNode w" and tb: "tagName w b = ''VIDEO''"
      by (simp_all add: w_def)
    have iw: "engineInv w" unfolding w_def by (rule inv)
    have wf: "wfdom w" using iw by (simp add: engineInv_def)
    have s: "step (Play b) w = handleVideoPlay b w" using pl bn by simp
    have i': "engineInv (handleVideoPlay b w)" using iw bn by (rule engineInv_handleVideoPlay)
    note sw = handleVideoPlay_switch [OF iw rp ab tb]
    have C: "isFloating w \<and> videoState w = Some vs \<and> video vs = a \<longrightarrow>
               \<not> isFloating (handleVideoPlay b w) \<and> floatingVideos (handleVideoPlay b w) = [] \<and>
               parent (handleVideoPlay b w) a = Some (originalParent vs) \<and>
               nextSibling (handleVideoPlay b w) a = originalNextSibling vs \<and>
               kids (handleVideoPlay b w) (originalParent vs) =
                 swapNode (placeholder vs) a (kids w (originalParent vs)) \<and>
               parent (handleVideoPlay b w) (placeholder vs) = None"
    proof
      assume h: "isFloating w \<and> videoState w = Some vs \<and> video vs = a"
      then have f: "isFloating w" and v: "videoState w = Some vs" and va: "video vs = a"
        by simp_all
      from engineInv_floatingAt [OF iw f v] obtain c where fl: "floatingAt w vs c" by blast
      note hr = hideFloatingPlayer_restores [OF wf fl]
      have e: "kids (handleVideoPlay b w) = kids (hideFloatingPlayer w)"
        "parent (handleVideoPlay b w) = parent (hideFloatingPlayer w)"
        "isFloating (handleVideoPlay b w) = isFloating (hideFloatingPlayer w)"
        using sw(3) [OF f v va] by simp_all
      have nf: "\<not> isFloating (handleVideoPlay b w)" using hr(1) e(3) by simp
      have ns: "nextSibling (handleVideoPlay b w) a = nextSibling (hideFloatingPlayer w) a"
        using e(1,2) by (rule nextSibling_eqI)
      show "\<not> isFloating (handleVideoPlay b w) \<and> floatingVideos (handleVideoPlay b w) = [] \<and>
            parent (handleVideoPlay b w) a = Some (originalParent vs) \<and>
            nextSibling (handleVideoPlay b w) a = originalNextSibling vs \<and>
            kids (handleVideoPlay b w) (originalParent vs) =
              swapNode (placeholder vs) a (kids w (originalParent vs)) \<and>
            parent (handleVideoPlay b w) (placeholder vs) = None"
        using nf engineInv_docked_none [OF i' nf] hr va ns by (simp add: e)
    qed
    show "let w = run es w0; w' = step (Play b) w
          in recentlyPlayedVideo w' = Some b \<and> \<not> isManuallyHidden w' \<and>
             length (floatingVideos w') \<le> 1 \<and>
             (isFloating w \<and> videoState w = Some vs \<and> video vs = a \<longrightarrow>
                \<not> isFloating w' \<and> floatingVideos w' = [] \<and>
                parent w' a = Some (originalParent vs) \<and>
                nextSibling w' a = originalNextSibling vs \<and>
                kids w' (originalParent vs) =
                  swapNode (placeholder vs) a (kids w (originalParent vs)) \<and>
                parent w' (placeholder vs) = None)"
      unfolding Let_def w_def [symmetric] s
      using sw(1,2) engineInv_one_floating [OF i'] C by blast
  qed
  have D: "\<forall>es a b.
            \<not> isFloating (run es w0) \<and> playListener (run es w0) \<and> a \<noteq> b \<and>
            a < nextNode (run es w0) \<and> tagName (run es w0) a = ''VIDEO'' \<and>
            b < nextNode (run es w0) \<and> tagName (run es w0) b = ''VIDEO'' \<longrightarrow>
            (let w = run es w0; w3 = run [Play a, Intersect [(a, False)], Play b] w
             in kids w3 = kids w \<and> parent w3 = parent w \<and> \<not> isFloating w3 \<and>
                recentlyPlayedVideo w3 = Some b \<and> \<not> isManuallyHidden w3)"
    unfolding Let_def using play_float_play [OF inv] by blast
  show ?thesis using A B D by blast
qed

theorem one_floating_video_and_switch_witness:
  "engineInv demoFloating \<and>
   length (floatingVideos (run [CloseClick, Play 7] demoFloating)) \<le> 1 \<and>
   playListener (run [] demoFloating) \<and> recentlyPlayedVideo (run [] demoFloating) = Some 4 \<and>
   7 < nextNode (run [] demoFloating) \<and> tagName (run [] demoFloating) 7 = ''VIDEO'' \<and>
   isFloating (run [] demoFloating) \<and> videoState (run [] demoFloating) = Some demoVideoState \<and>
   video demoVideoState = 4 \<and>
   \<not> isFloating (step (Play 7) (run [] demoFloating)) \<and>
   parent (step (Play 7) (run [] demoFloating)) 4 = Some 3 \<and>
   nextSibling (step (Play 7) (run [] demoFloating)) 4 = Some 5 \<and>
   \<not> isManuallyHidden (step (Play 7) (run [] demoFloating)) \<and>
   \<not> isFloating (run [CloseClick] demoFloating) \<and>
   playListener (run [CloseClick] demoFloating) \<and>
   4 < nextNode (run [CloseClick] demoFloating) \<and>
   tagName (run [CloseClick] demoFloating) 4 = ''VIDEO'' \<and>
   tagName (run [CloseClick] demoFloating) 7 = ''VIDEO'' \<and>
   kids (run [Play 4, Intersect [(4, False)], Play 7] (run [CloseClick] demoFloating))
     = kids (run [CloseClick] demoFloating)"
proof -
  note i = engineInv_demoFloating
  note t = one_floating_video_and_switch [OF i]
  have r0: "run [] demoFloating = demoFloating" by (simp add: run_def)
  have rc: "run [CloseClick] demoFloating = closeClick demoFloating"
    by (simp add: run_def demoFloating_engine)
  have v: "video demoVideoState = 4" "originalParent demoVideoState = 3"
    "originalNextSibling demoVideoState = Some 5"
    by (simp_all add: demoVideoState_def)
  have t1: "length (floatingVideos (run [CloseClick, Play 7] demoFloating)) \<le> 1"
    using t by blast
  have p2: "playListener (run [] demoFloating) \<and>
            recentlyPlayedVideo (run [] demoFloating) = Some 4 \<and> (4::nat) \<noteq> 7 \<and>
            7 < nextNode (run [] demoFloating) \<and> tagName (run [] demoFloating) 7 = ''VIDEO''"
    by (simp add: r0 demoFloating_engine demoFloating_tags)
  have f2: "isFloating (run [] demoFloating) \<and>
            videoState (run [] demoFloating) = Some demoVideoState \<and> video demoVideoState = 4"
    by (simp add: r0 demoFloating_engine v)
  have "let w = run [] demoFloating; w' = step (Play 7) w
        in recentlyPlayedVideo w' = Some 7 \<and> \<not> isManuallyHidden w' \<and>
           length (floatingVideos w') \<le> 1 \<and>
           (isFloating w \<and> videoState w = Some demoVideoState \<and> video demoVideoState = 4 \<longrightarrow>
              \<not> isFloating w' \<and> floatingVideos w' = [] \<and>
              parent w' 4 = Some (originalParent demoVideoState) \<and>
              nextSibling w' 4 = originalNextSibling demoVideoState \<and>
              kids w' (originalParent demoVideoState) =
                swapNode (placeholder demoVideoState) 4
                  (kids w (originalParent demoVideoState)) \<and>
              parent w' (placeholder demoVideoState) = None)"
    using t p2 by blast
  then have t2: "\<not> isManuallyHidden (step (Play 7) (run [] demoFloating)) \<and>
                 \<not> isFloating (step (Play 7) (run [] demoFloating)) \<and>
                 parent (step (Play 7) (run [] demoFloating)) 4 = Some 3 \<and>
                 nextSibling (step (Play 7) (run [] demoFloating)) 4 = Some 5"
    unfolding Let_def using f2 v by metis
  have nf: "\<not> isFloating (closeClick demoFloating)"
    using hideFloatingPlayer_state(2) [OF demoFloating_engine(3,4,5)] by (simp add: closeClick_eq)
  have p3: "\<not> isFloating (run [CloseClick] demoFloating) \<and>
            playListener (run [CloseClick] demoFloating) \<and> (4::nat) \<noteq> 7 \<and>
            4 < nextNode (run [CloseClick] demoFloating) \<and>
            tagName (run [CloseClick] demoFloating) 4 = ''VIDEO'' \<and>
            7 < nextNode (run [CloseClick] demoFloating) \<and>
            tagName (run [CloseClick] demoFloating) 7 = ''VIDEO''"
    unfolding rc using nf by (simp add: demoFloating_engine demoFloating_tags)
  have "let w = run [CloseClick] demoFloating;
            w3 = run [Play 4, Intersect [(4, False)], Play 7] w
        in kids w3 = kids w \<and> parent w3 = parent w \<and> \<not> isFloating w3 \<and>
           recentlyPlayedVideo w3 = Some 7 \<and> \<not> isManuallyHidden w3"
    using t p3 by blast
  then have t3: "kids (run [Play 4, Intersect [(4, False)], Play 7]
                   (run [CloseClick] demoFloating)) = kids (run [CloseClick] demoFloating)"
    unfolding Let_def by blast
  show ?thesis
    using i t1 p2 f2 t2 p3 t3 by blast
qed

section \<open>C8: dragging\<close>

text \<open>
  C8, as the source has it. While a drag is active, \<open>onDrag\<close> sets \<open>right\<close> and \<open>bottom\<close> of
  the container to \<open>auto\<close> and \<open>left\<close> and \<open>top\<close> to the clamped position
  \<open>max 10 (min (pointer - drag offset) (viewport - S - 10))\<close>, where \<open>S\<close> is the width
  (height) that \<open>SIZE_MAP\<close> gives for the size in the current settings; no other style of
  any element changes, so the container's own \<open>width\<close> and \<open>height\<close> stay as they are.
  Therefore, for any pointer coordinates: \<open>left\<close> and \<open>top\<close> are at least 10 pixels; a
  position that leaves both margins is taken as it is; in a viewport of at least \<open>S + 20\<close>
  pixels, \<open>left + S\<close> is at most \<open>viewport - 10\<close>; in a smaller viewport \<open>left\<close> is 10
  pixels and \<open>left + S\<close> is beyond \<open>viewport - 10\<close>, and beyond the viewport exactly if
  the viewport is smaller than \<open>S + 10\<close> (the same for \<open>top\<close> and the height). The three
  drag handlers leave the DOCKED or FLOATING state, the \<open>FloatingState\<close> and the tree as
  they are: \<open>onDrag\<close> changes nothing but these styles, \<open>startDrag\<close> and \<open>stopDrag\<close>
  nothing but the drag state (\<open>isDragging\<close>, the drag offset, the listeners).
\<close>

theorem drag_clamps_position:
  assumes "isDragging w" and "floatingContainer w = Some c"
  shows "(let sz = SIZE_MAP (size_setting (currentSettings w));
              newX = clientX e - pos_x (dragOffset w);
              newY = clientY e - pos_y (dragOffset w);
              p = dragPosition e w;
              w' = onDrag e w
          in style w' c ''left'' = px (pos_x p) \<and> style w' c ''top'' = px (pos_y p) \<and>
             style w' c ''right'' = ''auto'' \<and> style w' c ''bottom'' = ''auto'' \<and>
             style w' =
               (style w)(c := (style w c)(''right'' := ''auto'', ''bottom'' := ''auto'',
                  ''left'' := px (pos_x p), ''top'' := px (pos_y p))) \<and>
             style w' c ''width'' = style w c ''width'' \<and>
             style w' c ''height'' = style w c ''height'' \<and>
             pos_x p = max 10 (min newX (innerWidth w - width sz - 10)) \<and>
             pos_y p = max 10 (min newY (innerHeight w - height sz - 10)) \<and>
             10 \<le> pos_x p \<and> 10 \<le> pos_y p \<and>
             (10 \<le> newX \<and> newX + width sz \<le> innerWidth w - 10 \<longrightarrow> pos_x p = newX) \<and>
             (10 \<le> newY \<and> newY + height sz \<le> innerHeight w - 10 \<longrightarrow> pos_y p = newY) \<and>
             (width sz + 20 \<le> innerWidth w \<longrightarrow> pos_x p + width sz \<le> innerWidth w - 10) \<and>
             (height sz + 20 \<le> innerHeight w \<longrightarrow> pos_y p + height sz \<le> innerHeight w - 10) \<and>
             (innerWidth w < width sz + 20 \<longrightarrow>
                pos_x p = 10 \<and> innerWidth w - 10 < pos_x p + width sz \<and>
                (innerWidth w < pos_x p + width sz) = (innerWidth w < width sz + 10)) \<and>
             (innerHeight w < height sz + 20 \<longrightarrow>
                pos_y p = 10 \<and> innerHeight w - 10 < pos_y p + height sz \<and>
                (innerHeight w < pos_y p + height sz) = (innerHeight w < height sz + 10)) \<and>
             isFloating w' = isFloating w \<and> videoState w' = videoState w \<and>
             kids w' = kids w \<and> parent w' = parent w) \<and>
         isFloating (startDrag e w) = isFloating w \<and>
         videoState (startDrag e w) = videoState w \<and>
         kids (startDrag e w) = kids w \<and> parent (startDrag e w) = parent w \<and>
         style (startDrag e w) = style w \<and>
         isFloating (stopDrag w) = isFloating w \<and> videoState (stopDrag w) = videoState w \<and>
         kids (stopDrag w) = kids w \<and> parent (stopDrag w) = parent w \<and>
         style (stopDrag w) = style w \<and>
         onDrag e w = w\<lparr>style := style (onDrag e w)\<rparr> \<and>
         startDrag e w =
           w\<lparr>isDragging := True, dragDoc := True,
             dragOffset := \<lparr>pos_x = clientX e - pos_x (boundingRect w c),
                             pos_y = clientY e - pos_y (boundingRect w c)\<rparr>\<rparr> \<and>
         stopDrag w = w\<lparr>isDragging := False, dragDoc := False\<rparr>"
proof -
  let ?sz = "SIZE_MAP (size_setting (currentSettings w))"
  let ?p = "dragPosition e w"
  have ss: "style (onDrag e w) =
              (style w)(c := (style w c)(''right'' := ''auto'', ''bottom'' := ''auto'',
                 ''left'' := px (pos_x ?p), ''top'' := px (pos_y ?p)))"
    using assms by (simp add: onDrag_styles)
  have st: "style (onDrag e w) c ''left'' = px (pos_x ?p)"
    "style (onDrag e w) c ''top'' = px (pos_y ?p)"
    "style (onDrag e w) c ''right'' = ''auto''"
    "style (onDrag e w) c ''bottom'' = ''auto''"
    "style (onDrag e w) c ''width'' = style w c ''width''"
    "style (onDrag e w) c ''height'' = style w c ''height''"
    by (simp_all add: ss)
  have f: "pos_x ?p = max 10 (min (clientX e - pos_x (dragOffset w))
                                   (innerWidth w - width ?sz - 10))"
    "pos_y ?p = max 10 (min (clientY e - pos_y (dragOffset w))
                             (innerHeight w - height ?sz - 10))"
    by (simp_all add: dragPosition_def Let_def)
  have nx: "innerWidth w < width ?sz + 20 \<longrightarrow>
              pos_x ?p = 10 \<and> innerWidth w - 10 < pos_x ?p + width ?sz \<and>
              (innerWidth w < pos_x ?p + width ?sz) = (innerWidth w < width ?sz + 10)"
    using dragPosition_narrow(1) [of w e] by auto
  have ny: "innerHeight w < height ?sz + 20 \<longrightarrow>
              pos_y ?p = 10 \<and> innerHeight w - 10 < pos_y ?p + height ?sz \<and>
              (innerHeight w < pos_y ?p + height ?sz) = (innerHeight w < height ?sz + 10)"
    using dragPosition_narrow(2) [of w e] by auto
  have ins: "10 \<le> clientX e - pos_x (dragOffset w) \<and>
             clientX e - pos_x (dragOffset w) + width ?sz \<le> innerWidth w - 10 \<longrightarrow>
             pos_x ?p = clientX e - pos_x (dragOffset w)"
    "10 \<le> clientY e - pos_y (dragOffset w) \<and>
     clientY e - pos_y (dragOffset w) + height ?sz \<le> innerHeight w - 10 \<longrightarrow>
     pos_y ?p = clientY e - pos_y (dragOffset w)"
    using dragPosition_inside [of e w] by simp_all
  have up: "width ?sz + 20 \<le> innerWidth w \<longrightarrow> pos_x ?p + width ?sz \<le> innerWidth w - 10"
    "height ?sz + 20 \<le> innerHeight w \<longrightarrow> pos_y ?p + height ?sz \<le> innerHeight w - 10"
    using dragPosition_upper_x [of w e] dragPosition_upper_y [of w e] by simp_all
  have lo: "10 \<le> pos_x ?p" "10 \<le> pos_y ?p"
    using dragPosition_lower [of e w] by simp_all
  have rest: "isFloating (onDrag e w) = isFloating w" "videoState (onDrag e w) = videoState w"
    "kids (onDrag e w) = kids w" "parent (onDrag e w) = parent w"
    "isFloating (startDrag e w) = isFloating w" "videoState (startDrag e w) = videoState w"
    "kids (startDrag e w) = kids w" "parent (startDrag e w) = parent w"
    "style (startDrag e w) = style w"
    "isFloating (stopDrag w) = isFloating w" "videoState (stopDrag w) = videoState w"
    "kids (stopDrag w) = kids w" "parent (stopDrag w) = parent w"
    "style (stopDrag w) = style w"
    by simp_all
  have only: "onDrag e w = w\<lparr>style := style (onDrag e w)\<rparr>"
    "startDrag e w =
       w\<lparr>isDragging := True, dragDoc := True,
         dragOffset := \<lparr>pos_x = clientX e - pos_x (boundingRect w c),
                         pos_y = clientY e - pos_y (boundingRect w c)\<rparr>\<rparr>"
    "stopDrag w = w\<lparr>isDragging := False, dragDoc := False\<rparr>"
    using assms by (simp_all add: onDrag_def startDrag_def stopDrag_def Let_def setStyle_def)
  show ?thesis
    unfolding Let_def
    using ss st f nx ny ins up lo rest only by blast
qed


theorem drag_clamps_position_witness:
  "isDragging demoDragging \<and> floatingContainer demoDragging = Some 10 \<and>
   width (SIZE_MAP (size_setting (currentSettings demoDragging))) + 20
     \<le> innerWidth demoDragging \<and>
   height (SIZE_MAP (size_setting (currentSettings demoDragging))) + 20
     \<le> innerHeight demoDragging \<and>
   style (onDrag \<lparr>clientX = 5000, clientY = - 70\<rparr> demoDragging) 10 ''left'' = ''950px'' \<and>
   style (onDrag \<lparr>clientX = 5000, clientY = - 70\<rparr> demoDragging) 10 ''top'' = ''10px'' \<and>
   pos_x (dragPosition \<lparr>clientX = 5000, clientY = - 70\<rparr> demoDragging) + 320 \<le> 1280 - 10 \<and>
   isFloating (onDrag \<lparr>clientX = 5000, clientY = - 70\<rparr> demoDragging) \<and>
   (10::int) \<le> 405 - 5 \<and> (405::int) - 5 + 320 \<le> 1280 - 10 \<and>
   style (onDrag \<lparr>clientX = 405, clientY = 305\<rparr> demoDragging) 10 ''left'' = ''400px'' \<and>
   style (onDrag \<lparr>clientX = 405, clientY = 305\<rparr> demoDragging) 10 ''top'' = ''300px'' \<and>
   style (onDrag \<lparr>clientX = 405, clientY = 305\<rparr> demoDragging) 10 ''width'' = ''320px'' \<and>
   isDragging demoNarrow \<and> floatingContainer demoNarrow = Some 10 \<and>
   innerWidth demoNarrow
     < width (SIZE_MAP (size_setting (currentSettings demoNarrow))) + 20 \<and>
   style (onDrag \<lparr>clientX = 100, clientY = 100\<rparr> demoNarrow) 10 ''left'' = ''10px'' \<and>
   innerWidth demoNarrow
     < pos_x (dragPosition \<lparr>clientX = 100, clientY = 100\<rparr> demoNarrow) + 320"
proof -
  have h: "isDragging demoDragging" "floatingContainer demoDragging = Some 10"
    by (simp_all add: demoDragging_def demoFloating_def demoDocked_def)
  have hn: "isDragging demoNarrow" "floatingContainer demoNarrow = Some 10"
    by (simp_all add: demoNarrow_def demoDragging_def demoFloating_def demoDocked_def)
  have f: "isFloating demoDragging"
    by (simp add: demoDragging_def demoFloating_def)
  have s: "width (SIZE_MAP (size_setting (currentSettings demoDragging))) = 320"
          "height (SIZE_MAP (size_setting (currentSettings demoDragging))) = 180"
          "innerWidth demoDragging = 1280" "innerHeight demoDragging = 800"
          "dragOffset demoDragging = \<lparr>pos_x = 5, pos_y = 5\<rparr>"
          "style demoDragging 10 ''width'' = ''320px''"
    by (simp_all add: SIZE_MAP_def demoDragging_def demoFloating_def demoDocked_def demoPage_def)
  have sn: "width (SIZE_MAP (size_setting (currentSettings demoNarrow))) = 320"
          "height (SIZE_MAP (size_setting (currentSettings demoNarrow))) = 180"
          "innerWidth demoNarrow = 300" "innerHeight demoNarrow = 200"
          "dragOffset demoNarrow = \<lparr>pos_x = 5, pos_y = 5\<rparr>"
    by (simp_all add: SIZE_MAP_def demoNarrow_def demoDragging_def demoFloating_def
        demoDocked_def demoPage_def)
  have px: "px 950 = ''950px''" "px 10 = ''10px''" "px 400 = ''400px''" "px 300 = ''300px''"
    by (simp_all add: px_def show_int_def show_nat_def show_digits_unfold digit_char_def)
  have a: "style (onDrag \<lparr>clientX = 5000, clientY = - 70\<rparr> demoDragging) 10 ''left'' = ''950px'' \<and>
           style (onDrag \<lparr>clientX = 5000, clientY = - 70\<rparr> demoDragging) 10 ''top'' = ''10px'' \<and>
           pos_x (dragPosition \<lparr>clientX = 5000, clientY = - 70\<rparr> demoDragging) + 320
             \<le> 1280 - 10 \<and>
           isFloating (onDrag \<lparr>clientX = 5000, clientY = - 70\<rparr> demoDragging)"
    using drag_clamps_position [OF h, of "\<lparr>clientX = 5000, clientY = - 70\<rparr>"] f
    by (simp add: Let_def s px)
  have b: "style (onDrag \<lparr>clientX = 405, clientY = 305\<rparr> demoDragging) 10 ''left'' = ''400px'' \<and>
           style (onDrag \<lparr>clientX = 405, clientY = 305\<rparr> demoDragging) 10 ''top'' = ''300px'' \<and>
           style (onDrag \<lparr>clientX = 405, clientY = 305\<rparr> demoDragging) 10 ''width'' = ''320px''"
    using drag_clamps_position [OF h, of "\<lparr>clientX = 405, clientY = 305\<rparr>"]
    by (simp add: Let_def s px)
  have c: "style (onDrag \<lparr>clientX = 100, clientY = 100\<rparr> demoNarrow) 10 ''left'' = ''10px'' \<and>
           innerWidth demoNarrow
             < pos_x (dragPosition \<lparr>clientX = 100, clientY = 100\<rparr> demoNarrow) + 320"
    using drag_clamps_position [OF hn, of "\<lparr>clientX = 100, clientY = 100\<rparr>"]
    by (simp add: Let_def sn px)
  show ?thesis
    using h hn a b c by (simp add: s sn)
qed

text \<open>
  C8 as stated asks for the 10 pixel margin on every side. In a window 300 pixels wide the
  320 pixel container is put at \<open>left = 10px\<close>, and its right edge is outside the window.
\<close>

theorem drag_narrow_window_counterexample:
  "isDragging demoNarrow \<and> floatingContainer demoNarrow = Some 10 \<and>
   style (onDrag \<lparr>clientX = 100, clientY = 100\<rparr> demoNarrow) 10 ''left'' = ''10px'' \<and>
   \<not> (10 + width (SIZE_MAP (size_setting (currentSettings demoNarrow)))
        \<le> innerWidth demoNarrow - 10)"
proof -
  have h: "isDragging demoNarrow" "floatingContainer demoNarrow = Some 10"
    by (simp_all add: demoNarrow_def demoDragging_def demoFloating_def demoDocked_def)
  have p: "pos_x (dragPosition \<lparr>clientX = 100, clientY = 100\<rparr> demoNarrow) = 10"
    by (simp add: dragPosition_def Let_def SIZE_MAP_def demoNarrow_def demoDragging_def
        demoFloating_def demoDocked_def demoPage_def)
  have s: "width (SIZE_MAP (size_setting (currentSettings demoNarrow))) = 320"
          "innerWidth demoNarrow = 300"
    by (simp_all add: SIZE_MAP_def demoNarrow_def demoDragging_def demoFloating_def
        demoDocked_def demoPage_def)
  have px: "px 10 = ''10px''"
    by (simp add: px_def show_int_def show_nat_def show_digits_unfold digit_char_def)
  show ?thesis
    using h by (simp add: onDrag_style p s px)
qed

text \<open>
  The far bound is taken from the size in the settings. After a second
  \<open>initFloatingPlayer\<close> with the size \<open>small\<close> the container of the example page still is
  320 pixels wide, and a drag to the right puts it at \<open>left = 1030px\<close> in a window of 1280
  pixels.
\<close>

lemma drag_after_second_init:
  "isDragging (initFloatingPlayer \<lparr>enabled = True, size_setting = small\<rparr> demoDragging) \<and>
   floatingContainer (initFloatingPlayer \<lparr>enabled = True, size_setting = small\<rparr> demoDragging)
     = Some 10 \<and>
   innerWidth (initFloatingPlayer \<lparr>enabled = True, size_setting = small\<rparr> demoDragging) = 1280 \<and>
   style (onDrag \<lparr>clientX = 5000, clientY = 100\<rparr>
            (initFloatingPlayer \<lparr>enabled = True, size_setting = small\<rparr> demoDragging))
         10 ''width'' = ''320px'' \<and>
   style (onDrag \<lparr>clientX = 5000, clientY = 100\<rparr>
            (initFloatingPlayer \<lparr>enabled = True, size_setting = small\<rparr> demoDragging))
         10 ''left'' = ''1030px''"
proof -
  let ?w = "initFloatingPlayer \<lparr>enabled = True, size_setting = small\<rparr> demoDragging"
  have c: "floatingContainer demoDragging = Some 10"
    by (simp add: demoDragging_def demoFloating_def demoDocked_def)
  note i = initFloatingPlayer_container [OF c, of "\<lparr>enabled = True, size_setting = small\<rparr>"]
  have d: "isDragging ?w" "floatingContainer ?w = Some 10" "innerWidth ?w = 1280"
    "style ?w 10 ''width'' = ''320px''" "dragOffset ?w = \<lparr>pos_x = 5, pos_y = 5\<rparr>"
    by (simp_all add: i)
      (simp_all add: demoDragging_def demoFloating_def demoDocked_def demoPage_def)
  have p: "pos_x (dragPosition \<lparr>clientX = 5000, clientY = 100\<rparr> ?w) = 1030"
    by (simp add: dragPosition_def Let_def d SIZE_MAP_def)
  have px: "px 1030 = ''1030px''"
    by (simp add: px_def show_int_def show_nat_def show_digits_unfold digit_char_def)
  show ?thesis
    using d by (simp add: onDrag_style [OF d(2) d(1)] p px)
qed

section \<open>C2: float, then unfloat\<close>

text \<open>
  C2. Let \<open>v\<close> be the tracked video, docked under the parent element \<open>p\<close>, in a state
  where \<open>showFloatingPlayer\<close> acts. \<open>showFloatingPlayer\<close> followed by
  \<open>hideFloatingPlayer\<close> gives back the tree as it was: \<open>v\<close> is a child of \<open>p\<close> again, in
  front of its former next sibling (the last child if it had none), with its inline
  width and height as before, and the placeholder is in no child list. If the tree is
  edited while the video floats, \<open>hideFloatingPlayer\<close> puts \<open>v\<close> in front of the recorded
  sibling when that is still a child of \<open>p\<close>, and at the end of \<open>p\<close> otherwise.
\<close>

theorem float_unfloat_roundtrip:
  assumes wf: "wfdom w" and cf: "canFloat w v c p" and c: "c < nextNode w" and pc: "p \<noteq> c"
  shows "(let w1 = showFloatingPlayer w; w2 = hideFloatingPlayer w1; ph = nextNode w
          in isFloating w1 \<and> parent w1 v = Some c \<and> parent w1 ph = Some p \<and>
             videoState w1 = Some \<lparr>video = v, originalParent = p,
                                    originalNextSibling = nextSibling w v, placeholder = ph\<rparr> \<and>
             kids w2 = kids w \<and> parent w2 = parent w \<and>
             parent w2 v = Some p \<and> nextSibling w2 v = nextSibling w v \<and>
             (nextSibling w v = None \<longrightarrow> last (kids w2 p) = v) \<and>
             style w2 v ''width'' = style w v ''width'' \<and>
             style w2 v ''height'' = style w v ''height'' \<and>
             parent w2 ph = None \<and> (\<forall>q. ph \<notin> set (kids w2 q)) \<and>
             \<not> isFloating w2 \<and> videoState w2 = None \<and>
             (\<forall>w1'. domEdit w1 w1' \<and> wfdom w1' \<and> parent w1' ph \<noteq> Some (document w1') \<longrightarrow>
                (let w2' = hideFloatingPlayer w1'
                 in parent w2' v = Some p \<and> parent w2' ph = None \<and>
                    (\<forall>q. ph \<notin> set (kids w2' q)) \<and>
                    (case nextSibling w v of
                       None \<Rightarrow> kids w2' p \<noteq> [] \<and> last (kids w2' p) = v
                     | Some s \<Rightarrow>
                         if parent w1' s = Some p then nextSibling w2' v = Some s
                         else kids w2' p \<noteq> [] \<and> last (kids w2' p) = v) \<and>
                    style w2' v ''width'' = style w v ''width'' \<and>
                    style w2' v ''height'' = style w v ''height'')))"
proof -
  let ?ph = "nextNode w"
  let ?w1 = "showFloatingPlayer w"
  let ?w2 = "hideFloatingPlayer ?w1"
  let ?vs = "\<lparr>video = v, originalParent = p, originalNextSibling = nextSibling w v,
              placeholder = ?ph\<rparr>"
  note f = canFloat_facts [OF wf cf]
  have fc: "floatingContainer w = Some c" using cf by (simp add: canFloat_def)
  have st: "videoState ?w1 = Some ?vs" "isFloating ?w1" "nextNode ?w1 = Suc ?ph"
    using showFloatingPlayer_state [OF cf] by simp_all
  have fc1: "floatingContainer ?w1 = Some c" using fc by simp
  have p1: "parent ?w1 = (parent w)(?ph := Some p, v := Some c)"
    using wf cf by (rule showFloatingPlayer_parent)
  have os1: "originalStyles ?w1 v = Some (style w v ''width'', style w v ''height'')"
    using showFloatingPlayer_styles(3) [OF wf cf c] .
  have k2: "kids ?w2 = kids w" and p2: "parent ?w2 = parent w"
    using hide_show_dom [OF wf cf c pc] by simp_all
  have ns: "nextSibling w v = after v (kids w p)"
    using f(1) by (simp add: nextSibling_def)
  have d: "distinct (kids w p)" using wf by (rule wfdom_distinct)
  have notin: "\<And>q. ?ph \<notin> set (kids w q)" using wf by (rule wfdom_fresh_notin)
  have A: "isFloating ?w1 \<and> parent ?w1 v = Some c \<and> parent ?w1 ?ph = Some p \<and>
           videoState ?w1 = Some ?vs"
    using st f by (simp add: p1)
  have B: "kids ?w2 = kids w \<and> parent ?w2 = parent w \<and> parent ?w2 v = Some p \<and>
           nextSibling ?w2 v = nextSibling w v"
    using f by (simp add: k2 p2 nextSibling_def)
  have C: "nextSibling w v = None \<longrightarrow> last (kids ?w2 p) = v"
  proof
    assume "nextSibling w v = None"
    then have "after v (kids w p) = None" by (simp add: ns)
    from after_last [OF d f(2) this] show "last (kids ?w2 p) = v"
      by (auto simp: k2)
  qed
  have D: "style ?w2 v ''width'' = style w v ''width'' \<and>
           style ?w2 v ''height'' = style w v ''height''"
    using hideFloatingPlayer_styles(1,2) [OF fc1 st(2) st(1), of "style w v ''width''"
        "style w v ''height''"] os1
    by simp
  have E: "parent ?w2 ?ph = None \<and> (\<forall>q. ?ph \<notin> set (kids ?w2 q)) \<and>
           \<not> isFloating ?w2 \<and> videoState ?w2 = None"
    using wfdom_fresh [OF wf] notin hideFloatingPlayer_state(1,2) [OF fc1 st(2) st(1)]
    by (simp add: k2 p2)
  have G: "\<forall>w1'. domEdit ?w1 w1' \<and> wfdom w1' \<and> parent w1' ?ph \<noteq> Some (document w1') \<longrightarrow>
             (let w2' = hideFloatingPlayer w1'
              in parent w2' v = Some p \<and> parent w2' ?ph = None \<and>
                 (\<forall>q. ?ph \<notin> set (kids w2' q)) \<and>
                 (case nextSibling w v of
                    None \<Rightarrow> kids w2' p \<noteq> [] \<and> last (kids w2' p) = v
                  | Some s \<Rightarrow>
                      if parent w1' s = Some p then nextSibling w2' v = Some s
                      else kids w2' p \<noteq> [] \<and> last (kids w2' p) = v) \<and>
                 style w2' v ''width'' = style w v ''width'' \<and>
                 style w2' v ''height'' = style w v ''height'')"
  proof (intro allI impI)
    fix w1'
    assume h: "domEdit ?w1 w1' \<and> wfdom w1' \<and> parent w1' ?ph \<noteq> Some (document w1')"
    then have de: "domEdit ?w1 w1'" and wf': "wfdom w1'"
      and nd: "parent w1' ?ph \<noteq> Some (document w1')" by simp_all
    note df = domEdit_fields [OF de]
    have a': "floatingContainer w1' = Some c" "isFloating w1'" "videoState w1' = Some ?vs"
      using df st fc1 by simp_all
    have al: "video ?vs < nextNode w1'" "originalParent ?vs < nextNode w1'"
      using f df(5) st(3) by simp_all
    have ne: "placeholder ?vs \<noteq> video ?vs" "originalNextSibling ?vs \<noteq> Some (video ?vs)"
      "originalNextSibling ?vs \<noteq> Some (placeholder ?vs)"
    proof -
      show "placeholder ?vs \<noteq> video ?vs" using f by simp
      show "originalNextSibling ?vs \<noteq> Some (video ?vs)"
        using after_neq [OF d, of v v] by (auto simp: ns)
      show "originalNextSibling ?vs \<noteq> Some (placeholder ?vs)"
        using after_mem [of v "kids w p" ?ph] notin by (auto simp: ns)
    qed
    have nd': "parent w1' (placeholder ?vs) \<noteq> Some (document w1')" using nd by simp
    note pl = hideFloatingPlayer_placement [OF wf' a' al ne nd']
    let ?w2' = "hideFloatingPlayer w1'"
    have wf2': "wfdom ?w2'"
      using wf' al a'(3) by (intro hideFloatingPlayer_wfdom) auto
    have pv: "parent ?w2' v = Some p" and pp: "parent ?w2' ?ph = None"
      using pl(1,2) by simp_all
    have nk: "\<forall>q. ?ph \<notin> set (kids ?w2' q)"
      using wf2' pp by (metis wfdom_parent option.distinct(1))
    have os': "originalStyles w1' v = Some (style w v ''width'', style w v ''height'')"
      using os1 df(4) by simp
    have sty: "style ?w2' v ''width'' = style w v ''width'' \<and>
               style ?w2' v ''height'' = style w v ''height''"
      using hideFloatingPlayer_styles(1,2) [OF a', of "style w v ''width''"
          "style w v ''height''"] os'
      by simp
    have place: "case nextSibling w v of
                   None \<Rightarrow> kids ?w2' p \<noteq> [] \<and> last (kids ?w2' p) = v
                 | Some s \<Rightarrow>
                     if parent w1' s = Some p then nextSibling ?w2' v = Some s
                     else kids ?w2' p \<noteq> [] \<and> last (kids ?w2' p) = v"
    proof (cases "nextSibling w v")
      case None
      then show ?thesis using pl(4) by simp
    next
      case (Some s)
      show ?thesis
      proof (cases "parent w1' s = Some p")
        case True
        then have "after v (kids ?w2' p) = Some s" using pl(3) [of s] Some by simp
        then show ?thesis using Some True pv by (simp add: nextSibling_def)
      next
        case False
        then show ?thesis using pl(4) Some by simp
      qed
    qed
    show "let w2' = hideFloatingPlayer w1'
          in parent w2' v = Some p \<and> parent w2' ?ph = None \<and>
             (\<forall>q. ?ph \<notin> set (kids w2' q)) \<and>
             (case nextSibling w v of
                None \<Rightarrow> kids w2' p \<noteq> [] \<and> last (kids w2' p) = v
              | Some s \<Rightarrow>
                  if parent w1' s = Some p then nextSibling w2' v = Some s
                  else kids w2' p \<noteq> [] \<and> last (kids w2' p) = v) \<and>
             style w2' v ''width'' = style w v ''width'' \<and>
             style w2' v ''height'' = style w v ''height''"
      unfolding Let_def using pv pp nk place sty by blast
  qed
  show ?thesis
    using A B C D E G unfolding Let_def by blast
qed

theorem float_unfloat_roundtrip_witness:
  "wfdom demoDocked \<and> canFloat demoDocked 4 10 3 \<and> 10 < nextNode demoDocked \<and>
   domEdit (showFloatingPlayer demoDocked) (showFloatingPlayer demoDocked) \<and>
   wfdom (showFloatingPlayer demoDocked) \<and>
   parent (showFloatingPlayer demoDocked) (nextNode demoDocked)
     \<noteq> Some (document (showFloatingPlayer demoDocked)) \<and>
   nextSibling demoDocked 4 = Some 5 \<and>
   parent (showFloatingPlayer demoDocked) 5 = Some 3 \<and>
   kids (hideFloatingPlayer (showFloatingPlayer demoDocked)) = kids demoDocked \<and>
   nextSibling (hideFloatingPlayer (showFloatingPlayer demoDocked)) 4 = Some 5 \<and>
   style (hideFloatingPlayer (showFloatingPlayer demoDocked)) 4 ''width'' = []"
proof -
  have wf: "wfdom demoDocked" by (rule wfdom_demoDocked)
  have cf: "canFloat demoDocked 4 10 3" by (rule canFloat_demoDocked)
  have c: "10 < nextNode demoDocked" by (simp add: demoDocked_def)
  have pc: "(3::nat) \<noteq> 10" by simp
  have wf1: "wfdom (showFloatingPlayer demoDocked)"
    using wf cf c by (rule showFloatingPlayer_wfdom)
  have ns: "nextSibling demoDocked 4 = Some 5"
    by (simp add: nextSibling_def demoDocked_def demoPage_def)
  have sty: "style demoDocked 4 ''width'' = []"
    by (simp add: demoDocked_def demoPage_def)
  have p5: "parent demoDocked 5 = Some 3" "document demoDocked = 0" "nextNode demoDocked = 13"
    by (simp_all add: demoDocked_def demoPage_def)
  have p1: "parent (showFloatingPlayer demoDocked) 5 = Some 3"
    "parent (showFloatingPlayer demoDocked) (nextNode demoDocked) = Some 3"
    "document (showFloatingPlayer demoDocked) = 0"
    using p5 by (simp_all add: showFloatingPlayer_parent [OF wf cf])
  show ?thesis
    using float_unfloat_roundtrip [OF wf cf c pc] wf cf c wf1 ns sty p1
      domEdit_refl [of "showFloatingPlayer demoDocked"]
    by (simp add: Let_def)
qed

section \<open>C3: the close button\<close>




section \<open>C5: locating while a video floats\<close>

text \<open>
  C5 asks, for every call while a video floats, for the floating video when its
  placeholder lies in a candidate block, and otherwise for the video to be put back
  before the search. On the example page video 4 floats and its placeholder stands in
  block \<open>cur\<close>. With a host whose lookups return, \<open>getVideoEl\<close> for \<open>cur\<close> answers video 4.
  With a host whose second lookup throws, \<open>getVideoEl\<close> for \<open>cur\<close> throws at line 171
  instead of answering video 4, and \<open>getVideoEl\<close> for \<open>left\<close>, a block without the
  placeholder, throws at line 176: the video is not put back and nothing is searched.
\<close>

theorem locate_floating_video_throws_on_lookup:
  "getFloatingVideo demoFloating = Some 4 \<and>
   hasPlaceholder demoHostThrows demoFloating ''cur'' = Inr True \<and>
   getVideoEl demoHost ''cur'' demoFloating = (Inr (Some 4), demoFloating) \<and>
   getVideoEl demoHostThrows ''cur'' demoFloating =
     (Inl (HostError ''getBlock failed''), demoFloating) \<and>
   hasPlaceholder demoHostThrows demoFloating ''left'' = Inr False \<and>
   hasPlaceholder demoHostThrows demoFloating ''par'' = Inr False \<and>
   getVideoEl demoHostThrows ''left'' demoFloating =
     (Inl (HostError ''getBlock failed''), demoFloating) \<and>
   isFloating demoFloating"
proof -
  let ?cur = "\<lparr>uuid = ''cur'', left = Some (Obj (Some 6)), parent_ref = Some (Obj (Some 8))\<rparr>"
  let ?left = "\<lparr>uuid = ''left'', left = None, parent_ref = Some (Obj (Some 8))\<rparr>"
  have fv: "getFloatingVideo demoFloating = Some 4"
    by (simp add: getFloatingVideo_def demoFloating_def)
  have fl: "isFloating demoFloating"
    by (simp add: demoFloating_def)
  have hp: "hasPlaceholder h demoFloating ''cur'' = Inr True"
    "hasPlaceholder h demoFloating ''left'' = Inr False"
    "hasPlaceholder h demoFloating ''par'' = Inr False" for h
    by (simp_all add: hasPlaceholder_iff [OF demo_floating_blocks(4)]
        hasPlaceholder_iff [OF demo_floating_blocks(5)]
        hasPlaceholder_iff [OF demo_floating_blocks(6)]
        demo_floating_blocks(1,2,3) demo_floating_class)
  have b0: "getBlock demoHost 0 (Str ''cur'') = Inr (Some ?cur)" by (rule demoHost_answers)
  have b1: "resolveRelated demoHost 1 (left ?cur) = Inr ([''left''], 2)"
    using demoHost_resolves by simp
  have b2: "resolveRelated demoHost 2 (parent_ref ?cur) = Inr ([''par''], 3)"
    using demoHost_resolves by simp
  have ok: "getVideoEl demoHost ''cur'' demoFloating = (Inr (Some 4), demoFloating)"
    using getVideoEl_resolved [OF b0 b1 b2, of demoFloating] fv hp(1) by simp
  have t0: "getBlock demoHostThrows 0 (Str ''cur'') = Inr (Some ?cur)"
    by (simp add: demoHostThrows_def demoHost_answers)
  have t1: "resolveRelated demoHostThrows 1 (left ?cur) = Inl (HostError ''getBlock failed'')"
    by (simp add: resolveRelated_def truthy_def refId_def demoHostThrows_def)
  have th: "getVideoEl demoHostThrows ''cur'' demoFloating =
              (Inl (HostError ''getBlock failed''), demoFloating)"
    using t0 t1 by (rule getVideoEl_sibling_throws)
  have l0: "getBlock demoHostThrows 0 (Str ''left'') = Inr (Some ?left)"
    by (simp add: demoHostThrows_def demoHost_def)
  have l1: "resolveRelated demoHostThrows 1 (left ?left) = Inr ([], 1)"
    by (simp add: resolveRelated_def)
  have l2: "resolveRelated demoHostThrows 1 (parent_ref ?left) =
              Inl (HostError ''getBlock failed'')"
    by (simp add: resolveRelated_def truthy_def refId_def demoHostThrows_def)
  have tl: "getVideoEl demoHostThrows ''left'' demoFloating =
              (Inl (HostError ''getBlock failed''), demoFloating)"
    using l0 l1 l2 by (rule getVideoEl_parent_throws)
  show ?thesis
    using fv hp [of demoHostThrows] ok th tl fl by blast
qed

section \<open>C6: the order of the search\<close>

text \<open>
  C6 asks, for every call with no floating video, for the first video in the order
  current block, left sibling, parent block. On the example page no video floats and
  each of the three blocks holds a video. With a host whose lookups return, \<open>getVideoEl\<close>
  for \<open>cur\<close> answers video 4, the current block's. With a host whose lookup of the
  parent at line 176 throws, \<open>getVideoEl\<close> throws and answers no video, though the
  current block holds one: the search of lines 194 to 227 is never reached.
\<close>

theorem locate_priority_throws_on_parent_lookup:
  "getFloatingVideo demoDocked = None \<and>
   findVideoInBlock demoHostParentThrows demoDocked ''cur'' = Inr (Some 4) \<and>
   findVideoInBlock demoHostParentThrows demoDocked ''left'' = Inr (Some 7) \<and>
   findVideoInBlock demoHostParentThrows demoDocked ''par'' = Inr (Some 9) \<and>
   getVideoEl demoHost ''cur'' demoDocked = (Inr (Some 4), demoDocked) \<and>
   getVideoEl demoHostParentThrows ''cur'' demoDocked =
     (Inl (HostError ''getBlock failed''), demoDocked)"
proof -
  let ?cur = "\<lparr>uuid = ''cur'', left = Some (Obj (Some 6)), parent_ref = Some (Obj (Some 8))\<rparr>"
  have nf: "getFloatingVideo demoDocked = None"
    by (simp add: getFloatingVideo_def demoDocked_def demoPage_def)
  have b0: "getBlock demoHost 0 (Str ''cur'') = Inr (Some ?cur)" by (rule demoHost_answers)
  have b1: "resolveRelated demoHost 1 (left ?cur) = Inr ([''left''], 2)"
    using demoHost_resolves by simp
  have b2: "resolveRelated demoHost 2 (parent_ref ?cur) = Inr ([''par''], 3)"
    using demoHost_resolves by simp
  have f: "findVideoInBlock demoHost demoDocked (uuid ?cur) = Inr (Some 4)"
    using demo_blocks(4) [of demoHost] by simp
  have ok: "getVideoEl demoHost ''cur'' demoDocked = (Inr (Some 4), demoDocked)"
    using getVideoEl_resolved [OF b0 b1 b2, of demoDocked] nf domSearch_current [OF f]
    by simp
  have t0: "getBlock demoHostParentThrows 0 (Str ''cur'') = Inr (Some ?cur)"
    by (simp add: demoHostParentThrows_def demoHost_answers)
  have t1: "resolveRelated demoHostParentThrows 1 (left ?cur) = Inr ([''left''], 2)"
    by (simp add: resolveRelated_def truthy_def refId_def demoHostParentThrows_def
        demoHost_answers)
  have t2: "resolveRelated demoHostParentThrows 2 (parent_ref ?cur) =
              Inl (HostError ''getBlock failed'')"
    by (simp add: resolveRelated_def truthy_def refId_def demoHostParentThrows_def)
  have th: "getVideoEl demoHostParentThrows ''cur'' demoDocked =
              (Inl (HostError ''getBlock failed''), demoDocked)"
    using t0 t1 t2 by (rule getVideoEl_parent_throws)
  show ?thesis
    using nf demo_blocks(4,5,6) [of demoHostParentThrows] ok th by blast
qed

section \<open>C7: a block lookup that throws\<close>

text \<open>
  C7 asks that an exception of a sibling or parent lookup is caught inside \<open>getVideoEl\<close>.
  The lookups of lines 200 to 225 are inside \<open>try\<close>, the ones of lines 169 to 178 are
  not: on the example page, with a host whose first lookup of the left sibling throws,
  \<open>getVideoEl\<close> itself throws, though the current block holds a video, and nothing is
  logged.
\<close>

theorem locate_throws_on_first_sibling_lookup:
  "findVideoInBlock demoHostThrows demoDocked ''cur'' = Inr (Some 4) \<and>
   getVideoEl demoHostThrows ''cur'' demoDocked =
     (Inl (HostError ''getBlock failed''), demoDocked)"
proof -
  have "getVideoEl demoHostThrows ''cur'' demoDocked =
          (Inl (HostError ''getBlock failed''), demoDocked)"
    by (simp add: getVideoEl_def resolveRelated_def truthy_def refId_def demoHostThrows_def
        demoHost_answers)
  then show ?thesis using demo_blocks(4) [of demoHostThrows] by simp
qed

section \<open>C4: the placeholder\<close>

text \<open>
  C4. From any DOCKED state that satisfies the engine's invariant, after any sequence of
  events: an element of the placeholder class is attached to the tree if and only if the
  engine is FLOATING, which is the case if and only if there is a \<open>FloatingState\<close>. While
  FLOATING, the placeholder of the \<open>FloatingState\<close> is the only such element, it is a
  child of the video's original parent, in front of the video's recorded next sibling,
  and the video is a child of the container. Its \<open>width\<close> and \<open>height\<close> are the video's
  \<open>offsetWidth\<close> and \<open>offsetHeight\<close>, in pixels, as they were just before the event
  that made the engine FLOATING with this \<open>FloatingState\<close> (since that event the engine
  has been FLOATING with it after every event), whatever the layout has become.
\<close>

theorem placeholder_while_floating:
  assumes i: "engineInv w0" and d: "\<not> isFloating w0"
  shows "(let w = run es w0
          in isFloating w = (\<exists>n. hasClass w placeholderClass n \<and> parent w n \<noteq> None) \<and>
             isFloating w = (videoState w \<noteq> None) \<and>
             (\<forall>vs. floatsWith w vs \<longrightarrow>
                hasClass w placeholderClass (placeholder vs) \<and>
                parent w (placeholder vs) = Some (originalParent vs) \<and>
                nextSibling w (placeholder vs) = originalNextSibling vs \<and>
                (\<forall>n. hasClass w placeholderClass n \<and> parent w n \<noteq> None
                      \<longrightarrow> n = placeholder vs) \<and>
                (\<exists>c. floatingContainer w = Some c \<and> parent w (video vs) = Some c) \<and>
                (\<exists>es1 e es2.
                   es = es1 @ e # es2 \<and> \<not> floatsWith (run es1 w0) vs \<and>
                   (\<forall>k\<le>length es2. floatsWith (run (es1 @ e # take k es2) w0) vs) \<and>
                   style w (placeholder vs) ''width''
                     = px (offsetWidth (run es1 w0) (video vs)) \<and>
                   style w (placeholder vs) ''height''
                     = px (offsetHeight (run es1 w0) (video vs)))))"
proof -
  let ?w = "run es w0"
  have iw: "engineInv ?w" using i by (rule engineInv_run)
  note s = engineInv_slot [OF iw]
  have z: "\<forall>vs. floatsWith ?w vs \<longrightarrow>
             (\<exists>es1 e es2.
                es = es1 @ e # es2 \<and> \<not> floatsWith (run es1 w0) vs \<and>
                (\<forall>k\<le>length es2. floatsWith (run (es1 @ e # take k es2) w0) vs) \<and>
                style ?w (placeholder vs) ''width''
                  = px (offsetWidth (run es1 w0) (video vs)) \<and>
                style ?w (placeholder vs) ''height''
                  = px (offsetHeight (run es1 w0) (video vs)))"
    using size_trace [OF i d, of es] unfolding sizedAt_def by blast
  have a: "\<forall>vs. floatsWith ?w vs \<longrightarrow>
             hasClass ?w placeholderClass (placeholder vs) \<and>
             parent ?w (placeholder vs) = Some (originalParent vs) \<and>
             nextSibling ?w (placeholder vs) = originalNextSibling vs \<and>
             (\<forall>n. hasClass ?w placeholderClass n \<and> parent ?w n \<noteq> None
                   \<longrightarrow> n = placeholder vs) \<and>
             (\<exists>c. floatingContainer ?w = Some c \<and> parent ?w (video vs) = Some c)"
    using s(3) by blast
  show ?thesis
    unfolding Let_def using s(1,2) a z by blast
qed


theorem placeholder_while_floating_witness:
  "engineInv demoDocked \<and> \<not> isFloating demoDocked \<and>
   floatsWith
     (run [Intersect [(4, False)],
           Layout (\<lambda>_. 100) (\<lambda>_. 50) (\<lambda>_. \<lparr>pos_x = 0, pos_y = 0\<rparr>) 1280 800] demoDocked)
     demoVideoState \<and>
   hasClass
     (run [Intersect [(4, False)],
           Layout (\<lambda>_. 100) (\<lambda>_. 50) (\<lambda>_. \<lparr>pos_x = 0, pos_y = 0\<rparr>) 1280 800] demoDocked)
     placeholderClass 13 \<and>
   parent
     (run [Intersect [(4, False)],
           Layout (\<lambda>_. 100) (\<lambda>_. 50) (\<lambda>_. \<lparr>pos_x = 0, pos_y = 0\<rparr>) 1280 800] demoDocked)
     13 = Some 3 \<and>
   nextSibling
     (run [Intersect [(4, False)],
           Layout (\<lambda>_. 100) (\<lambda>_. 50) (\<lambda>_. \<lparr>pos_x = 0, pos_y = 0\<rparr>) 1280 800] demoDocked)
     13 = Some 5 \<and>
   offsetWidth
     (run [Intersect [(4, False)],
           Layout (\<lambda>_. 100) (\<lambda>_. 50) (\<lambda>_. \<lparr>pos_x = 0, pos_y = 0\<rparr>) 1280 800] demoDocked)
     4 = 100 \<and>
   style
     (run [Intersect [(4, False)],
           Layout (\<lambda>_. 100) (\<lambda>_. 50) (\<lambda>_. \<lparr>pos_x = 0, pos_y = 0\<rparr>) 1280 800] demoDocked)
     13 ''width'' = ''640px'' \<and>
   style
     (run [Intersect [(4, False)],
           Layout (\<lambda>_. 100) (\<lambda>_. 50) (\<lambda>_. \<lparr>pos_x = 0, pos_y = 0\<rparr>) 1280 800] demoDocked)
     13 ''height'' = ''360px''"
proof -
  let ?a = "Intersect [(4, False)]"
  let ?b = "Layout (\<lambda>_. 100) (\<lambda>_. 50) (\<lambda>_. \<lparr>pos_x = 0, pos_y = 0\<rparr>) 1280 800"
  define w1 where "w1 = step ?a demoDocked"
  define w2 where "w2 = run [?a, ?b] demoDocked"
  note i = engineInv_demoDocked
  have k: "\<not> isFloating demoDocked" "recentlyPlayedVideo demoDocked = Some 4"
    "observer demoDocked = Some [4]" "nextNode demoDocked = 13"
    "offsetWidth demoDocked 4 = 640" "offsetHeight demoDocked 4 = 360"
    by (simp_all add: demoDocked_def demoPage_def)
  have ns: "nextSibling demoDocked 4 = Some 5"
    by (simp add: nextSibling_def demoDocked_def demoPage_def)
  note cf = canFloat_demoDocked
  have sv: "videoState (showFloatingPlayer demoDocked) = Some demoVideoState"
    using showFloatingPlayer_state(1) [OF cf] by (simp add: ns k demoVideoState_def)
  have sf: "isFloating (showFloatingPlayer demoDocked)"
    using cf by (rule showFloatingPlayer_state(2))
  have e1: "w1 = handleEntry (4, False) demoDocked"
    by (simp add: w1_def k handleIntersection_def)
  have f1: "floatsWith w1 demoVideoState"
    unfolding e1 floatsWith_def using sv sf k(1,2)
    by (simp add: handleEntry_def Let_def split: option.splits)
  have r1: "run [?a] demoDocked = w1" by (simp add: run_def w1_def)
  have r2: "w2 = step ?b w1" by (simp add: run_def w1_def w2_def)
  have f2: "floatsWith w2 demoVideoState"
    using f1 by (simp add: r2 floatsWith_def)
  have o2: "offsetWidth w2 4 = 100" by (simp add: r2)
  have v: "video demoVideoState = 4" "placeholder demoVideoState = 13"
    "originalParent demoVideoState = 3" "originalNextSibling demoVideoState = Some 5"
    by (simp_all add: demoVideoState_def)
  have t: "floatsWith w2 demoVideoState \<longrightarrow>
             hasClass w2 placeholderClass (placeholder demoVideoState) \<and>
             parent w2 (placeholder demoVideoState) = Some (originalParent demoVideoState) \<and>
             nextSibling w2 (placeholder demoVideoState) = originalNextSibling demoVideoState \<and>
             (\<forall>n. hasClass w2 placeholderClass n \<and> parent w2 n \<noteq> None
                   \<longrightarrow> n = placeholder demoVideoState) \<and>
             (\<exists>c. floatingContainer w2 = Some c \<and> parent w2 (video demoVideoState) = Some c) \<and>
             (\<exists>es1 e es2.
                [?a, ?b] = es1 @ e # es2 \<and> \<not> floatsWith (run es1 demoDocked) demoVideoState \<and>
                (\<forall>k\<le>length es2.
                    floatsWith (run (es1 @ e # take k es2) demoDocked) demoVideoState) \<and>
                style w2 (placeholder demoVideoState) ''width''
                  = px (offsetWidth (run es1 demoDocked) (video demoVideoState)) \<and>
                style w2 (placeholder demoVideoState) ''height''
                  = px (offsetHeight (run es1 demoDocked) (video demoVideoState)))"
    using placeholder_while_floating [OF i k(1), of "[?a, ?b]"]
    unfolding Let_def w2_def [symmetric] by blast
  from t f2 have slot: "hasClass w2 placeholderClass 13" "parent w2 13 = Some 3"
    "nextSibling w2 13 = Some 5"
    by (simp_all add: v)
  from t f2 obtain es1 e es2 where
    sp: "[?a, ?b] = es1 @ e # es2" and n: "\<not> floatsWith (run es1 demoDocked) demoVideoState"
    and sw: "style w2 13 ''width'' = px (offsetWidth (run es1 demoDocked) 4)"
    and sh: "style w2 13 ''height'' = px (offsetHeight (run es1 demoDocked) 4)"
    unfolding v by blast
  have "es1 = [] \<or> es1 = [?a]"
    using sp by (cases es1; cases "tl es1") auto
  then have es1: "es1 = []" using n r1 f1 by auto
  have px: "px 640 = ''640px''" "px 360 = ''360px''"
    by (simp_all add: px_def show_int_def show_nat_def show_digits_unfold digit_char_def)
  have sz: "style w2 13 ''width'' = ''640px''" "style w2 13 ''height'' = ''360px''"
    using sw sh by (simp_all add: es1 run_def k px)
  show ?thesis
    unfolding w2_def [symmetric]
    using i k(1) f2 slot o2 sz by blast
qed

section \<open>C9: the timestamp macro\<close>

text \<open>
  C9. The slash command, with the located video at 125.7 seconds, inserts the macro text
  \<open>{{renderer :mediatimestamp_<uuid>, 125.7}}\<close>; the arguments of that macro are rendered
  as a button labelled \<open>Timestamp: 125s\<close>; a click on it sets the \<open>currentTime\<close> of the
  video located then to 125 and plays it. The block's uuid holds no comma and no white
  space.
\<close>

theorem timestamp_roundtrip:
  assumes loc: "getVideoEl h u w = (Inr (Some v), w1)"
    and t: "currentTime w1 v = Decimal 125 [7]"
    and uu: "\<forall>c\<in>set u. c \<noteq> CHR '','' \<and> \<not> isWhite c"
    and loc2: "getVideoEl h' u w' = (Inr (Some v'), w1')"
  shows "(let text = ''{{renderer :mediatimestamp_'' @ u @ '', 125.7}}'';
              args = ['':mediatimestamp_'' @ u, ''125.7''];
              w2 = clickTimestamp h' u (Some ''125.7'') w'
          in editorText (insertTimestamp h u w) = editorText w1 @ [text] \<and>
             macroArguments text = Some args \<and>
             onMacroRendererSlotted slot u args =
               Some (''mediaclick_'' @ u @ ''_'' @ slot,
                     Some \<lparr>buttonId = ''mediatimestamp_'' @ u @ ''_'' @ slot,
                           buttonClass = ''logseq-mediatimestamp-plugin'',
                           dataOnClick = ''mediaclick_'' @ u @ ''_'' @ slot,
                           label = ''Timestamp: 125s''\<rparr>) \<and>
             currentTime w2 v' = Decimal 125 [] \<and> \<not> paused w2 v')"
proof -
  have A: "editorText (insertTimestamp h u w)
             = editorText w1 @ [''{{renderer :mediatimestamp_'' @ u @ '', 125.7}}'']"
    by (simp add: insertTimestamp_def loc t numToString_125_7)
  have B: "macroArguments (''{{renderer :mediatimestamp_'' @ u @ '', 125.7}}'')
             = Some ['':mediatimestamp_'' @ u, ''125.7'']"
    using uu by (rule macroArguments_timestamp)
  have C: "onMacroRendererSlotted slot u ['':mediatimestamp_'' @ u, ''125.7''] =
             Some (''mediaclick_'' @ u @ ''_'' @ slot,
                   Some \<lparr>buttonId = ''mediatimestamp_'' @ u @ ''_'' @ slot,
                         buttonClass = ''logseq-mediatimestamp-plugin'',
                         dataOnClick = ''mediaclick_'' @ u @ ''_'' @ slot,
                         label = ''Timestamp: 125s''\<rparr>)"
    by (simp add: onMacroRendererSlotted_def startsWith_def Let_def showParsed_def
        parseInt_125_7 show_int_125)
  have D: "currentTime (clickTimestamp h' u (Some ''125.7'') w') v' = Decimal 125 [] \<and>
           \<not> paused (clickTimestamp h' u (Some ''125.7'') w') v'"
    by (simp add: clickTimestamp_def loc2 parseInt_125_7 parsedOrZero_def)
  show ?thesis
    unfolding Let_def using A B C D by blast
qed

theorem timestamp_roundtrip_witness:
  "getVideoEl demoHost ''cur'' demoPlaying = (Inr (Some 4), demoPlaying) \<and>
   currentTime demoPlaying 4 = Decimal 125 [7] \<and>
   CHR '','' \<notin> set ''cur'' \<and>
   editorText (insertTimestamp demoHost ''cur'' demoPlaying)
     = [''{{renderer :mediatimestamp_cur, 125.7}}''] \<and>
   macroArguments ''{{renderer :mediatimestamp_cur, 125.7}}''
     = Some ['':mediatimestamp_cur'', ''125.7''] \<and>
   currentTime (clickTimestamp demoHost ''cur'' (Some ''125.7'') demoPlaying) 4 = Decimal 125 []"
proof -
  note loc = demoPlaying_located
  have t: "currentTime demoPlaying 4 = Decimal 125 [7]"
    by (simp add: demoPlaying_def)
  have uu: "\<forall>c\<in>set ''cur''. c \<noteq> CHR '','' \<and> \<not> isWhite c"
    by (simp add: isWhite_def)
  have e: "editorText demoPlaying = []"
    by (simp add: demoPlaying_def demoDocked_def demoPage_def)
  show ?thesis
    using timestamp_roundtrip [OF loc t uu loc, of "''s''"] loc t e
    by (simp add: Let_def)
qed

section \<open>C10: initialisation with the feature disabled\<close>

text \<open>
  C10. From the module's initial state, \<open>initFloatingPlayer\<close> with \<open>enabled = false\<close>
  creates no container, no observer and no play listener (and no element at all), and a
  later \<open>updateFloatingPlayerSettings\<close> with \<open>enabled = true\<close> creates none either.
  From there no event sequence reaches the FLOATING state, unless it holds a call of
  \<open>initFloatingPlayer\<close> with \<open>enabled = true\<close>.
\<close>

theorem disabled_init_never_floats:
  assumes "moduleLoaded w" and "\<not> enabled s" and "enabled s'"
  shows "(let w1 = initFloatingPlayer s w;
              w2 = updateFloatingPlayerSettings s' w1
          in floatingContainer w1 = None \<and> observer w1 = None \<and> \<not> playListener w1 \<and>
             nextNode w1 = nextNode w \<and> kids w1 = kids w \<and>
             floatingContainer w2 = None \<and> observer w2 = None \<and> \<not> playListener w2 \<and>
             nextNode w2 = nextNode w \<and> kids w2 = kids w \<and>
             (\<forall>es. (\<forall>e\<in>set es. \<not> enablingInit e) \<longrightarrow>
                   \<not> isFloating (run es w2) \<and> floatingContainer (run es w2) = None))"
proof -
  let ?w1 = "initFloatingPlayer s w"
  let ?w2 = "updateFloatingPlayerSettings s' ?w1"
  have w1: "?w1 = w\<lparr>currentSettings := s\<rparr>"
    using assms(2) by (rule initFloatingPlayer_disabled)
  have c1: "floatingContainer ?w1 = None"
    using assms(1) by (simp add: w1 moduleLoaded_def)
  have w2: "?w2 = w\<lparr>currentSettings := s'\<rparr>"
    using c1 by (simp add: updateFloatingPlayerSettings_no_container w1)
  have nc: "noContainer ?w2"
    using assms(1) by (simp add: w2 noContainer_def moduleLoaded_def)
  have tr: "\<forall>es. (\<forall>e\<in>set es. \<not> enablingInit e) \<longrightarrow>
              \<not> isFloating (run es ?w2) \<and> floatingContainer (run es ?w2) = None"
    using run_noContainer [OF nc] by (simp add: noContainer_def)
  have st1: "floatingContainer ?w1 = None \<and> observer ?w1 = None \<and> \<not> playListener ?w1 \<and>
            nextNode ?w1 = nextNode w \<and> kids ?w1 = kids w"
    using assms(1) by (simp add: w1 moduleLoaded_def)
  have st2: "floatingContainer ?w2 = None \<and> observer ?w2 = None \<and> \<not> playListener ?w2 \<and>
            nextNode ?w2 = nextNode w \<and> kids ?w2 = kids w"
    using assms(1) unfolding w2 by (simp add: moduleLoaded_def)
  show ?thesis
    unfolding Let_def using st1 st2 tr by blast
qed

theorem disabled_init_never_floats_witness:
  "moduleLoaded demoPage \<and> \<not> enabled settingsOff \<and> enabled settingsOn \<and>
   floatingContainer
     (updateFloatingPlayerSettings settingsOn (initFloatingPlayer settingsOff demoPage)) = None \<and>
   \<not> enablingInit (Play 4) \<and> \<not> enablingInit (Intersect [(4, False)]) \<and>
   \<not> isFloating
       (run [Play 4, Intersect [(4, False)]]
          (updateFloatingPlayerSettings settingsOn (initFloatingPlayer settingsOff demoPage)))"
proof -
  have h: "moduleLoaded demoPage" "\<not> enabled settingsOff" "enabled settingsOn"
    by (simp_all add: moduleLoaded_def demoPage_def settingsOff_def settingsOn_def)
  have e: "\<forall>e\<in>set [Play 4, Intersect [(4, False)]]. \<not> enablingInit e"
    by (simp add: enablingInit_def)
  show ?thesis
    using disabled_init_never_floats [OF h] h e
    by (simp add: Let_def enablingInit_def)
qed

end
